(* ===== verification/Prelude.thy ===== *)
theory Prelude
  imports Main "HOL-Library.Word" "HOL-Library.Multiset" "HOL-Library.Char_ord"
    "HOL-Library.List_Lexorder"
begin

text \<open>
  The shared vocabulary of the development: Rust's \<open>Result\<close> with the combinators the
  sources use (\<open>?\<close>, \<open>map_err\<close>, \<open>collect\<close>), anyhow's error chains, the fixed-width
  integer types, \<open>Duration\<close> as nanoseconds with its saturation bounds, slices' \<open>chunks\<close>,
  decimal printing, and the contract of an \<open>ORDER BY ... ASC\<close> clause.
\<close>

named_theorems result_simps \<open>unfolding of the result combinators\<close>

section \<open>Integers\<close>

type_synonym u8 = "8 word"
type_synonym u16 = "16 word"
type_synonym u32 = "32 word"
type_synonym u64 = "64 word"
type_synonym usize = "64 word"

text \<open>An \<open>f64\<close> (\<open>f32\<close>) is its IEEE 754 bit pattern.\<close>

type_synonym f64 = "64 word"
type_synonym f32 = "32 word"

text \<open>\<open>Uuid\<close> is a 128-bit value; a \<open>DateTime<Utc>\<close> is its signed distance from the epoch.\<close>

type_synonym uuid = "128 word"
type_synonym datetime = int

section \<open>Results and error chains\<close>

datatype ('a, 'e) result = Ok 'a | Err 'e

definition is_ok :: "('a, 'e) result \<Rightarrow> bool" where
  "is_ok r = (case r of Ok _ \<Rightarrow> True | Err _ \<Rightarrow> False)"

definition and_then :: "('a, 'e) result \<Rightarrow> ('a \<Rightarrow> ('b, 'e) result) \<Rightarrow> ('b, 'e) result" where
  "and_then r f = (case r of Ok v \<Rightarrow> f v | Err e \<Rightarrow> Err e)"

definition map_err :: "('e \<Rightarrow> 'f) \<Rightarrow> ('a, 'e) result \<Rightarrow> ('a, 'f) result" where
  "map_err f r = (case r of Ok v \<Rightarrow> Ok v | Err e \<Rightarrow> Err (f e))"

text \<open>
  An \<open>anyhow::Error\<close> is a message under any number of contexts; its \<open>Display\<close> shows the
  outermost one.
\<close>

datatype anyhow = Msg string | Ctx string anyhow

fun display :: "anyhow \<Rightarrow> string" where
  "display (Msg m) = m"
| "display (Ctx c _) = c"

definition context_err :: "string \<Rightarrow> ('a, anyhow) result \<Rightarrow> ('a, anyhow) result" where
  "context_err c = map_err (Ctx c)"

definition ok_or_else :: "'a option \<Rightarrow> 'e \<Rightarrow> ('a, 'e) result" where
  "ok_or_else x e = (case x of Some v \<Rightarrow> Ok v | None \<Rightarrow> Err e)"

text \<open>\<open>iter.collect::<Result<Vec<_>, _>>()\<close>: the first error wins.\<close>

fun collect :: "('a, 'e) result list \<Rightarrow> ('a list, 'e) result" where
  "collect [] = Ok []"
| "collect (r # rs) = and_then r (\<lambda>v. and_then (collect rs) (\<lambda>vs. Ok (v # vs)))"

text \<open>The operator \<open>?\<close> between two stateful calls.\<close>

definition try_then ::
  "('a, 'e) result \<times> 'w \<Rightarrow> ('a \<Rightarrow> 'w \<Rightarrow> ('b, 'e) result \<times> 'w) \<Rightarrow> ('b, 'e) result \<times> 'w" where
  "try_then r f = (case r of (Ok v, w) \<Rightarrow> f v w | (Err e, w) \<Rightarrow> (Err e, w))"

section \<open>Durations\<close>

text \<open>
  A \<open>Duration\<close> is a number of nanoseconds; the largest one holds \<open>u64::MAX\<close> seconds and
  999999999 nanoseconds.
\<close>

type_synonym duration = nat

definition DURATION_MAX :: duration where
  "DURATION_MAX = (2 ^ 64 - 1) * 1000000000 + 999999999"

definition duration_from_secs :: "u64 \<Rightarrow> duration" where
  "duration_from_secs s = unat s * 1000000000"

definition duration_from_millis :: "u64 \<Rightarrow> duration" where
  "duration_from_millis ms = unat ms * 1000000"

definition duration_checked_mul :: "duration \<Rightarrow> nat \<Rightarrow> duration option" where
  "duration_checked_mul d k = (if d * k \<le> DURATION_MAX then Some (d * k) else None)"

section \<open>Slices\<close>

text \<open>\<open>slice.chunks(n)\<close>; Rust panics on a chunk size of 0, which no caller passes.\<close>

function chunks :: "nat \<Rightarrow> 'a list \<Rightarrow> 'a list list" where
  "chunks n xs = (if xs = [] \<or> n = 0 then [] else take n xs # chunks n (drop n xs))"
  by pat_completeness auto
termination
  by (relation "measure (\<lambda>(n, xs). length xs)") auto

declare chunks.simps [simp del]

section \<open>Decimal printing\<close>

definition digit_char :: "nat \<Rightarrow> char" where
  "digit_char d = char_of (48 + d)"

fun show_nat :: "nat \<Rightarrow> string" where
  "show_nat n = (if n < 10 then [digit_char n] else show_nat (n div 10) @ [digit_char (n mod 10)])"

declare show_nat.simps [simp del]

definition show_int :: "int \<Rightarrow> string" where
  "show_int i = (if i < 0 then CHR ''-'' # show_nat (nat (- i)) else show_nat (nat i))"

text \<open>\<open>{:0width$}\<close>: zeros on the left up to the width, no truncation.\<close>

definition zero_pad :: "nat \<Rightarrow> string \<Rightarrow> string" where
  "zero_pad width s = replicate (width - length s) CHR ''0'' @ s"

fun join :: "string \<Rightarrow> string list \<Rightarrow> string" where
  "join sep [] = []"
| "join sep [x] = x"
| "join sep (x # y # ys) = x @ sep @ join sep (y # ys)"

text \<open>Reading decimals back, for the round-trip statements.\<close>

definition digit_val :: "char \<Rightarrow> nat option" where
  "digit_val c = (let n = (of_char c :: nat) in if 48 \<le> n \<and> n \<le> 57 then Some (n - 48) else None)"

fun parse_digits :: "nat \<Rightarrow> string \<Rightarrow> nat option" where
  "parse_digits acc [] = Some acc"
| "parse_digits acc (c # cs) =
     (case digit_val c of None \<Rightarrow> None | Some d \<Rightarrow> parse_digits (10 * acc + d) cs)"

definition parse_nat :: "string \<Rightarrow> nat option" where
  "parse_nat s = (if s = [] then None else parse_digits 0 s)"

definition parse_int :: "string \<Rightarrow> int option" where
  "parse_int s =
     (case s of
       [] \<Rightarrow> None
     | c # cs \<Rightarrow>
         if c = CHR ''-'' then map_option (\<lambda>n. - int n) (parse_nat cs)
         else map_option int (parse_nat s))"

section \<open>Ordered queries\<close>

text \<open>
  \<open>ORDER BY key ASC\<close> returns the rows of the table in some order that is ascending in the
  key; the order of rows with equal keys is the database's choice.
\<close>

locale asc_ordering =
  fixes key :: "'r \<Rightarrow> 'k::linorder"
    and order_rows :: "'r list \<Rightarrow> 'r list"
  assumes order_perm: "mset (order_rows rs) = mset rs"
    and order_sorted: "sorted (map key (order_rows rs))"
begin

lemma order_set: "set (order_rows rs) = set rs"
  by (metis order_perm set_mset_mset)

lemma order_length: "length (order_rows rs) = length rs"
  by (metis order_perm size_mset)

lemma order_distinct: "distinct (map f (order_rows rs)) = distinct (map f rs)"
proof -
  have "mset (map f (order_rows rs)) = mset (map f rs)"
    by (simp add: order_perm)
  then show ?thesis by (rule mset_eq_imp_distinct_iff)
qed

lemma order_Nil: "order_rows rs = [] \<longleftrightarrow> rs = []"
  by (metis order_length length_0_conv)

text \<open>\<open>LIMIT n\<close> keeps rows no row it leaves out precedes.\<close>

lemma limit_oldest:
  assumes "r \<in> set (take n (order_rows rs))" and "s \<in> set (drop n (order_rows rs))"
  shows "key r \<le> key s"
proof -
  have "sorted (map key (take n (order_rows rs)) @ map key (drop n (order_rows rs)))"
    by (metis append_take_drop_id map_append order_sorted)
  with assms show ?thesis by (auto simp: sorted_append)
qed

end

text \<open>A stable sort is one such order, on any key.\<close>

interpretation stable_order: asc_ordering key "sort_key key" for key :: "'r \<Rightarrow> 'k::linorder"
  by unfold_locales (auto simp: sorted_sort_key)

section \<open>Lemmas\<close>

lemma is_ok_simps [simp]: "is_ok (Ok v)" "\<not> is_ok (Err e)"
  by (simp_all add: is_ok_def)

lemma and_then_simps [simp]: "and_then (Ok v) f = f v" "and_then (Err e) f = Err e"
  by (simp_all add: and_then_def)

lemma map_err_simps [simp]: "map_err f (Ok v) = Ok v" "map_err f (Err e) = Err (f e)"
  by (simp_all add: map_err_def)

lemma context_err_simps [simp]:
  "context_err c (Ok v) = Ok v" "context_err c (Err e) = Err (Ctx c e)"
  by (simp_all add: context_err_def)

lemma ok_or_else_simps [simp]: "ok_or_else (Some v) e = Ok v" "ok_or_else None e = Err e"
  by (simp_all add: ok_or_else_def)

lemma try_then_simps [simp]: "try_then (Ok v, w) f = f v w" "try_then (Err e, w) f = (Err e, w)"
  by (simp_all add: try_then_def)

lemma and_then_Ok_iff [result_simps]: "and_then r f = Ok y \<longleftrightarrow> (\<exists>x. r = Ok x \<and> f x = Ok y)"
  by (cases r) auto

lemma map_err_Ok_iff [result_simps]: "map_err f r = Ok v \<longleftrightarrow> r = Ok v"
  by (cases r) auto

lemma context_err_Ok_iff [result_simps]: "context_err c r = Ok v \<longleftrightarrow> r = Ok v"
  by (cases r) auto

lemma ok_or_else_Ok_iff [result_simps]: "ok_or_else x e = Ok v \<longleftrightarrow> x = Some v"
  by (cases x) auto

lemma is_ok_iff [result_simps]: "is_ok r \<longleftrightarrow> (\<exists>v. r = Ok v)"
  by (cases r) auto

lemma collect_Ok_iff: "collect rs = Ok vs \<longleftrightarrow> rs = map Ok vs"
  by (induction rs arbitrary: vs) (auto simp: result_simps Cons_eq_map_conv)

lemma collect_map_Ok [simp]: "collect (map Ok vs) = Ok vs"
  by (simp add: collect_Ok_iff)

lemma collect_length: "collect rs = Ok vs \<Longrightarrow> length vs = length rs"
  by (auto simp: collect_Ok_iff)

lemma collect_is_ok: "is_ok (collect rs) \<longleftrightarrow> (\<forall>r \<in> set rs. is_ok r)"
  by (induction rs) (auto simp: is_ok_def and_then_def split: result.splits)

lemma chunks_Nil [simp]: "chunks n [] = []"
  by (simp add: chunks.simps)

lemma concat_chunks: "0 < n \<Longrightarrow> concat (chunks n xs) = xs"
proof (induction n xs rule: chunks.induct)
  case (1 n xs)
  then show ?case by (cases "xs = []") (simp_all add: chunks.simps [of n xs])
qed

lemma chunks_length: "c \<in> set (chunks n xs) \<Longrightarrow> length c \<le> n \<and> c \<noteq> []"
proof (induction n xs rule: chunks.induct)
  case (1 n xs)
  then show ?case by (auto simp: chunks.simps [of n xs] split: if_splits)
qed

lemma show_nat_nonempty [simp]: "show_nat n \<noteq> []"
  by (subst show_nat.simps) simp

lemma show_nat_small: "n < 10 \<Longrightarrow> show_nat n = [digit_char n]"
  by (subst show_nat.simps) simp

lemma show_nat_step: "10 \<le> n \<Longrightarrow> show_nat n = show_nat (n div 10) @ [digit_char (n mod 10)]"
  by (subst show_nat.simps) simp

lemma digit_val_char [simp]: "d < 10 \<Longrightarrow> digit_val (digit_char d) = Some d"
  by (simp add: digit_val_def digit_char_def)

lemma digit_char_not_minus: "d < 10 \<Longrightarrow> digit_char d \<noteq> CHR ''-''"
proof
  assume d: "d < 10" and "digit_char d = CHR ''-''"
  then have "digit_val CHR ''-'' = Some d" using digit_val_char [OF d] by simp
  then show False by (simp add: digit_val_def)
qed

lemma parse_digits_append:
  "parse_digits a (xs @ ys) =
     (case parse_digits a xs of None \<Rightarrow> None | Some b \<Rightarrow> parse_digits b ys)"
  by (induction xs arbitrary: a) (auto split: option.splits)

lemma parse_digits_show: "parse_digits 0 (show_nat n) = Some n"
proof (induction n rule: show_nat.induct)
  case (1 n)
  then show ?case
    by (cases "n < 10") (simp_all add: show_nat_small show_nat_step parse_digits_append)
qed

lemma parse_nat_show [simp]: "parse_nat (show_nat n) = Some n"
  by (simp add: parse_nat_def parse_digits_show)

lemma show_nat_digits: "c \<in> set (show_nat n) \<Longrightarrow> \<exists>d < 10. c = digit_char d"
proof (induction n rule: show_nat.induct)
  case (1 n)
  show ?case
  proof (cases "n < 10")
    case True
    with "1.prems" show ?thesis by (auto simp: show_nat_small)
  next
    case False
    with "1.prems" consider "c \<in> set (show_nat (n div 10))" | "c = digit_char (n mod 10)"
      by (auto simp: show_nat_step)
    then show ?thesis
    proof cases
      case 1
      then show ?thesis using "1.IH" False by simp
    next
      case 2
      then show ?thesis by (intro exI [of _ "n mod 10"]) simp
    qed
  qed
qed

lemma show_nat_length: "n < 10 ^ k \<Longrightarrow> 0 < k \<Longrightarrow> length (show_nat n) \<le> k"
proof (induction k arbitrary: n)
  case (Suc k)
  show ?case
  proof (cases "n < 10")
    case True
    then show ?thesis by (simp add: show_nat_small)
  next
    case False
    with Suc.prems have "n div 10 < 10 ^ k" and "0 < k"
      by (auto intro!: Nat.gr0I)
    with Suc.IH [of "n div 10"] False show ?thesis by (simp add: show_nat_step)
  qed
qed simp

lemma parse_int_show [simp]: "parse_int (show_int i) = Some i"
proof (cases "i < 0")
  case True
  then show ?thesis by (simp add: parse_int_def show_int_def)
next
  case False
  obtain c cs where s: "show_nat (nat i) = c # cs"
    by (cases "show_nat (nat i)") auto
  then have "c \<in> set (show_nat (nat i))" by simp
  then have "c \<noteq> CHR ''-''" using show_nat_digits digit_char_not_minus by metis
  moreover have "parse_nat (c # cs) = Some (nat i)" using parse_nat_show [of "nat i"] s by simp
  ultimately show ?thesis using False s by (simp add: parse_int_def show_int_def)
qed

lemma parse_digits_zeros: "parse_digits a (replicate k CHR ''0'' @ s) = parse_digits (a * 10 ^ k) s"
proof (induction k arbitrary: a)
  case (Suc k)
  have "digit_val CHR ''0'' = Some 0" by (simp add: digit_val_def)
  with Suc show ?case by (simp add: ac_simps)
qed simp

lemma zero_pad_length: "length s \<le> k \<Longrightarrow> length (zero_pad k s) = k"
  by (simp add: zero_pad_def)

lemma parse_digits_zero_pad: "parse_digits 0 (zero_pad k (show_nat n)) = Some n"
  by (simp add: zero_pad_def parse_digits_zeros parse_digits_show)

end
