(* ===== verification/Entity_Schema.thy ===== *)
theory Entity_Schema
  imports Prelude
begin

text \<open>
  The tables of SQL Server as the entities declare them (src/entity/weight_info.rs,
  src/entity/weight_photo.rs): one record field per column, in the order of the source, and
  the cells a \<open>SELECT\<close> of a row yields, as tiberius' \<open>ColumnData\<close>. The third entity is the row
  of the local cache, \<open>weighing_model\<close>.
\<close>

section \<open>Cells\<close>

type_synonym i16 = "16 word"
type_synonym i32 = "32 word"
type_synonym i64 = "64 word"
type_synonym i128 = "128 word"

text \<open>
  A decimal is an integer and the number of its fractional digits. The time types of the
  protocol are never inspected; each is its raw fields.
\<close>

record numeric =
  num_value :: i128
  num_scale :: u8

type_synonym decimal = numeric
type_synonym naive_datetime = int
type_synonym tds_time = "int list"

datatype column_data =
    U8 "u8 option"
  | I16 "i16 option"
  | I32 "i32 option"
  | I64 "i64 option"
  | F32 "f32 option"
  | F64 "f64 option"
  | Bit "bool option"
  | String "string option"
  | Guid "uuid option"
  | Binary "u8 list option"
  | Numeric "numeric option"
  | Xml "string option"
  | DateTime "tds_time option"
  | SmallDateTime "tds_time option"
  | Time "tds_time option"
  | Date "tds_time option"
  | DateTime2 "tds_time option"
  | DateTimeOffset "tds_time option"

datatype column_type = Decimaln | Numericn | Money | Money4 | Other_type string

text \<open>A row: name, type and value of each cell, in the order of the columns selected.\<close>

type_synonym tds_row = "(string \<times> column_type \<times> column_data) list"

section \<open>tbl_weightInfo\<close>

record weight_info =
  serial_no :: string
  sys_no :: "string option"
  set_id :: "string option"
  card_no :: "string option"
  plate_no :: "string option"
  weight_type :: "string option"
  transport_unit :: "string option"
  forwarding_unit :: "string option"
  consignee_unit :: "string option"
  goods_name :: "string option"
  goods_spec :: "string option"
  gross_weight :: "decimal option"
  tare_weight :: "decimal option"
  net_weight :: "decimal option"
  buckle_weight :: "decimal option"
  actual_weight :: "decimal option"
  weight_unit :: "string option"
  unit_price :: "decimal option"
  sum_amt :: "decimal option"
  scale_num :: "string option"
  square_num :: "string option"
  weighing_fee :: "decimal option"
  gross_station :: "string option"
  tare_station :: "string option"
  gross_man :: "string option"
  tare_man :: "string option"
  gross_time :: "naive_datetime option"
  tare_time :: "naive_datetime option"
  first_time :: "naive_datetime option"
  second_time :: "naive_datetime option"
  update_time :: "naive_datetime option"
  print_num :: "i32 option"
  is_cancle :: "i32 option"
  is_upload_local :: "i32 option"
  is_upload_cloud :: "i32 option"
  str_backup1 :: "string option"
  str_backup2 :: "string option"
  str_backup3 :: "string option"
  str_backup4 :: "string option"
  str_backup5 :: "string option"
  str_backup6 :: "string option"
  str_backup7 :: "string option"
  str_backup8 :: "string option"
  str_backup9 :: "string option"
  num_backup1 :: "decimal option"
  num_backup2 :: "decimal option"
  num_backup3 :: "decimal option"
  num_backup4 :: "decimal option"
  num_backup5 :: "decimal option"
  num_backup6 :: "decimal option"
  num_backup7 :: "decimal option"
  num_backup8 :: "decimal option"
  num_backup9 :: "decimal option"
  time_backup1 :: "naive_datetime option"
  time_backup2 :: "naive_datetime option"
  time_backup3 :: "naive_datetime option"
  f_guid :: "uuid option"
  f_id :: "i64 option"
  rel_no :: "string option"
  rel_ser :: "string option"
  reg_no :: "string option"
  data_type :: "string option"
  data_log :: "string option"
  is_finish :: "i32 option"
  remark :: "string option"
  del_flag :: "i32 option"

text \<open>The cell of a column of each declared type.\<close>

definition col_text :: "string \<Rightarrow> string option \<Rightarrow> string \<times> column_type \<times> column_data" where
  "col_text n v = (n, Other_type ''NVarchar'', String v)"

definition col_decimal :: "string \<Rightarrow> decimal option \<Rightarrow> string \<times> column_type \<times> column_data" where
  "col_decimal n v = (n, Decimaln, Numeric v)"

definition col_time :: "string \<Rightarrow> naive_datetime option \<Rightarrow> string \<times> column_type \<times> column_data" where
  "col_time n v = (n, Other_type ''Datetimen'', DateTime (map_option (\<lambda>t. [t]) v))"

definition col_i32 :: "string \<Rightarrow> i32 option \<Rightarrow> string \<times> column_type \<times> column_data" where
  "col_i32 n v = (n, Other_type ''Intn'', I32 v)"

definition col_i64 :: "string \<Rightarrow> i64 option \<Rightarrow> string \<times> column_type \<times> column_data" where
  "col_i64 n v = (n, Other_type ''Intn'', I64 v)"

definition col_guid :: "string \<Rightarrow> uuid option \<Rightarrow> string \<times> column_type \<times> column_data" where
  "col_guid n v = (n, Other_type ''Guid'', Guid v)"

definition weight_info_cells :: "weight_info \<Rightarrow> tds_row" where
  "weight_info_cells r =
     [col_text ''serialNo'' (Some (serial_no r)),
      col_text ''sysNo'' (sys_no r),
      col_text ''setId'' (set_id r),
      col_text ''cardNo'' (card_no r),
      col_text ''plateNo'' (plate_no r),
      col_text ''weightType'' (weight_type r),
      col_text ''transportUnit'' (transport_unit r),
      col_text ''forwardingUnit'' (forwarding_unit r),
      col_text ''consigneeUnit'' (consignee_unit r),
      col_text ''goodsName'' (goods_name r),
      col_text ''goodsSpec'' (goods_spec r),
      col_decimal ''grossWeight'' (gross_weight r),
      col_decimal ''tareWeight'' (tare_weight r),
      col_decimal ''netWeight'' (net_weight r),
      col_decimal ''buckleWeight'' (buckle_weight r),
      col_decimal ''actualWeight'' (actual_weight r),
      col_text ''weightUnit'' (weight_unit r),
      col_decimal ''unitPrice'' (unit_price r),
      col_decimal ''sumAmt'' (sum_amt r),
      col_text ''scaleNum'' (scale_num r),
      col_text ''squareNum'' (square_num r),
      col_decimal ''weighingFee'' (weighing_fee r),
      col_text ''grossStation'' (gross_station r),
      col_text ''tareStation'' (tare_station r),
      col_text ''grossMan'' (gross_man r),
      col_text ''tareMan'' (tare_man r),
      col_time ''grossTime'' (gross_time r),
      col_time ''tareTime'' (tare_time r),
      col_time ''firstTime'' (first_time r),
      col_time ''secondTime'' (second_time r),
      col_time ''updateTime'' (update_time r),
      col_i32 ''printNum'' (print_num r),
      col_i32 ''isCancle'' (is_cancle r),
      col_i32 ''isUploadLocal'' (is_upload_local r),
      col_i32 ''isUploadCloud'' (is_upload_cloud r),
      col_text ''strBackup1'' (str_backup1 r),
      col_text ''strBackup2'' (str_backup2 r),
      col_text ''strBackup3'' (str_backup3 r),
      col_text ''strBackup4'' (str_backup4 r),
      col_text ''strBackup5'' (str_backup5 r),
      col_text ''strBackup6'' (str_backup6 r),
      col_text ''strBackup7'' (str_backup7 r),
      col_text ''strBackup8'' (str_backup8 r),
      col_text ''strBackup9'' (str_backup9 r),
      col_decimal ''numBackup1'' (num_backup1 r),
      col_decimal ''numBackup2'' (num_backup2 r),
      col_decimal ''numBackup3'' (num_backup3 r),
      col_decimal ''numBackup4'' (num_backup4 r),
      col_decimal ''numBackup5'' (num_backup5 r),
      col_decimal ''numBackup6'' (num_backup6 r),
      col_decimal ''numBackup7'' (num_backup7 r),
      col_decimal ''numBackup8'' (num_backup8 r),
      col_decimal ''numBackup9'' (num_backup9 r),
      col_time ''timeBackup1'' (time_backup1 r),
      col_time ''timeBackup2'' (time_backup2 r),
      col_time ''timeBackup3'' (time_backup3 r),
      col_guid ''fGuid'' (f_guid r),
      col_i64 ''fID'' (f_id r),
      col_text ''relNo'' (rel_no r),
      col_text ''relSer'' (rel_ser r),
      col_text ''regNo'' (reg_no r),
      col_text ''dataType'' (data_type r),
      col_text ''dataLog'' (data_log r),
      col_i32 ''isFinish'' (is_finish r),
      col_text ''remark'' (remark r),
      col_i32 ''del_flag'' (del_flag r)]"

section \<open>tbl_weightPhoto\<close>

record weight_photo =
  photo_id :: i64
  photo_serial_no :: "string option"
  plate_number :: "string option"
  image_type :: "string option"
  capture_time :: "naive_datetime option"
  capture_image :: "u8 list option"
  client_id :: "string option"
  photo_consignee_unit :: "string option"
  photo_forwarding_unit :: "string option"
  photo_del_flag :: "i32 option"

section \<open>Lemmas\<close>

lemmas col_defs =
  col_text_def col_decimal_def col_time_def col_i32_def col_i64_def col_guid_def

end
