(* ===== verification/Json.thy ===== *)
theory Json
  imports Prelude
begin

text \<open>
  serde_json's \<open>Value\<close> as the sources use it: the constructors they match on, the accessors
  \<open>get\<close>, \<open>as_array\<close> and \<open>as_str\<close>, and \<open>Map::insert\<close>. Without the \<open>preserve_order\<close> feature
  a \<open>Map\<close> is a \<open>BTreeMap\<close>, here an association list kept ascending in its keys. Printing and
  parsing of JSON text are parameters where they occur.
\<close>

datatype json_number = JInt int | JFloat f64

datatype json =
    JNull
  | JBool bool
  | JNumber json_number
  | JString string
  | JArray "json list"
  | JObject "(string \<times> json) list"

type_synonym json_map = "(string \<times> json) list"

fun json_get :: "json \<Rightarrow> string \<Rightarrow> json option" where
  "json_get (JObject m) k = map_of m k"
| "json_get _ k = None"

fun as_array :: "json \<Rightarrow> json list option" where
  "as_array (JArray xs) = Some xs"
| "as_array _ = None"

fun as_str :: "json \<Rightarrow> string option" where
  "as_str (JString s) = Some s"
| "as_str _ = None"

fun map_insert :: "string \<Rightarrow> json \<Rightarrow> json_map \<Rightarrow> json_map" where
  "map_insert k v [] = [(k, v)]"
| "map_insert k v ((k', v') # m) =
     (if k = k' then (k, v) # m
      else if k < k' then (k, v) # (k', v') # m
      else (k', v') # map_insert k v m)"

definition map_new :: json_map where
  "map_new = []"

text \<open>\<open>json!({ ... })\<close> and the derived \<open>Serialize\<close> of a struct: one insertion per field.\<close>

definition json_object :: "(string \<times> json) list \<Rightarrow> json" where
  "json_object fields = JObject (fold (\<lambda>(k, v). map_insert k v) fields map_new)"

section \<open>Lemmas\<close>

lemma map_of_map_insert [simp]: "map_of (map_insert k v m) = (map_of m)(k \<mapsto> v)"
  by (induction m) (auto simp: fun_eq_iff)

lemma set_keys_map_insert: "fst ` set (map_insert k v m) = insert k (fst ` set m)"
  by (induction k v m rule: map_insert.induct) (simp_all add: insert_commute)

lemma map_insert_sorted:
  "sorted (map fst m) \<Longrightarrow> distinct (map fst m) \<Longrightarrow>
     sorted (map fst (map_insert k v m)) \<and> distinct (map fst (map_insert k v m))"
proof (induction m)
  case (Cons kv m)
  obtain k' v' where kv: "kv = (k', v')" by fastforce
  have keys: "set (map fst (map_insert k v m)) = insert k (set (map fst m))"
    using set_keys_map_insert [of k v m] by simp
  consider "k = k'" | "k < k'" | "k' < k" by fastforce
  then show ?case
  proof cases
    case 1
    with Cons.prems kv show ?thesis by simp
  next
    case 2
    with Cons.prems kv show ?thesis by fastforce
  next
    case 3
    then show ?thesis using Cons kv keys by auto
  qed
qed simp

lemma map_of_json_fields:
  "map_of (fold (\<lambda>(k, v). map_insert k v) fields m) = map_of m ++ map_of (rev fields)"
  by (induction fields arbitrary: m) (auto simp: fun_eq_iff map_add_def split: option.splits)

lemma json_get_object: "json_get (json_object fields) k = map_of (rev fields) k"
  by (simp add: json_object_def map_of_json_fields map_new_def)

end
