(* ===== verification/Floats.thy ===== *)
theory Floats
  imports Prelude
begin

unbundle bit_operations_syntax

text \<open>
  IEEE 754 doubles and singles as bit patterns: the predicates \<open>f64::is_finite\<close>, \<open>is_nan\<close>,
  the comparison \<open>x < 0.0\<close>, and the widening \<open>f64::from(f32)\<close>.
\<close>

definition f64_exponent :: "f64 \<Rightarrow> f64" where
  "f64_exponent x = drop_bit 52 x AND mask 11"

definition f64_mantissa :: "f64 \<Rightarrow> f64" where
  "f64_mantissa x = x AND mask 52"

definition is_finite :: "f64 \<Rightarrow> bool" where
  "is_finite x \<longleftrightarrow> f64_exponent x \<noteq> mask 11"

definition is_nan :: "f64 \<Rightarrow> bool" where
  "is_nan x \<longleftrightarrow> f64_exponent x = mask 11 \<and> f64_mantissa x \<noteq> 0"

text \<open>\<open>x < 0.0\<close>: false for NaN and for both zeros.\<close>

definition f64_lt_zero :: "f64 \<Rightarrow> bool" where
  "f64_lt_zero x \<longleftrightarrow> bit x 63 \<and> \<not> is_nan x \<and> (f64_exponent x \<noteq> 0 \<or> f64_mantissa x \<noteq> 0)"

definition f64_make :: "bool \<Rightarrow> f64 \<Rightarrow> f64 \<Rightarrow> f64" where
  "f64_make s e m = push_bit 63 (of_bool s) OR push_bit 52 (e AND mask 11) OR (m AND mask 52)"

definition f32_exponent :: "f32 \<Rightarrow> f32" where
  "f32_exponent x = drop_bit 23 x AND mask 8"

definition f32_mantissa :: "f32 \<Rightarrow> f32" where
  "f32_mantissa x = x AND mask 23"

text \<open>The position of the highest set bit below \<open>k\<close>.\<close>

fun top_bit :: "nat \<Rightarrow> f32 \<Rightarrow> nat" where
  "top_bit 0 x = 0"
| "top_bit (Suc k) x = (if bit x k then k else top_bit k x)"

text \<open>
  The widening is exact. A single with exponent field \<open>e\<close> keeps its mantissa at the top of
  the double's and moves its exponent from bias 127 to bias 1023; a subnormal \<open>m * 2 ^ -149\<close>
  is renormalised around its highest bit; infinities and NaNs keep an all-ones exponent.
\<close>

definition f64_of_f32 :: "f32 \<Rightarrow> f64" where
  "f64_of_f32 x =
     (let s = bit x 31; e = f32_exponent x; m = f32_mantissa x
      in if e = mask 8 then f64_make s (mask 11) (push_bit 29 (ucast m))
         else if e = 0 \<and> m = 0 then f64_make s 0 0
         else if e = 0
           then let k = top_bit 23 m in f64_make s (874 + of_nat k) (push_bit (52 - k) (ucast m))
         else f64_make s (ucast e + 896) (push_bit 29 (ucast m)))"

definition f32_is_finite :: "f32 \<Rightarrow> bool" where
  "f32_is_finite x \<longleftrightarrow> f32_exponent x \<noteq> mask 8"

section \<open>Lemmas\<close>

lemma f64_exponent_make: "f64_exponent (f64_make s e m) = e AND mask 11"
  by (rule bit_word_eqI)
    (auto simp: f64_exponent_def f64_make_def bit_simps split: if_splits)

lemma top_bit_less: "0 < k \<Longrightarrow> top_bit k x < k"
proof (induction k)
  case (Suc k)
  then show ?case by (cases k) auto
qed simp

lemma unat_and_mask: "unat (x AND mask n) = unat x mod 2 ^ n"
  for x :: "'a::len word"
  by (metis take_bit_eq_mask take_bit_eq_mod unsigned_take_bit_eq)

lemma f32_exponent_less: "unat (f32_exponent x) < 256"
  by (simp add: f32_exponent_def unat_and_mask)

lemma f64_make_finite:
  assumes "unat e < 2047"
  shows "is_finite (f64_make s e m)"
  unfolding is_finite_def
proof
  assume "f64_exponent (f64_make s e m) = mask 11"
  then have "unat (e AND mask 11) = unat (mask 11 :: f64)"
    by (simp add: f64_exponent_make)
  moreover have "unat (mask 11 :: f64) = 2047" by (simp add: mask_eq_exp_minus_1)
  ultimately have "unat e mod 2 ^ 11 = 2047" by (simp only: unat_and_mask)
  with assms show False by simp
qed

lemma f64_of_f32_finite: "is_finite (f64_of_f32 x) \<longleftrightarrow> f32_is_finite x"
proof -
  have norm: "is_finite (f64_make s (ucast (f32_exponent x) + 896) m)" for s m
  proof (rule f64_make_finite)
    show "unat (ucast (f32_exponent x) + 896 :: f64) < 2047"
      using f32_exponent_less [of x] by (simp add: unat_word_ariths unsigned_ucast_eq take_bit_eq_mod)
  qed
  have sub: "is_finite (f64_make s (874 + of_nat (top_bit 23 y)) m)" for s m y
  proof (rule f64_make_finite)
    have "top_bit 23 y < 23" by (rule top_bit_less) simp
    then show "unat (874 + of_nat (top_bit 23 y) :: f64) < 2047"
      by (simp add: unat_word_ariths unat_of_nat)
  qed
  have zero: "is_finite (f64_make s 0 0)" for s by (rule f64_make_finite) simp
  have top: "\<not> is_finite (f64_make s (mask 11) m)" for s m
    by (simp add: is_finite_def f64_exponent_make)
  show ?thesis
    by (simp add: f64_of_f32_def f32_is_finite_def norm sub zero top Let_def)
qed

end
