(* ===== verification/Sql_Rows.thy ===== *)
theory Sql_Rows
  imports Entity_Schema Json Floats Rust_Strings
begin

text \<open>
  The pure part of the SQL Server source (src/source/sqlserver.rs): identifiers and their
  quoting, the text of the two statements, and the conversion of a row to JSON.

  \<open>tds_lib\<close> is what the conversion calls in tiberius, chrono and rust_decimal: typed access
  to a cell by name and the printing of values. \<open>tds_laws\<close> states what it relies on.
\<close>

section \<open>Identifiers and statements\<close>

definition MARK_UPLOAD_CHUNK_SIZE :: nat where
  "MARK_UPLOAD_CHUNK_SIZE = 1000"

definition WEIGHT_INFO_COLUMNS :: "string list" where
  "WEIGHT_INFO_COLUMNS =
     [''serialNo'', ''sysNo'', ''setId'', ''cardNo'', ''plateNo'', ''weightType'',
      ''transportUnit'', ''forwardingUnit'', ''consigneeUnit'', ''goodsName'', ''goodsSpec'',
      ''grossWeight'', ''tareWeight'', ''netWeight'', ''buckleWeight'', ''actualWeight'',
      ''weightUnit'', ''unitPrice'', ''sumAmt'', ''scaleNum'', ''squareNum'', ''weighingFee'',
      ''grossStation'', ''tareStation'', ''grossMan'', ''tareMan'', ''grossTime'', ''tareTime'',
      ''firstTime'', ''secondTime'', ''updateTime'', ''printNum'', ''isCancle'',
      ''isUploadLocal'', ''isUploadCloud'', ''strBackup1'', ''strBackup2'', ''strBackup3'',
      ''strBackup4'', ''strBackup5'', ''strBackup6'', ''strBackup7'', ''strBackup8'',
      ''strBackup9'', ''numBackup1'', ''numBackup2'', ''numBackup3'', ''numBackup4'',
      ''numBackup5'', ''numBackup6'', ''numBackup7'', ''numBackup8'', ''numBackup9'',
      ''timeBackup1'', ''timeBackup2'', ''timeBackup3'', ''fGuid'', ''fID'', ''relNo'',
      ''relSer'', ''regNo'', ''dataType'', ''dataLog'', ''isFinish'', ''remark'', ''del_flag'']"

definition quoted_identifier :: "string \<Rightarrow> string" where
  "quoted_identifier s = ''['' @ replace_char CHR '']'' '']]'' s @ '']''"

definition validate_identifier :: "string \<Rightarrow> (unit, anyhow) result" where
  "validate_identifier s =
     (if s = [] \<or> \<not> list_all (\<lambda>c. is_ascii_alphanumeric c \<or> c = CHR ''_'' \<or> c = CHR ''.'') s
      then Err (Msg (''invalid SQL Server identifier: '' @ s))
      else Ok ())"

definition select_columns :: string where
  "select_columns = join '', '' (map quoted_identifier WEIGHT_INFO_COLUMNS)"

definition new_line :: string where
  "new_line = bytes [10] @ replicate 12 CHR '' ''"

definition fetch_sql :: "u32 \<Rightarrow> string \<Rightarrow> string" where
  "fetch_sql limit tbl =
     new_line @ ''SELECT TOP ('' @ show_nat (unat limit) @ '') '' @ select_columns @
     new_line @ ''FROM '' @ quoted_identifier tbl @
     new_line @ ''WHERE ISNULL([isUploadCloud], 0) = 0'' @
     new_line @ ''  AND ISNULL([del_flag], 0) = 0'' @
     new_line @ ''ORDER BY ISNULL([updateTime], ISNULL([secondTime], ISNULL([firstTime], [grossTime]))) ASC'' @
     new_line"

definition placeholders :: "nat \<Rightarrow> string" where
  "placeholders k = join '', '' (map (\<lambda>i. ''@P'' @ show_nat i) [1..<Suc k])"

definition mark_sql :: "string \<Rightarrow> nat \<Rightarrow> string" where
  "mark_sql tbl k =
     ''UPDATE '' @ quoted_identifier tbl @
     '' SET [isUploadCloud] = 1 WHERE [serialNo] IN ('' @ placeholders k @ '')''"

section \<open>Values\<close>

record tds_lib =
  try_get_str :: "tds_row \<Rightarrow> string \<Rightarrow> (string option, string) result"
  try_get_decimal :: "tds_row \<Rightarrow> string \<Rightarrow> (decimal option, string) result"
  try_get_datetime :: "tds_row \<Rightarrow> string \<Rightarrow> (naive_datetime option, string) result"
  decimal_to_string :: "decimal \<Rightarrow> string"
  format_naive :: "naive_datetime \<Rightarrow> string"
  guid_to_string :: "uuid \<Rightarrow> string"
  f64_to_string :: "f64 \<Rightarrow> string"
  debug_cell :: "column_data \<Rightarrow> string"

text \<open>
  \<open>format_numeric\<close>; \<open>None\<close> is arithmetic that leaves \<open>i128\<close>: \<open>abs\<close> of the least value, or a
  power of ten that does not fit.
\<close>

definition format_numeric :: "numeric \<Rightarrow> string option" where
  "format_numeric v =
     (let scale = unat (num_scale v);
          raw = sint (num_value v)
      in if scale = 0 then Some (show_int raw)
         else if raw = - (2 ^ 127) \<or> (10::nat) ^ scale \<ge> 2 ^ 127 then None
         else
           let negative = raw < 0;
               abs_raw = nat \<bar>raw\<bar>;
               factor = 10 ^ scale;
               integer = abs_raw div factor;
               fraction = abs_raw mod factor;
               sign = (if negative then ''-'' else [])
           in Some (sign @ show_nat integer @ ''.'' @ zero_pad scale (show_nat fraction)))"

definition arithmetic_panic :: anyhow where
  "arithmetic_panic = Msg ''panicked: arithmetic operation with overflow''"

fun is_null :: "column_data \<Rightarrow> bool" where
  "is_null (U8 x) = (x = None)"
| "is_null (I16 x) = (x = None)"
| "is_null (I32 x) = (x = None)"
| "is_null (I64 x) = (x = None)"
| "is_null (F32 x) = (x = None)"
| "is_null (F64 x) = (x = None)"
| "is_null (Bit x) = (x = None)"
| "is_null (String x) = (x = None)"
| "is_null (Guid x) = (x = None)"
| "is_null (Binary x) = (x = None)"
| "is_null (Numeric x) = (x = None)"
| "is_null (Xml x) = (x = None)"
| "is_null (DateTime x) = (x = None)"
| "is_null (SmallDateTime x) = (x = None)"
| "is_null (Time x) = (x = None)"
| "is_null (Date x) = (x = None)"
| "is_null (DateTime2 x) = (x = None)"
| "is_null (DateTimeOffset x) = (x = None)"

text \<open>\<open>Number::from_f64\<close> refuses infinities and NaN.\<close>

definition json_number_of :: "tds_lib \<Rightarrow> f64 \<Rightarrow> (json, anyhow) result" where
  "json_number_of lib x =
     (if is_finite x then Ok (JNumber (JFloat x))
      else Err (Msg (''invalid floating point value '' @ f64_to_string lib x)))"

definition get_string :: "tds_lib \<Rightarrow> tds_row \<Rightarrow> string \<Rightarrow> (string option, anyhow) result" where
  "get_string lib row c = map_err Msg (try_get_str lib row c)"

definition get_decimal :: "tds_lib \<Rightarrow> tds_row \<Rightarrow> string \<Rightarrow> (decimal option, anyhow) result" where
  "get_decimal lib row c = map_err Msg (try_get_decimal lib row c)"

definition format_datetime :: "tds_lib \<Rightarrow> tds_row \<Rightarrow> string \<Rightarrow> (string, anyhow) result" where
  "format_datetime lib row c =
     and_then (map_err Msg (try_get_datetime lib row c)) (\<lambda>v.
     and_then (ok_or_else v (Msg (''datetime column '' @ c @ '' is null''))) (\<lambda>t.
       Ok (format_naive lib t)))"

definition column_value_to_json ::
  "tds_lib \<Rightarrow> tds_row \<Rightarrow> string \<Rightarrow> column_type \<Rightarrow> column_data \<Rightarrow> (json, anyhow) result" where
  "column_value_to_json lib row column_name column_type value =
     (if is_null value then Ok JNull
      else case value of
        U8 (Some x) \<Rightarrow> Ok (JNumber (JInt (uint x)))
      | I16 (Some x) \<Rightarrow> Ok (JNumber (JInt (sint x)))
      | I32 (Some x) \<Rightarrow> Ok (JNumber (JInt (sint x)))
      | I64 (Some x) \<Rightarrow> Ok (JNumber (JInt (sint x)))
      | F32 (Some x) \<Rightarrow> json_number_of lib (f64_of_f32 x)
      | F64 (Some x) \<Rightarrow> json_number_of lib x
      | Bit (Some x) \<Rightarrow> Ok (JBool x)
      | String (Some x) \<Rightarrow> Ok (JString x)
      | Guid (Some x) \<Rightarrow> Ok (JString (guid_to_string lib x))
      | Numeric (Some x) \<Rightarrow>
          (case format_numeric x of Some s \<Rightarrow> Ok (JString s) | None \<Rightarrow> Err arithmetic_panic)
      | Xml (Some x) \<Rightarrow> Ok (JString x)
      | Binary (Some x) \<Rightarrow> Ok (JString (''<'' @ show_nat (length x) @ '' bytes>''))
      | DateTime (Some _) \<Rightarrow> and_then (format_datetime lib row column_name) (\<lambda>s. Ok (JString s))
      | SmallDateTime (Some _) \<Rightarrow>
          and_then (format_datetime lib row column_name) (\<lambda>s. Ok (JString s))
      | DateTime2 (Some _) \<Rightarrow> and_then (format_datetime lib row column_name) (\<lambda>s. Ok (JString s))
      | DateTimeOffset (Some _) \<Rightarrow>
          and_then (format_datetime lib row column_name) (\<lambda>s. Ok (JString s))
      | Date (Some _) \<Rightarrow> and_then (format_datetime lib row column_name) (\<lambda>s. Ok (JString s))
      | Time (Some _) \<Rightarrow> and_then (format_datetime lib row column_name) (\<lambda>s. Ok (JString s))
      | _ \<Rightarrow>
          (if column_type \<in> {Decimaln, Numericn, Money, Money4}
           then and_then (get_decimal lib row column_name) (\<lambda>v.
             Ok (case v of None \<Rightarrow> JNull | Some d \<Rightarrow> JString (decimal_to_string lib d)))
           else Ok (JString (debug_cell lib value))))"

section \<open>Rows\<close>

record sqlserver_weight_record =
  sw_serial_no :: string
  sw_data :: json_map

fun row_data ::
  "tds_lib \<Rightarrow> tds_row \<Rightarrow> tds_row \<Rightarrow> json_map \<Rightarrow> (json_map, anyhow) result" where
  "row_data lib row [] m = Ok m"
| "row_data lib row ((name, ty, v) # cells) m =
     and_then (column_value_to_json lib row name ty v) (\<lambda>j.
       row_data lib row cells (map_insert name j m))"

definition row_to_record :: "tds_lib \<Rightarrow> tds_row \<Rightarrow> (sqlserver_weight_record, anyhow) result" where
  "row_to_record lib row =
     and_then (get_string lib row ''serialNo'') (\<lambda>v.
     and_then (ok_or_else
         (case v of Some s \<Rightarrow> (if trim s \<noteq> [] then Some s else None) | None \<Rightarrow> None)
         (Msg ''tbl_weightInfo row missing serialNo'')) (\<lambda>serial.
     and_then (row_data lib row row map_new) (\<lambda>data.
       Ok \<lparr>sw_serial_no = serial, sw_data = data\<rparr>)))"

section \<open>Reading back what is written\<close>

text \<open>T-SQL's lexer for a delimited identifier: a doubled closing bracket stands for one.\<close>

fun lex_bracketed :: "string \<Rightarrow> (string \<times> string) option" where
  "lex_bracketed [] = None"
| "lex_bracketed [c] = (if c = CHR '']'' then Some ([], []) else None)"
| "lex_bracketed (c # d # s) =
     (if c \<noteq> CHR '']'' then map_option (\<lambda>(a, r). (c # a, r)) (lex_bracketed (d # s))
      else if d = CHR '']'' then map_option (\<lambda>(a, r). (c # a, r)) (lex_bracketed s)
      else Some ([], d # s))"

definition read_identifier :: "string \<Rightarrow> (string \<times> string) option" where
  "read_identifier s =
     (case s of c # t \<Rightarrow> (if c = CHR ''['' then lex_bracketed t else None) | [] \<Rightarrow> None)"

fun read_select_list :: "nat \<Rightarrow> string \<Rightarrow> string list option" where
  "read_select_list 0 s = None"
| "read_select_list (Suc k) s =
     (case read_identifier s of
        None \<Rightarrow> None
      | Some (c, rest) \<Rightarrow>
          if rest = [] then Some [c]
          else case strip_prefix '', '' rest of
            None \<Rightarrow> None
          | Some t \<Rightarrow> map_option ((#) c) (read_select_list k t))"

text \<open>A decimal: optional sign, integer part, and the fraction whose length is the scale.\<close>

definition parse_decimal :: "string \<Rightarrow> (int \<times> nat) option" where
  "parse_decimal s =
     (let (neg, u) = (case s of c # t \<Rightarrow> if c = CHR ''-'' then (True, t) else (False, s) | [] \<Rightarrow> (False, []));
          (i, f) = (case split_once CHR ''.'' u of Some p \<Rightarrow> p | None \<Rightarrow> (u, []))
      in case (parse_nat i, parse_digits 0 f) of
           (Some a, Some b) \<Rightarrow>
             let m = int (a * 10 ^ length f + b) in Some (if neg then - m else m, length f)
         | _ \<Rightarrow> None)"

definition numeric_ok :: "numeric \<Rightarrow> bool" where
  "numeric_ok d \<longleftrightarrow> unat (num_scale d) \<le> 38 \<and> sint (num_value d) \<noteq> - (2 ^ 127)"

section \<open>Lemmas\<close>

lemma lex_bracketed_quoted:
  assumes "rest = [] \<or> hd rest \<noteq> CHR '']''"
  shows "lex_bracketed (replace_char CHR '']'' '']]'' s @ '']'' @ rest) = Some (s, rest)"
proof (induction s)
  case Nil
  then show ?case using assms by (cases rest) auto
next
  case (Cons c s)
  show ?case
  proof (cases "c = CHR '']''")
    case True
    then show ?thesis using Cons by simp
  next
    case False
    obtain d t where dt: "replace_char CHR '']'' '']]'' s @ '']'' @ rest = d # t"
      by (cases "replace_char CHR '']'' '']]'' s @ '']'' @ rest") auto
    with Cons have "lex_bracketed (d # t) = Some (s, rest)" by simp
    with False dt show ?thesis by simp
  qed
qed

lemma read_identifier_quoted:
  "rest = [] \<or> hd rest \<noteq> CHR '']'' \<Longrightarrow> read_identifier (quoted_identifier s @ rest) = Some (s, rest)"
  using lex_bracketed_quoted [of rest s] by (simp add: read_identifier_def quoted_identifier_def)

lemma read_identifier_quoted_all [simp]: "read_identifier (quoted_identifier s) = Some (s, [])"
  using read_identifier_quoted [of "[]" s] by simp

lemma read_select_list_join:
  "cs \<noteq> [] \<Longrightarrow> length cs \<le> k \<Longrightarrow>
     read_select_list k (join '', '' (map quoted_identifier cs)) = Some cs"
proof (induction cs arbitrary: k)
  case (Cons c cs)
  then obtain k' where k: "k = Suc k'" by (cases k) auto
  show ?case
  proof (cases cs)
    case Nil
    then show ?thesis by (simp add: k)
  next
    case (Cons d ds)
    let ?rest = "join '', '' (map quoted_identifier cs)"
    have j: "join '', '' (map quoted_identifier (c # cs)) =
        quoted_identifier c @ '', '' @ ?rest" by (simp add: Cons)
    have "read_identifier (quoted_identifier c @ '', '' @ ?rest) = Some (c, '', '' @ ?rest)"
      by (rule read_identifier_quoted) simp
    moreover have "strip_prefix '', '' ('', '' @ ?rest) = Some ?rest"
      by (rule strip_prefix_append)
    moreover have "read_select_list k' ?rest = Some cs"
      using Cons.IH Cons.prems Cons k by simp
    ultimately show ?thesis unfolding j k by simp
  qed
qed simp

lemma digit_char_not_dot: "d < 10 \<Longrightarrow> digit_char d \<noteq> CHR ''.''"
proof
  assume d: "d < 10" and "digit_char d = CHR ''.''"
  then have "digit_val CHR ''.'' = Some d" using digit_val_char [OF d] by simp
  then show False by (simp add: digit_val_def)
qed

lemma show_nat_no_dot: "CHR ''.'' \<notin> set (show_nat n)"
  using show_nat_digits digit_char_not_dot by metis

lemma split_once_append: "c \<notin> set a \<Longrightarrow> split_once c (a @ c # b) = Some (a, b)"
  by (induction a) auto

lemma show_nat_sign: "\<exists>c t. show_nat n = c # t \<and> c \<noteq> CHR ''-''"
proof -
  obtain c t where s: "show_nat n = c # t" by (cases "show_nat n") auto
  then have "c \<in> set (show_nat n)" by simp
  then have "c \<noteq> CHR ''-''" using show_nat_digits digit_char_not_minus by metis
  with s show ?thesis by blast
qed

lemma parse_decimal_fraction:
  assumes "length f = k" and "parse_digits 0 f = Some b"
  shows "parse_decimal ((if neg then ''-'' else []) @ show_nat a @ ''.'' @ f) =
    Some (if neg then - int (a * 10 ^ k + b) else int (a * 10 ^ k + b), k)"
proof -
  have s: "split_once CHR ''.'' (show_nat a @ CHR ''.'' # f) = Some (show_nat a, f)"
    using show_nat_no_dot by (rule split_once_append)
  obtain c t where ct: "show_nat a = c # t" "c \<noteq> CHR ''-''" using show_nat_sign by blast
  have p: "parse_nat (c # t) = Some a" using parse_nat_show [of a] ct(1) by simp
  show ?thesis
    using s ct assms p by (cases neg) (simp_all add: parse_decimal_def Let_def)
qed

lemma parse_decimal_integer: "parse_decimal (show_int i) = Some (i, 0)"
proof -
  obtain c t where ct: "show_nat (nat \<bar>i\<bar>) = c # t" "c \<noteq> CHR ''-''" using show_nat_sign by blast
  have p: "parse_nat (c # t) = Some (nat \<bar>i\<bar>)" using parse_nat_show [of "nat \<bar>i\<bar>"] ct(1) by simp
  have s: "split_once CHR ''.'' (c # t) = None"
    unfolding split_once_None_iff using show_nat_no_dot [of "nat \<bar>i\<bar>"] ct(1) by simp
  show ?thesis
  proof (cases "i < 0")
    case True
    then have "show_int i = CHR ''-'' # c # t" using ct by (simp add: show_int_def)
    with True p s show ?thesis by (simp add: parse_decimal_def)
  next
    case False
    then have "show_int i = c # t" using ct by (simp add: show_int_def)
    with False p s ct(2) show ?thesis by (simp add: parse_decimal_def)
  qed
qed

lemma format_numeric_exact:
  assumes "format_numeric v = Some s"
  shows "parse_decimal s = Some (sint (num_value v), unat (num_scale v))"
proof (cases "unat (num_scale v) = 0")
  case True
  with assms show ?thesis by (auto simp: format_numeric_def parse_decimal_integer)
next
  case False
  let ?k = "unat (num_scale v)" and ?raw = "sint (num_value v)"
  let ?i = "nat \<bar>?raw\<bar> div 10 ^ ?k" and ?f = "zero_pad ?k (show_nat (nat \<bar>?raw\<bar> mod 10 ^ ?k))"
  have s: "s = (if ?raw < 0 then ''-'' else []) @ show_nat ?i @ ''.'' @ ?f"
    using assms False by (auto simp: format_numeric_def Let_def split: if_splits)
  have len: "length ?f = ?k" using False by (intro zero_pad_length show_nat_length) simp_all
  have m: "?i * 10 ^ ?k + nat \<bar>?raw\<bar> mod 10 ^ ?k = nat \<bar>?raw\<bar>"
    by (rule div_mult_mod_eq)
  have "parse_decimal s = Some (if ?raw < 0 then - int (nat \<bar>?raw\<bar>) else int (nat \<bar>?raw\<bar>), ?k)"
    unfolding s parse_decimal_fraction [OF len parse_digits_zero_pad] m ..
  then show ?thesis by simp
qed

lemma format_numeric_total:
  assumes "numeric_ok v"
  shows "\<exists>s. format_numeric v = Some s"
proof -
  have "(10::nat) ^ unat (num_scale v) \<le> 10 ^ 38"
    using assms by (intro power_increasing) (simp_all add: numeric_ok_def)
  also have "\<dots> < 2 ^ 127" by simp
  finally show ?thesis using assms by (simp add: format_numeric_def numeric_ok_def Let_def)
qed

text \<open>The branch on the column type is never taken: every non-null value has its own arm.\<close>

lemma column_value_type_irrelevant:
  "column_value_to_json lib row n ty v = column_value_to_json lib row n ty' v"
  by (cases v) (auto simp: column_value_to_json_def split: option.splits)

lemma row_data_is_ok:
  "is_ok (row_data lib row cells m) \<longleftrightarrow>
     (\<forall>(n, ty, v) \<in> set cells. is_ok (column_value_to_json lib row n ty v))"
proof (induction cells arbitrary: m)
  case (Cons cell cells)
  obtain n ty v where c: "cell = (n, ty, v)" by (cases cell) auto
  show ?case using Cons by (cases "column_value_to_json lib row n ty v") (auto simp: c)
qed simp

lemma row_data_keys:
  "row_data lib row cells m = Ok m' \<Longrightarrow> fst ` set m' = fst ` set m \<union> fst ` set cells"
proof (induction cells arbitrary: m)
  case (Cons cell cells)
  obtain n ty v where c: "cell = (n, ty, v)" by (cases cell) auto
  with Cons.prems obtain j where "row_data lib row cells (map_insert n j m) = Ok m'"
    by (auto simp: and_then_Ok_iff)
  from Cons.IH [OF this] show ?case by (auto simp: c set_keys_map_insert)
qed simp

lemma row_data_values:
  assumes "row_data lib row cells m = Ok m'" and "distinct (map fst cells)"
  shows "n \<notin> fst ` set cells \<Longrightarrow> map_of m' n = map_of m n"
    and "(n, ty, v) \<in> set cells \<Longrightarrow>
      \<exists>j. column_value_to_json lib row n ty v = Ok j \<and> map_of m' n = Some j"
proof -
  have "(n \<notin> fst ` set cells \<longrightarrow> map_of m' n = map_of m n) \<and>
      ((n, ty, v) \<in> set cells \<longrightarrow>
        (\<exists>j. column_value_to_json lib row n ty v = Ok j \<and> map_of m' n = Some j))"
    using assms
  proof (induction cells arbitrary: m)
    case (Cons cell cells)
    obtain k t x where c: "cell = (k, t, x)" by (cases cell) auto
    with Cons.prems obtain j where j: "column_value_to_json lib row k t x = Ok j"
      "row_data lib row cells (map_insert k j m) = Ok m'"
      by (auto simp: and_then_Ok_iff)
    have d: "distinct (map fst cells)" "k \<notin> fst ` set cells" using Cons.prems(2) c by simp_all
    show ?case
      using Cons.IH [OF j(2) d(1)] j(1) d(2) by (auto simp: c rev_image_eqI)
  qed simp
  then show "n \<notin> fst ` set cells \<Longrightarrow> map_of m' n = map_of m n"
    and "(n, ty, v) \<in> set cells \<Longrightarrow>
      \<exists>j. column_value_to_json lib row n ty v = Ok j \<and> map_of m' n = Some j"
    by blast+
qed

lemma weight_info_columns: "map fst (weight_info_cells r) = WEIGHT_INFO_COLUMNS"
  by (simp add: weight_info_cells_def WEIGHT_INFO_COLUMNS_def col_defs)

lemma columns_distinct: "distinct WEIGHT_INFO_COLUMNS"
  by code_simp

lemma columns_length: "length WEIGHT_INFO_COLUMNS = 66"
  by (simp add: WEIGHT_INFO_COLUMNS_def)

lemma weight_info_cells_distinct: "distinct (map fst (weight_info_cells r))"
  using columns_distinct by (simp add: weight_info_columns)

section \<open>What the conversion relies on\<close>

locale tds_laws =
  fixes lib :: tds_lib
  assumes get_str: "distinct (map fst row) \<Longrightarrow> (n, ty, String v) \<in> set row \<Longrightarrow>
      try_get_str lib row n = Ok v"
    and get_datetime: "distinct (map fst row) \<Longrightarrow> (n, ty, DateTime (Some [t])) \<in> set row \<Longrightarrow>
      try_get_datetime lib row n = Ok (Some t)"

text \<open>The rows of the table that convert: a serial number, and decimals in range.\<close>

definition cell_in_range :: "column_data \<Rightarrow> bool" where
  "cell_in_range v = (case v of Numeric (Some d) \<Rightarrow> numeric_ok d | _ \<Rightarrow> True)"

definition weight_info_ok :: "weight_info \<Rightarrow> bool" where
  "weight_info_ok r \<longleftrightarrow>
     trim (serial_no r) \<noteq> [] \<and> list_all (\<lambda>(_, _, v). cell_in_range v) (weight_info_cells r)"

text \<open>The kinds of cells the entity's columns have.\<close>

definition entity_cell :: "column_data \<Rightarrow> bool" where
  "entity_cell v =
     (case v of
        String _ \<Rightarrow> True | Numeric _ \<Rightarrow> True | I32 _ \<Rightarrow> True | I64 _ \<Rightarrow> True | Guid _ \<Rightarrow> True
      | DateTime None \<Rightarrow> True | DateTime (Some ts) \<Rightarrow> length ts = 1 | _ \<Rightarrow> False)"

lemma entity_cell_col:
  "entity_cell (String s)" "entity_cell (Numeric d)" "entity_cell (I32 i)" "entity_cell (I64 l)"
  "entity_cell (Guid g)" "entity_cell (DateTime (map_option (\<lambda>t. [t]) x))"
  by (simp_all add: entity_cell_def split: option.splits)

lemma weight_info_entity_cells: "list_all (\<lambda>(_, _, v). entity_cell v) (weight_info_cells r)"
  by (simp add: weight_info_cells_def col_defs entity_cell_col)

context tds_laws
begin

lemma entity_cell_converts:
  assumes "distinct (map fst row)" and "(n, ty, v) \<in> set row" and "entity_cell v"
    and "cell_in_range v"
  shows "is_ok (column_value_to_json lib row n ty v)"
proof (cases v)
  case (DateTime ts)
  show ?thesis
  proof (cases ts)
    case None
    with DateTime show ?thesis by (simp add: column_value_to_json_def)
  next
    case (Some l)
    then obtain t where "l = [t]"
      using assms(3) DateTime by (auto simp: entity_cell_def length_Suc_conv)
    then have "try_get_datetime lib row n = Ok (Some t)"
      using get_datetime [OF assms(1)] assms(2) DateTime Some by simp
    with DateTime Some show ?thesis by (simp add: column_value_to_json_def format_datetime_def)
  qed
next
  case (Numeric d)
  then show ?thesis
    using assms(4) format_numeric_total
    by (cases d) (auto simp: column_value_to_json_def cell_in_range_def split: option.splits)
qed (use assms(3) in \<open>auto simp: entity_cell_def column_value_to_json_def split: option.splits\<close>)

lemma row_to_record_eq:
  "row_to_record lib (weight_info_cells r) =
     (if trim (serial_no r) = [] then Err (Msg ''tbl_weightInfo row missing serialNo'')
      else and_then (row_data lib (weight_info_cells r) (weight_info_cells r) map_new) (\<lambda>data.
        Ok \<lparr>sw_serial_no = serial_no r, sw_data = data\<rparr>))"
proof -
  have "(''serialNo'', Other_type ''NVarchar'', String (Some (serial_no r))) \<in> set (weight_info_cells r)"
    by (simp add: weight_info_cells_def col_text_def)
  then have g: "get_string lib (weight_info_cells r) ''serialNo'' = Ok (Some (serial_no r))"
    using get_str [OF weight_info_cells_distinct] by (simp add: get_string_def)
  show ?thesis unfolding row_to_record_def g by simp
qed

lemma weight_info_converts:
  assumes "weight_info_ok r"
  shows "\<exists>data. row_to_record lib (weight_info_cells r) =
      Ok \<lparr>sw_serial_no = serial_no r, sw_data = data\<rparr> \<and>
    row_data lib (weight_info_cells r) (weight_info_cells r) map_new = Ok data"
proof -
  let ?row = "weight_info_cells r"
  have "is_ok (row_data lib ?row ?row map_new)"
    unfolding row_data_is_ok
    using entity_cell_converts [OF weight_info_cells_distinct] weight_info_entity_cells [of r] assms
    by (fastforce simp: weight_info_ok_def list_all_iff)
  then obtain data where d: "row_data lib ?row ?row map_new = Ok data" by (auto simp: is_ok_iff)
  then show ?thesis using assms by (simp add: row_to_record_eq weight_info_ok_def)
qed

text \<open>A row whose serial number is blank does not convert.\<close>

lemma weight_info_blank:
  "trim (serial_no r) = [] \<Longrightarrow>
     row_to_record lib (weight_info_cells r) = Err (Msg ''tbl_weightInfo row missing serialNo'')"
  by (simp add: row_to_record_eq)

end

text \<open>Access by name, for the witnesses.\<close>

definition by_name_lib :: tds_lib where
  "by_name_lib =
     \<lparr>try_get_str = (\<lambda>row n. case map_of row n of
         Some (_, String v) \<Rightarrow> Ok v | _ \<Rightarrow> Err ''cannot read as a string''),
      try_get_decimal = (\<lambda>row n. case map_of row n of
         Some (_, Numeric v) \<Rightarrow> Ok v | _ \<Rightarrow> Err ''cannot read as a decimal''),
      try_get_datetime = (\<lambda>row n. case map_of row n of
         Some (_, DateTime v) \<Rightarrow> Ok (map_option hd v) | _ \<Rightarrow> Err ''cannot read as a time''),
      decimal_to_string = (\<lambda>d. case format_numeric d of Some s \<Rightarrow> s | None \<Rightarrow> []),
      format_naive = show_int, guid_to_string = (\<lambda>u. show_nat (unat u)),
      f64_to_string = (\<lambda>x. show_nat (unat x)), debug_cell = (\<lambda>_. [])\<rparr>"

interpretation by_name: tds_laws by_name_lib
  by unfold_locales (simp_all add: by_name_lib_def)

section \<open>Properties\<close>

definition demo_weight :: "string \<Rightarrow> decimal option \<Rightarrow> i32 option \<Rightarrow> naive_datetime option \<Rightarrow> weight_info"
where
  "demo_weight serial net uploaded t =
     \<lparr>serial_no = serial, sys_no = None, set_id = None, card_no = None, plate_no = None,
      weight_type = None, transport_unit = None, forwarding_unit = None,
      consignee_unit = None, goods_name = None, goods_spec = None, gross_weight = None,
      tare_weight = None, net_weight = net, buckle_weight = None, actual_weight = None,
      weight_unit = None, unit_price = None, sum_amt = None, scale_num = None,
      square_num = None, weighing_fee = None, gross_station = None, tare_station = None,
      gross_man = None, tare_man = None, gross_time = None, tare_time = None,
      first_time = None, second_time = None, update_time = t, print_num = None,
      is_cancle = None, is_upload_local = None, is_upload_cloud = uploaded,
      str_backup1 = None, str_backup2 = None, str_backup3 = None, str_backup4 = None,
      str_backup5 = None, str_backup6 = None, str_backup7 = None, str_backup8 = None,
      str_backup9 = None, num_backup1 = None, num_backup2 = None, num_backup3 = None,
      num_backup4 = None, num_backup5 = None, num_backup6 = None, num_backup7 = None,
      num_backup8 = None, num_backup9 = None, time_backup1 = None, time_backup2 = None,
      time_backup3 = None, f_guid = None, f_id = None, rel_no = None, rel_ser = None,
      reg_no = None, data_type = None, data_log = None, is_finish = None, remark = None,
      del_flag = None\<rparr>"

text \<open>
  C31: a quoted identifier is read back as itself. Whatever characters the name holds, T-SQL's
  lexer reads the text \<open>quoted_identifier\<close> writes as exactly that name and goes on with what
  follows, in particular in the \<open>UPDATE\<close> statement, so no configured table name can change
  the statement.
\<close>

theorem quoted_identifier_reads_back:
  assumes "rest = [] \<or> hd rest \<noteq> CHR '']''"
  shows "read_identifier (quoted_identifier s @ rest) = Some (s, rest) \<and>
    Option.bind (strip_prefix ''UPDATE '' (mark_sql s k)) read_identifier =
      Some (s, '' SET [isUploadCloud] = 1 WHERE [serialNo] IN ('' @ placeholders k @ '')'')"
proof
  show "read_identifier (quoted_identifier s @ rest) = Some (s, rest)"
    using assms by (rule read_identifier_quoted)
  let ?t = "'' SET [isUploadCloud] = 1 WHERE [serialNo] IN ('' @ placeholders k @ '')''"
  have "strip_prefix ''UPDATE '' (mark_sql s k) = Some (quoted_identifier s @ ?t)"
    unfolding mark_sql_def by (rule strip_prefix_append)
  moreover have "read_identifier (quoted_identifier s @ ?t) = Some (s, ?t)"
    by (rule read_identifier_quoted) simp
  ultimately show "Option.bind (strip_prefix ''UPDATE '' (mark_sql s k)) read_identifier = Some (s, ?t)"
    by simp
qed

theorem quoted_identifier_reads_back_witness:
  "read_identifier (quoted_identifier ''a]; DROP TABLE b'' @ '' SET'') =
     Some (''a]; DROP TABLE b'', '' SET'')"
  using quoted_identifier_reads_back [of "'' SET''" "''a]; DROP TABLE b''"] by simp

text \<open>
  C32: the query selects the entity's columns. The select list reads back as the 66 column names
  of the \<open>tbl_weightInfo\<close> entity, each once and in the entity's order.
\<close>

theorem select_columns_match_entity:
  "read_select_list 66 select_columns = Some (map fst (weight_info_cells r)) \<and>
   length (weight_info_cells r) = 66 \<and> distinct (map fst (weight_info_cells r))"
proof -
  have "WEIGHT_INFO_COLUMNS \<noteq> []" using columns_length by auto
  then have "read_select_list 66 select_columns = Some WEIGHT_INFO_COLUMNS"
    unfolding select_columns_def by (intro read_select_list_join) (simp_all add: columns_length)
  moreover have "length (weight_info_cells r) = 66"
    using columns_length weight_info_columns by (metis length_map)
  ultimately show ?thesis by (simp add: weight_info_columns columns_distinct)
qed

text \<open>
  C30: decimals lose nothing. A value within the protocol's range (at most 38 fractional digits,
  not the least 128-bit integer) is printed without overflow, and the text denotes exactly
  the value, sign and number of fractional digits included.
\<close>

theorem format_numeric_lossless:
  assumes "numeric_ok v"
  shows "\<exists>s. format_numeric v = Some s \<and>
    parse_decimal s = Some (sint (num_value v), unat (num_scale v))"
  using format_numeric_total [OF assms] format_numeric_exact by blast

theorem format_numeric_lossless_witness:
  "\<exists>s. format_numeric \<lparr>num_value = - 5, num_scale = 3\<rparr> = Some s \<and> parse_decimal s = Some (- 5, 3)"
proof -
  have "sint (- 5 :: 128 word) = - 5" by simp
  moreover have "unat (3 :: 8 word) = 3" by simp
  ultimately show ?thesis
    using format_numeric_lossless [of "\<lparr>num_value = - 5, num_scale = 3\<rparr>"]
    by (simp add: numeric_ok_def)
qed

text \<open>What the JSON object of a row holds.\<close>

definition row_json_complete :: "weight_info \<Rightarrow> json_map \<Rightarrow> bool" where
  "row_json_complete r data \<longleftrightarrow>
     fst ` set data = set WEIGHT_INFO_COLUMNS \<and>
     map_of data ''serialNo'' = Some (JString (serial_no r)) \<and>
     map_of data ''isUploadCloud'' =
       Some (case is_upload_cloud r of Some x \<Rightarrow> JNumber (JInt (sint x)) | None \<Rightarrow> JNull) \<and>
     (\<forall>n ty d. (n, ty, Numeric (Some d)) \<in> set (weight_info_cells r) \<longrightarrow>
       (\<exists>s. map_of data n = Some (JString s) \<and>
         parse_decimal s = Some (sint (num_value d), unat (num_scale d))))"

lemma row_data_complete:
  assumes d: "row_data lib (weight_info_cells r) (weight_info_cells r) map_new = Ok data"
  shows "row_json_complete r data"
proof -
  let ?row = "weight_info_cells r"
  note val = row_data_values(2) [OF d weight_info_cells_distinct]
  have k: "fst ` set data = set WEIGHT_INFO_COLUMNS"
    using row_data_keys [OF d] weight_info_columns [of r] by (simp add: map_new_def flip: set_map)
  have "(''serialNo'', Other_type ''NVarchar'', String (Some (serial_no r))) \<in> set ?row"
    "(''isUploadCloud'', Other_type ''Intn'', I32 (is_upload_cloud r)) \<in> set ?row"
    by (simp_all add: weight_info_cells_def col_defs)
  from this [THEN val] have sn: "map_of data ''serialNo'' = Some (JString (serial_no r))"
    and up: "map_of data ''isUploadCloud'' =
      Some (case is_upload_cloud r of Some x \<Rightarrow> JNumber (JInt (sint x)) | None \<Rightarrow> JNull)"
    by (auto simp: column_value_to_json_def split: option.splits)
  have num: "\<exists>s. map_of data n = Some (JString s) \<and>
      parse_decimal s = Some (sint (num_value d), unat (num_scale d))"
    if "(n, ty, Numeric (Some d)) \<in> set ?row" for n ty d
    using val [OF that] format_numeric_exact [of d]
    by (auto simp: column_value_to_json_def split: option.splits)
  show ?thesis unfolding row_json_complete_def using k sn up num by blast
qed

context tds_laws
begin

lemma row_to_record_Ok:
  assumes "row_to_record lib (weight_info_cells r) = Ok rec"
  shows "sw_serial_no rec = serial_no r" and "row_json_complete r (sw_data rec)"
proof -
  obtain data where d: "row_data lib (weight_info_cells r) (weight_info_cells r) map_new = Ok data"
    and rec: "rec = \<lparr>sw_serial_no = serial_no r, sw_data = data\<rparr>"
    using assms unfolding row_to_record_eq by (auto simp: and_then_Ok_iff split: if_splits)
  show "sw_serial_no rec = serial_no r" and "row_json_complete r (sw_data rec)"
    using rec row_data_complete [OF d] by simp_all
qed

end

text \<open>
  C29: a row becomes a complete JSON object. A row of the table with a serial number that is not
  blank and decimals in range converts; the object has exactly the 66 columns as keys, its
  \<open>serialNo\<close> is the record's serial number, the upload flag is its value, and every decimal
  column is a string that denotes exactly the column's value. A row with a blank serial
  number is refused.
\<close>

theorem weight_info_row_to_json:
  assumes "tds_laws lib"
  shows "(weight_info_ok r \<longrightarrow> (\<exists>data.
      row_to_record lib (weight_info_cells r) = Ok \<lparr>sw_serial_no = serial_no r, sw_data = data\<rparr> \<and>
      row_json_complete r data)) \<and>
    (trim (serial_no r) = [] \<longrightarrow> \<not> is_ok (row_to_record lib (weight_info_cells r)))"
  using tds_laws.weight_info_blank [OF assms, of r] tds_laws.weight_info_converts [OF assms, of r]
    row_data_complete by fastforce

lemma demo_weight_ok: "weight_info_ok (demo_weight ''S1'' (Some \<lparr>num_value = 1234, num_scale = 2\<rparr>) None t)"
proof -
  have "trim ''S1'' \<noteq> []" by code_simp
  moreover have "numeric_ok \<lparr>num_value = 1234, num_scale = 2\<rparr>" by (simp add: numeric_ok_def)
  ultimately show ?thesis
    by (simp add: weight_info_ok_def demo_weight_def weight_info_cells_def col_defs cell_in_range_def)
qed

theorem weight_info_row_to_json_witness:
  "\<exists>data. row_to_record by_name_lib
      (weight_info_cells (demo_weight ''S1'' (Some \<lparr>num_value = 1234, num_scale = 2\<rparr>) None (Some 7))) =
        Ok \<lparr>sw_serial_no = ''S1'', sw_data = data\<rparr> \<and>
     row_json_complete
       (demo_weight ''S1'' (Some \<lparr>num_value = 1234, num_scale = 2\<rparr>) None (Some 7)) data"
proof -
  have "serial_no (demo_weight ''S1'' net up t) = ''S1''" for net up t by (simp add: demo_weight_def)
  then show ?thesis
    using weight_info_row_to_json [OF by_name.tds_laws_axioms] demo_weight_ok by metis
qed

text \<open>
  A table name with a schema is quoted as one name. \<open>validate_identifier\<close> accepts
  \<open>dbo.tbl_weightInfo\<close>, but the statements then name a table called \<open>dbo.tbl_weightInfo\<close> and
  not the table \<open>tbl_weightInfo\<close> of the schema \<open>dbo\<close>.
\<close>

theorem dotted_table_is_one_identifier:
  "validate_identifier ''dbo.tbl_weightInfo'' = Ok () \<and>
   read_identifier (quoted_identifier ''dbo.tbl_weightInfo'') = Some (''dbo.tbl_weightInfo'', [])"
proof
  show "validate_identifier ''dbo.tbl_weightInfo'' = Ok ()" by code_simp
  show "read_identifier (quoted_identifier ''dbo.tbl_weightInfo'') = Some (''dbo.tbl_weightInfo'', [])"
    by simp
qed

end
