(* ===== verification/Config.thy ===== *)
theory Config
  imports Rust_Strings
begin

text \<open>
  The configuration (src/config.rs): the five sections as records, the serde defaults of
  every field, \<open>Default\<close> for the two sections that may be absent, \<open>AppConfig::load\<close> over the
  layered sources, the duration accessors and the SQL Server credential guard with its two
  encryption predicates.

  The \<open>config\<close> crate reads the TOML file and the \<open>WDS__*\<close> variables; it is the parameter
  \<open>build\<close> of \<open>load\<close>, and what it yields is a raw section: one optional typed value per key.
\<close>

section \<open>Sections\<close>

record api_config =
  endpoint :: string
  api_api_key :: "string option"
  timeout_seconds :: u64

record database_config =
  url :: string
  max_connections :: u32

record server_config =
  enabled :: bool
  bind :: string
  route :: string
  max_body_bytes :: usize
  server_api_key :: "string option"
  persist :: bool

record sync_config =
  sync_source :: string
  batch_size :: u32
  cron :: string
  sync_on_start :: bool
  retry_initial_delay_ms :: u64
  retry_max_delay_ms :: u64
  retry_max_elapsed_seconds :: u64

record sqlserver_config =
  host :: string
  port :: u16
  database :: string
  username :: string
  password :: string
  table_ident :: string
  trust_cert :: bool
  encryption :: string
  mark_uploaded_flag :: bool

record app_config =
  api :: api_config
  database_section :: database_config
  server :: server_config
  sqlserver :: sqlserver_config
  sync :: sync_config

section \<open>Defaults\<close>

definition PLACEHOLDER_HOST :: string where
  "PLACEHOLDER_HOST = ''your-sqlserver-host''"

definition PLACEHOLDER_PASSWORD :: string where
  "PLACEHOLDER_PASSWORD = ''CHANGE_ME_VIA_ENV''"

definition default_database_url :: string where
  "default_database_url = ''sqlite://data/weighing_sync.db''"

definition default_server_bind :: string where
  "default_server_bind = ''0.0.0.0:8080''"

definition default_server_route :: string where
  "default_server_route = ''/weighing-data-sync/put''"

definition default_server_max_body_bytes :: usize where
  "default_server_max_body_bytes = 16 * 1024 * 1024"

definition default_sync_source :: string where
  "default_sync_source = ''sqlserver''"

definition default_batch_size :: u32 where
  "default_batch_size = 100"

definition default_cron :: string where
  "default_cron = ''0 */5 * * * *''"

definition default_max_connections :: u32 where
  "default_max_connections = 5"

definition default_retry_initial_delay_ms :: u64 where
  "default_retry_initial_delay_ms = 1000"

definition default_retry_max_delay_ms :: u64 where
  "default_retry_max_delay_ms = 60000"

definition default_retry_max_elapsed_seconds :: u64 where
  "default_retry_max_elapsed_seconds = 300"

definition default_timeout_seconds :: u64 where
  "default_timeout_seconds = 30"

definition default_true :: bool where
  "default_true = True"

definition default_sqlserver_host :: string where
  "default_sqlserver_host = PLACEHOLDER_HOST"

definition default_sqlserver_port :: u16 where
  "default_sqlserver_port = 1433"

definition default_sqlserver_database :: string where
  "default_sqlserver_database = ''yunfu''"

definition default_sqlserver_username :: string where
  "default_sqlserver_username = ''sa''"

definition default_sqlserver_password :: string where
  "default_sqlserver_password = ''''"

definition default_sqlserver_table :: string where
  "default_sqlserver_table = ''tbl_weightInfo''"

definition default_sqlserver_encryption :: string where
  "default_sqlserver_encryption = ''off''"

definition server_config_default :: server_config where
  "server_config_default =
     \<lparr>enabled = False, bind = default_server_bind, route = default_server_route,
      max_body_bytes = default_server_max_body_bytes, server_api_key = None, persist = False\<rparr>"

definition sqlserver_config_default :: sqlserver_config where
  "sqlserver_config_default =
     \<lparr>host = default_sqlserver_host, port = default_sqlserver_port,
      database = default_sqlserver_database, username = default_sqlserver_username,
      password = default_sqlserver_password, table_ident = default_sqlserver_table,
      trust_cert = default_true, encryption = default_sqlserver_encryption,
      mark_uploaded_flag = default_true\<rparr>"

section \<open>Deserialisation of the sections\<close>

record raw_api =
  raw_endpoint :: "string option"
  raw_api_key :: "string option"
  raw_timeout_seconds :: "u64 option"

record raw_database =
  raw_url :: "string option"
  raw_max_connections :: "u32 option"

record raw_server =
  raw_enabled :: "bool option"
  raw_bind :: "string option"
  raw_route :: "string option"
  raw_max_body_bytes :: "usize option"
  raw_server_api_key :: "string option"
  raw_persist :: "bool option"

record raw_sync =
  raw_source :: "string option"
  raw_batch_size :: "u32 option"
  raw_cron :: "string option"
  raw_sync_on_start :: "bool option"
  raw_retry_initial_delay_ms :: "u64 option"
  raw_retry_max_delay_ms :: "u64 option"
  raw_retry_max_elapsed_seconds :: "u64 option"

record raw_sqlserver =
  raw_host :: "string option"
  raw_port :: "u16 option"
  raw_database_name :: "string option"
  raw_username :: "string option"
  raw_password :: "string option"
  raw_table :: "string option"
  raw_trust_cert :: "bool option"
  raw_encryption :: "string option"
  raw_mark_uploaded :: "bool option"

record raw_app =
  raw_api_section :: "raw_api option"
  raw_database_section :: "raw_database option"
  raw_server_section :: "raw_server option"
  raw_sqlserver_section :: "raw_sqlserver option"
  raw_sync_section :: "raw_sync option"

text \<open>\<open>#[serde(default = "f")]\<close>: the value when the key is present, else \<open>f()\<close>.\<close>

definition or_default :: "'a option \<Rightarrow> 'a \<Rightarrow> 'a" where
  "or_default x d = (case x of Some v \<Rightarrow> v | None \<Rightarrow> d)"

definition missing_field :: "string \<Rightarrow> anyhow" where
  "missing_field name = Msg (''missing field `'' @ name @ ''`'')"

definition de_api :: "raw_api \<Rightarrow> (api_config, anyhow) result" where
  "de_api r =
     and_then (ok_or_else (raw_endpoint r) (missing_field ''endpoint'')) (\<lambda>ep.
       Ok \<lparr>endpoint = ep, api_api_key = raw_api_key r,
           timeout_seconds = or_default (raw_timeout_seconds r) default_timeout_seconds\<rparr>)"

definition de_database :: "raw_database \<Rightarrow> database_config" where
  "de_database r =
     \<lparr>url = or_default (raw_url r) default_database_url,
      max_connections = or_default (raw_max_connections r) default_max_connections\<rparr>"

definition de_server :: "raw_server \<Rightarrow> server_config" where
  "de_server r =
     \<lparr>enabled = or_default (raw_enabled r) False,
      bind = or_default (raw_bind r) default_server_bind,
      route = or_default (raw_route r) default_server_route,
      max_body_bytes = or_default (raw_max_body_bytes r) default_server_max_body_bytes,
      server_api_key = raw_server_api_key r,
      persist = or_default (raw_persist r) False\<rparr>"

definition de_sync :: "raw_sync \<Rightarrow> sync_config" where
  "de_sync r =
     \<lparr>sync_source = or_default (raw_source r) default_sync_source,
      batch_size = or_default (raw_batch_size r) default_batch_size,
      cron = or_default (raw_cron r) default_cron,
      sync_on_start = or_default (raw_sync_on_start r) default_true,
      retry_initial_delay_ms =
        or_default (raw_retry_initial_delay_ms r) default_retry_initial_delay_ms,
      retry_max_delay_ms = or_default (raw_retry_max_delay_ms r) default_retry_max_delay_ms,
      retry_max_elapsed_seconds =
        or_default (raw_retry_max_elapsed_seconds r) default_retry_max_elapsed_seconds\<rparr>"

definition de_sqlserver :: "raw_sqlserver \<Rightarrow> sqlserver_config" where
  "de_sqlserver r =
     \<lparr>host = or_default (raw_host r) default_sqlserver_host,
      port = or_default (raw_port r) default_sqlserver_port,
      database = or_default (raw_database_name r) default_sqlserver_database,
      username = or_default (raw_username r) default_sqlserver_username,
      password = or_default (raw_password r) default_sqlserver_password,
      table_ident = or_default (raw_table r) default_sqlserver_table,
      trust_cert = or_default (raw_trust_cert r) default_true,
      encryption = or_default (raw_encryption r) default_sqlserver_encryption,
      mark_uploaded_flag = or_default (raw_mark_uploaded r) default_true\<rparr>"

definition de_app :: "raw_app \<Rightarrow> (app_config, anyhow) result" where
  "de_app r =
     and_then (and_then (ok_or_else (raw_api_section r) (missing_field ''api'')) de_api) (\<lambda>a.
     and_then (ok_or_else (raw_database_section r) (missing_field ''database'')) (\<lambda>d.
     and_then (ok_or_else (raw_sync_section r) (missing_field ''sync'')) (\<lambda>s.
       Ok \<lparr>api = a, database_section = de_database d,
           server =
             (case raw_server_section r of
               Some v \<Rightarrow> de_server v | None \<Rightarrow> server_config_default),
           sqlserver =
             (case raw_sqlserver_section r of
               Some q \<Rightarrow> de_sqlserver q | None \<Rightarrow> sqlserver_config_default),
           sync = de_sync s\<rparr>)))"

definition load ::
  "(string \<Rightarrow> (raw_app, anyhow) result) \<Rightarrow> string \<Rightarrow> (app_config, anyhow) result" where
  "load build path =
     and_then (context_err ''failed to build configuration'' (build path)) (\<lambda>raw.
       context_err ''failed to deserialize configuration'' (de_app raw))"

section \<open>Accessors\<close>

definition timeout :: "api_config \<Rightarrow> duration" where
  "timeout c = duration_from_secs (timeout_seconds c)"

definition retry_initial_delay :: "sync_config \<Rightarrow> duration" where
  "retry_initial_delay c = duration_from_millis (retry_initial_delay_ms c)"

definition retry_max_delay :: "sync_config \<Rightarrow> duration" where
  "retry_max_delay c = duration_from_millis (retry_max_delay_ms c)"

definition retry_max_elapsed :: "sync_config \<Rightarrow> duration" where
  "retry_max_elapsed c = duration_from_secs (retry_max_elapsed_seconds c)"

definition validate :: "sqlserver_config \<Rightarrow> (unit, anyhow) result" where
  "validate c =
     (if trim (host c) = [] \<or> host c = PLACEHOLDER_HOST
      then Err (Msg ''SQL Server host is not configured; set [sqlserver].host or WDS__SQLSERVER__HOST'')
      else if trim (username c) = []
      then Err (Msg ''SQL Server username is not configured; set [sqlserver].username or WDS__SQLSERVER__USERNAME'')
      else if password c = [] \<or> password c = PLACEHOLDER_PASSWORD
      then Err (Msg ''SQL Server password is not configured; set [sqlserver].password or WDS__SQLSERVER__PASSWORD'')
      else Ok ())"

definition is_plaintext :: "sqlserver_config \<Rightarrow> bool" where
  "is_plaintext c \<longleftrightarrow>
     eq_ignore_ascii_case (encryption c) ''not_supported'' \<or>
     eq_ignore_ascii_case (encryption c) ''none'' \<or>
     eq_ignore_ascii_case (encryption c) ''plaintext''"

definition is_required_encryption :: "sqlserver_config \<Rightarrow> bool" where
  "is_required_encryption c \<longleftrightarrow>
     eq_ignore_ascii_case (encryption c) ''required'' \<or>
     eq_ignore_ascii_case (encryption c) ''true'' \<or>
     eq_ignore_ascii_case (encryption c) ''on''"

lemmas config_default_defs =
  default_database_url_def default_server_bind_def default_server_route_def
  default_server_max_body_bytes_def default_sync_source_def default_batch_size_def
  default_cron_def default_max_connections_def default_retry_initial_delay_ms_def
  default_retry_max_delay_ms_def default_retry_max_elapsed_seconds_def
  default_timeout_seconds_def default_true_def default_sqlserver_host_def
  default_sqlserver_port_def default_sqlserver_database_def default_sqlserver_username_def
  default_sqlserver_password_def default_sqlserver_table_def default_sqlserver_encryption_def

section \<open>Lemmas\<close>

lemma or_default_simps [simp]: "or_default (Some v) d = v" "or_default None d = d"
  by (simp_all add: or_default_def)

lemma duration_from_secs_max: "duration_from_secs s \<le> DURATION_MAX"
proof -
  have "unat s < 2 ^ LENGTH(64)" by (rule unsigned_less)
  then have "unat s < 2 ^ 64" by simp
  then have "unat s \<le> 2 ^ 64 - 1" by linarith
  then show ?thesis by (simp add: duration_from_secs_def DURATION_MAX_def)
qed

lemma duration_from_millis_max: "duration_from_millis s \<le> DURATION_MAX"
proof -
  have "duration_from_millis s \<le> duration_from_secs s"
    by (simp add: duration_from_millis_def duration_from_secs_def)
  then show ?thesis using duration_from_secs_max le_trans by blast
qed

text \<open>The encryption names are pairwise different even up to ASCII case.\<close>

lemma encryption_names_apart:
  "\<not> eq_ignore_ascii_case ''not_supported'' ''required''"
  "\<not> eq_ignore_ascii_case ''not_supported'' ''true''"
  "\<not> eq_ignore_ascii_case ''not_supported'' ''on''"
  "\<not> eq_ignore_ascii_case ''none'' ''required''"
  "\<not> eq_ignore_ascii_case ''none'' ''true''"
  "\<not> eq_ignore_ascii_case ''none'' ''on''"
  "\<not> eq_ignore_ascii_case ''plaintext'' ''required''"
  "\<not> eq_ignore_ascii_case ''plaintext'' ''true''"
  "\<not> eq_ignore_ascii_case ''plaintext'' ''on''"
  by code_simp+

lemma plaintext_not_required: "is_plaintext c \<Longrightarrow> \<not> is_required_encryption c"
  unfolding is_plaintext_def is_required_encryption_def
  using encryption_names_apart eq_ignore_ascii_case_apart by blast

lemma validate_Ok_iff:
  "validate c = Ok () \<longleftrightarrow>
     trim (host c) \<noteq> [] \<and> host c \<noteq> PLACEHOLDER_HOST \<and> trim (username c) \<noteq> [] \<and>
     password c \<noteq> [] \<and> password c \<noteq> PLACEHOLDER_PASSWORD"
  by (simp add: validate_def)

section \<open>Properties\<close>

definition raw_server_empty :: raw_server where
  "raw_server_empty =
     \<lparr>raw_enabled = None, raw_bind = None, raw_route = None, raw_max_body_bytes = None,
      raw_server_api_key = None, raw_persist = None\<rparr>"

definition raw_sqlserver_empty :: raw_sqlserver where
  "raw_sqlserver_empty =
     \<lparr>raw_host = None, raw_port = None, raw_database_name = None, raw_username = None,
      raw_password = None, raw_table = None, raw_trust_cert = None, raw_encryption = None,
      raw_mark_uploaded = None\<rparr>"

text \<open>
  C39: leaving a section out is the same as leaving it empty. The \<open>Default\<close> implementations of
  the server and SQL Server sections agree with the per-key defaults of deserialisation, so a
  configuration without \<open>[server]\<close> or \<open>[sqlserver]\<close> loads exactly like one with an empty
  section, and such a configuration never passes the credential guard.
\<close>

theorem absent_sections_are_empty:
  "de_app (r\<lparr>raw_server_section := None\<rparr>) = de_app (r\<lparr>raw_server_section := Some raw_server_empty\<rparr>) \<and>
   de_app (r\<lparr>raw_sqlserver_section := None\<rparr>) =
     de_app (r\<lparr>raw_sqlserver_section := Some raw_sqlserver_empty\<rparr>) \<and>
   (\<forall>cfg. load build path = Ok cfg \<longrightarrow> build path = Ok (r\<lparr>raw_sqlserver_section := None\<rparr>) \<longrightarrow>
     \<not> is_ok (validate (sqlserver cfg)))"
proof (intro conjI allI impI)
  show "de_app (r\<lparr>raw_server_section := None\<rparr>) = de_app (r\<lparr>raw_server_section := Some raw_server_empty\<rparr>)"
    by (simp add: de_app_def de_server_def raw_server_empty_def server_config_default_def)
  show "de_app (r\<lparr>raw_sqlserver_section := None\<rparr>) =
      de_app (r\<lparr>raw_sqlserver_section := Some raw_sqlserver_empty\<rparr>)"
    by (simp add: de_app_def de_sqlserver_def raw_sqlserver_empty_def sqlserver_config_default_def)
  fix cfg
  assume "load build path = Ok cfg" and "build path = Ok (r\<lparr>raw_sqlserver_section := None\<rparr>)"
  then have "sqlserver cfg = sqlserver_config_default"
    by (auto simp: load_def de_app_def and_then_Ok_iff context_err_Ok_iff)
  then show "\<not> is_ok (validate (sqlserver cfg))"
    by (simp add: validate_def sqlserver_config_default_def default_sqlserver_host_def)
qed

definition demo_raw_app :: raw_app where
  "demo_raw_app =
     \<lparr>raw_api_section = Some \<lparr>raw_endpoint = Some ''http://cloud'', raw_api_key = None,
        raw_timeout_seconds = None\<rparr>,
      raw_database_section = Some \<lparr>raw_url = None, raw_max_connections = None\<rparr>,
      raw_server_section = None, raw_sqlserver_section = None,
      raw_sync_section = Some \<lparr>raw_source = None, raw_batch_size = None, raw_cron = None,
        raw_sync_on_start = None, raw_retry_initial_delay_ms = None, raw_retry_max_delay_ms = None,
        raw_retry_max_elapsed_seconds = None\<rparr>\<rparr>"

theorem absent_sections_are_empty_witness:
  "\<exists>cfg. load (\<lambda>_. Ok demo_raw_app) ''config'' = Ok cfg \<and> \<not> is_ok (validate (sqlserver cfg))"
proof -
  obtain cfg where "load (\<lambda>_. Ok demo_raw_app) ''config'' = Ok cfg"
    by (simp add: load_def de_app_def de_api_def demo_raw_app_def)
  moreover have "demo_raw_app\<lparr>raw_sqlserver_section := None\<rparr> = demo_raw_app"
    by (simp add: demo_raw_app_def)
  ultimately show ?thesis
    using absent_sections_are_empty [of demo_raw_app "\<lambda>_. Ok demo_raw_app" "''config''"] by auto
qed

end
