(* ===== verification/Sql_Server_Source.thy ===== *)
theory Sql_Server_Source
  imports Sql_Rows Config "HOL-Library.Option_ord" "HOL-Library.Sublist"
begin

text \<open>
  The SQL Server source (src/source/sqlserver.rs): its construction, the connection, the query
  for pending rows and the write-back in chunks.

  \<open>sql_server\<close> is the server: the rows of the table, which connections and statements fail
  and how, and what was logged in and executed. A failing \<open>UPDATE\<close> may or may not have been
  applied. The meaning of the two statements is that of their text: the \<open>WHERE\<close> and \<open>ORDER BY\<close>
  clauses of the query on the entity's columns (\<open>NULL\<close> sorts first), and equality of \<open>serialNo\<close>
  under the column's collation in the update. The order of rows with equal keys and the
  collation are parameters in \<open>tds_env\<close>, and \<open>sql_source\<close> states what is relied on.
\<close>

section \<open>The source\<close>

record sqlserver_source =
  src_cfg :: sqlserver_config

definition source_new :: "sqlserver_config \<Rightarrow> (sqlserver_source, anyhow) result" where
  "source_new cfg =
     and_then (validate cfg) (\<lambda>_.
     and_then (validate_identifier (table_ident cfg)) (\<lambda>_.
       Ok \<lparr>src_cfg = cfg\<rparr>))"

definition database_name :: "sqlserver_source \<Rightarrow> string" where
  "database_name src = database (src_cfg src)"

definition table_name :: "sqlserver_source \<Rightarrow> string" where
  "table_name src = table_ident (src_cfg src)"

definition mark_uploaded_enabled :: "sqlserver_source \<Rightarrow> bool" where
  "mark_uploaded_enabled src = mark_uploaded_flag (src_cfg src)"

section \<open>The server\<close>

datatype encryption_level = NotSupported | Required | Off

record tds_config =
  tc_host :: string
  tc_port :: u16
  tc_database :: string
  tc_application_name :: string
  tc_user :: string
  tc_password :: string
  tc_trust_cert :: bool
  tc_encryption :: encryption_level

record tds_env =
  env_lib :: tds_lib
  get_addr :: "tds_config \<Rightarrow> string"
  coll_eq :: "string \<Rightarrow> string \<Rightarrow> bool"
  order_weights :: "weight_info list \<Rightarrow> weight_info list"

record sql_server =
  weight_rows :: "weight_info list"
  tcp_fault :: "nat \<Rightarrow> string option"
  nodelay_fault :: "nat \<Rightarrow> string option"
  login_fault :: "nat \<Rightarrow> string option"
  query_fault :: "nat \<Rightarrow> string option"
  read_fault :: "nat \<Rightarrow> string option"
  exec_fault :: "nat \<Rightarrow> (string \<times> bool) option"
  conn_n :: nat
  stmt_n :: nat
  logins :: "tds_config list"
  statements :: "(string \<times> string list) list"

section \<open>Connection\<close>

definition encryption_choice :: "sqlserver_config \<Rightarrow> encryption_level" where
  "encryption_choice cfg =
     (if is_plaintext cfg then NotSupported
      else if is_required_encryption cfg then Required
      else Off)"

definition tds_config_of :: "sqlserver_config \<Rightarrow> tds_config" where
  "tds_config_of cfg =
     \<lparr>tc_host = host cfg, tc_port = port cfg, tc_database = database cfg,
      tc_application_name = ''weighing-data-sync'', tc_user = username cfg,
      tc_password = password cfg, tc_trust_cert = trust_cert cfg,
      tc_encryption = encryption_choice cfg\<rparr>"

definition tds_connect ::
  "tds_env \<Rightarrow> sqlserver_source \<Rightarrow> sql_server \<Rightarrow> (unit, anyhow) result \<times> sql_server" where
  "tds_connect env src s =
     (let config = tds_config_of (src_cfg src);
          n = conn_n s;
          s1 = s\<lparr>conn_n := Suc n\<rparr>
      in case tcp_fault s n of
           Some m \<Rightarrow> (Err (Ctx (''failed to connect SQL Server '' @ get_addr env config) (Msg m)), s1)
         | None \<Rightarrow>
        (case nodelay_fault s n of
           Some m \<Rightarrow>
             (Err (Ctx ''failed to enable TCP_NODELAY for SQL Server connection'' (Msg m)), s1)
         | None \<Rightarrow>
        (case login_fault s n of
           Some m \<Rightarrow> (Err (Ctx ''failed to login SQL Server'' (Msg m)), s1)
         | None \<Rightarrow> (Ok (), s1\<lparr>logins := logins s1 @ [config]\<rparr>))))"

section \<open>The query\<close>

definition isnull :: "'a option \<Rightarrow> 'a \<Rightarrow> 'a" where
  "isnull x d = (case x of Some v \<Rightarrow> v | None \<Rightarrow> d)"

definition isnull_col :: "'a option \<Rightarrow> 'a option \<Rightarrow> 'a option" where
  "isnull_col x y = (case x of Some v \<Rightarrow> Some v | None \<Rightarrow> y)"

definition row_pending :: "weight_info \<Rightarrow> bool" where
  "row_pending r \<longleftrightarrow> isnull (is_upload_cloud r) 0 = 0 \<and> isnull (del_flag r) 0 = 0"

definition upload_order_key :: "weight_info \<Rightarrow> naive_datetime option" where
  "upload_order_key r =
     isnull_col (update_time r)
       (isnull_col (second_time r) (isnull_col (first_time r) (gross_time r)))"

definition select_top :: "tds_env \<Rightarrow> u32 \<Rightarrow> weight_info list \<Rightarrow> weight_info list" where
  "select_top env limit rows = take (unat limit) (order_weights env (filter row_pending rows))"

definition source_fetch_pending ::
  "tds_env \<Rightarrow> sqlserver_source \<Rightarrow> u32 \<Rightarrow> sql_server \<Rightarrow>
   (sqlserver_weight_record list, anyhow) result \<times> sql_server" where
  "source_fetch_pending env src limit s =
     try_then (tds_connect env src s) (\<lambda>_ s1.
       let sql = fetch_sql limit (table_ident (src_cfg src));
           n = stmt_n s1;
           s2 = s1\<lparr>stmt_n := Suc n, statements := statements s1 @ [(sql, [])]\<rparr>
       in case query_fault s1 n of
            Some m \<Rightarrow> (Err (Ctx ''failed to query tbl_weightInfo'' (Msg m)), s2)
          | None \<Rightarrow>
         (case read_fault s1 n of
            Some m \<Rightarrow> (Err (Ctx ''failed to read tbl_weightInfo rows'' (Msg m)), s2)
          | None \<Rightarrow>
              (collect (map (row_to_record (env_lib env))
                 (map weight_info_cells (select_top env limit (weight_rows s2)))), s2)))"

section \<open>The write-back\<close>

definition set_uploaded :: "weight_info \<Rightarrow> weight_info" where
  "set_uploaded r = r\<lparr>is_upload_cloud := Some 1\<rparr>"

definition serial_in :: "tds_env \<Rightarrow> string list \<Rightarrow> weight_info \<Rightarrow> bool" where
  "serial_in env serials r = list_ex (coll_eq env (serial_no r)) serials"

definition mark_rows :: "tds_env \<Rightarrow> string list \<Rightarrow> weight_info list \<Rightarrow> weight_info list" where
  "mark_rows env serials rows = map (\<lambda>r. if serial_in env serials r then set_uploaded r else r) rows"

definition execute_mark ::
  "tds_env \<Rightarrow> string \<Rightarrow> string list \<Rightarrow> sql_server \<Rightarrow> (unit, anyhow) result \<times> sql_server" where
  "execute_mark env sql params s =
     (let n = stmt_n s;
          s1 = s\<lparr>stmt_n := Suc n, statements := statements s @ [(sql, params)]\<rparr>;
          s2 = s1\<lparr>weight_rows := mark_rows env params (weight_rows s1)\<rparr>
      in case exec_fault s n of
           None \<Rightarrow> (Ok (), s2)
         | Some (m, applied) \<Rightarrow> (Err (Msg m), if applied then s2 else s1))"

fun mark_chunks ::
  "tds_env \<Rightarrow> string \<Rightarrow> string list list \<Rightarrow> sql_server \<Rightarrow> (unit, anyhow) result \<times> sql_server" where
  "mark_chunks env tbl [] s = (Ok (), s)"
| "mark_chunks env tbl (chunk # rest) s =
     (case execute_mark env (mark_sql tbl (length chunk)) chunk s of
        (Err e, s1) \<Rightarrow>
          (Err (Ctx (''failed to mark '' @ show_nat (length chunk) @
             '' SQL Server rows as uploaded'') e), s1)
      | (Ok _, s1) \<Rightarrow> mark_chunks env tbl rest s1)"

definition source_mark_uploaded ::
  "tds_env \<Rightarrow> sqlserver_source \<Rightarrow> string list \<Rightarrow> sql_server \<Rightarrow> (unit, anyhow) result \<times> sql_server"
where
  "source_mark_uploaded env src serial_nos s =
     (if serial_nos = [] \<or> \<not> mark_uploaded_flag (src_cfg src) then (Ok (), s)
      else try_then (tds_connect env src s) (\<lambda>_ s1.
        mark_chunks env (table_ident (src_cfg src)) (chunks MARK_UPLOAD_CHUNK_SIZE serial_nos) s1))"

section \<open>Lemmas\<close>

lemma serial_in_append [simp]: "serial_in env (a @ b) r \<longleftrightarrow> serial_in env a r \<or> serial_in env b r"
  by (simp add: serial_in_def)

lemma serial_in_Nil [simp]: "\<not> serial_in env [] r"
  by (simp add: serial_in_def)

lemma serial_no_set_uploaded [simp]: "serial_no (set_uploaded r) = serial_no r"
  by (simp add: set_uploaded_def)

lemma set_uploaded_idem [simp]: "set_uploaded (set_uploaded r) = set_uploaded r"
  by (simp add: set_uploaded_def)

lemma not_pending_uploaded [simp]: "\<not> row_pending (set_uploaded r)"
  by (simp add: row_pending_def set_uploaded_def isnull_def)

lemma serial_in_set_uploaded [simp]: "serial_in env ss (set_uploaded r) = serial_in env ss r"
  by (simp add: serial_in_def)

lemma mark_rows_Nil [simp]: "mark_rows env [] rows = rows"
  by (simp add: mark_rows_def)

lemma mark_rows_append: "mark_rows env (a @ b) rows = mark_rows env b (mark_rows env a rows)"
  by (simp add: mark_rows_def)

lemma filter_pending_marked:
  "filter row_pending (map (\<lambda>r. if P r then set_uploaded r else r) rows) =
     filter (\<lambda>r. row_pending r \<and> \<not> P r) rows"
  by (induction rows) auto

lemma tds_connect_frame: "tds_connect env src s = (x, s') \<Longrightarrow>
    weight_rows s' = weight_rows s \<and> statements s' = statements s \<and> stmt_n s' = stmt_n s \<and>
    exec_fault s' = exec_fault s \<and> query_fault s' = query_fault s \<and> read_fault s' = read_fault s \<and>
    tcp_fault s' = tcp_fault s \<and> nodelay_fault s' = nodelay_fault s \<and> login_fault s' = login_fault s"
  by (auto simp: tds_connect_def Let_def split: option.splits)

text \<open>Executing the chunks marks a prefix of the serial numbers, and all of them on success.\<close>

lemma execute_mark_effect:
  assumes "execute_mark env sql ps s = (x, s1)"
  shows "statements s1 = statements s @ [(sql, ps)]"
    and "is_ok x \<Longrightarrow> weight_rows s1 = mark_rows env ps (weight_rows s)"
    and "weight_rows s1 = weight_rows s \<or> weight_rows s1 = mark_rows env ps (weight_rows s)"
  using assms by (auto simp: execute_mark_def Let_def split: option.splits)

lemma mark_chunks_effect:
  assumes "mark_chunks env tbl cs s = (x, s')"
  shows "\<exists>k \<le> length cs. (is_ok x \<longrightarrow> k = length cs) \<and>
    weight_rows s' = mark_rows env (concat (take k cs)) (weight_rows s)"
  using assms
proof (induction cs arbitrary: s)
  case (Cons c cs)
  obtain y s1 where e: "execute_mark env (mark_sql tbl (length c)) c s = (y, s1)" by fastforce
  note ef = execute_mark_effect [OF e]
  show ?case
  proof (cases y)
    case (Err m)
    with Cons.prems e have x: "\<not> is_ok x" "s' = s1" by auto
    from ef(3) show ?thesis
    proof
      assume "weight_rows s1 = weight_rows s"
      with x show ?thesis by (intro exI [of _ 0]) simp
    next
      assume "weight_rows s1 = mark_rows env c (weight_rows s)"
      with x show ?thesis by (intro exI [of _ 1]) simp
    qed
  next
    case (Ok v)
    with Cons.prems e have "mark_chunks env tbl cs s1 = (x, s')" by simp
    then obtain k where "k \<le> length cs" "is_ok x \<longrightarrow> k = length cs"
      "weight_rows s' = mark_rows env (concat (take k cs)) (weight_rows s1)"
      using Cons.IH by blast
    then show ?thesis using ef(2) Ok
      by (intro exI [of _ "Suc k"]) (simp add: mark_rows_append)
  qed
qed simp

lemma off_is_apart:
  "\<not> eq_ignore_ascii_case ''off'' ''not_supported''" "\<not> eq_ignore_ascii_case ''off'' ''none''"
  "\<not> eq_ignore_ascii_case ''off'' ''plaintext''" "\<not> eq_ignore_ascii_case ''off'' ''required''"
  "\<not> eq_ignore_ascii_case ''off'' ''true''" "\<not> eq_ignore_ascii_case ''off'' ''on''"
  by code_simp+

lemma prefix_concat_take: "prefix (concat (take k cs)) (concat cs)"
  by (metis append_take_drop_id concat_append prefixI)

lemma mark_uploaded_effect:
  assumes "source_mark_uploaded env src ids s = (x, s')" and "mark_uploaded_enabled src"
  shows "\<exists>done. prefix done ids \<and> (is_ok x \<longrightarrow> done = ids) \<and>
    weight_rows s' = mark_rows env done (weight_rows s)"
proof (cases "ids = []")
  case True
  with assms show ?thesis by (intro exI [of _ "[]"]) (auto simp: source_mark_uploaded_def)
next
  case False
  obtain y s1 where c: "tds_connect env src s = (y, s1)" by fastforce
  note fr = tds_connect_frame [OF c]
  have cc: "concat (chunks MARK_UPLOAD_CHUNK_SIZE ids) = ids"
    by (simp add: concat_chunks MARK_UPLOAD_CHUNK_SIZE_def)
  show ?thesis
  proof (cases y)
    case (Err m)
    with assms False c fr show ?thesis
      by (intro exI [of _ "[]"]) (auto simp: source_mark_uploaded_def mark_uploaded_enabled_def)
  next
    case (Ok v)
    with assms False c have "mark_chunks env (table_ident (src_cfg src))
        (chunks MARK_UPLOAD_CHUNK_SIZE ids) s1 = (x, s')"
      by (auto simp: source_mark_uploaded_def mark_uploaded_enabled_def)
    from mark_chunks_effect [OF this] obtain k where
      "is_ok x \<longrightarrow> k = length (chunks MARK_UPLOAD_CHUNK_SIZE ids)"
      "weight_rows s' = mark_rows env (concat (take k (chunks MARK_UPLOAD_CHUNK_SIZE ids)))
        (weight_rows s1)" by blast
    then show ?thesis
      using fr cc prefix_concat_take [of k "chunks MARK_UPLOAD_CHUNK_SIZE ids"]
      by (intro exI [of _ "concat (take k (chunks MARK_UPLOAD_CHUNK_SIZE ids))"]) auto
  qed
qed

lemma mark_uploaded_disabled:
  "\<not> mark_uploaded_enabled src \<Longrightarrow> source_mark_uploaded env src ids s = (Ok (), s)"
  by (simp add: source_mark_uploaded_def mark_uploaded_enabled_def)

text \<open>The statements that were sent.\<close>

lemma mark_chunks_statements:
  assumes "mark_chunks env tbl cs s = (x, s')"
  shows "\<exists>k \<le> length cs. (is_ok x \<longrightarrow> k = length cs) \<and>
    statements s' = statements s @ map (\<lambda>c. (mark_sql tbl (length c), c)) (take k cs)"
  using assms
proof (induction cs arbitrary: s)
  case (Cons c cs)
  obtain y s1 where e: "execute_mark env (mark_sql tbl (length c)) c s = (y, s1)" by fastforce
  note ef = execute_mark_effect(1) [OF e]
  show ?case
  proof (cases y)
    case (Err m)
    with Cons.prems e ef show ?thesis by (intro exI [of _ 1]) auto
  next
    case (Ok v)
    with Cons.prems e have "mark_chunks env tbl cs s1 = (x, s')" by simp
    then obtain k where "k \<le> length cs" "is_ok x \<longrightarrow> k = length cs"
      "statements s' = statements s1 @ map (\<lambda>c. (mark_sql tbl (length c), c)) (take k cs)"
      using Cons.IH by blast
    then show ?thesis using ef by (intro exI [of _ "Suc k"]) simp
  qed
qed simp

lemma mark_uploaded_statements:
  assumes "source_mark_uploaded env src ids s = (x, s')"
  shows "\<exists>cs. statements s' =
      statements s @ map (\<lambda>c. (mark_sql (table_ident (src_cfg src)) (length c), c)) cs \<and>
    prefix (concat cs) ids \<and> (\<forall>c \<in> set cs. c \<noteq> [] \<and> length c \<le> 1000)"
proof -
  obtain y s1 where c: "tds_connect env src s = (y, s1)" by (metis surj_pair)
  have fr: "statements s1 = statements s" using tds_connect_frame [OF c] by simp
  let ?cs = "chunks MARK_UPLOAD_CHUNK_SIZE ids"
  have cc: "concat ?cs = ids" by (simp add: concat_chunks MARK_UPLOAD_CHUNK_SIZE_def)
  have small: "\<forall>c \<in> set (take k ?cs). c \<noteq> [] \<and> length c \<le> 1000" for k
  proof
    fix c assume "c \<in> set (take k ?cs)"
    then have "c \<in> set ?cs" by (rule in_set_takeD)
    from chunks_length [OF this] show "c \<noteq> [] \<and> length c \<le> 1000"
      by (simp add: MARK_UPLOAD_CHUNK_SIZE_def)
  qed
  consider "s' = s" | "s' = s1"
    | "mark_chunks env (table_ident (src_cfg src)) ?cs s1 = (x, s')"
  proof (cases "ids = [] \<or> \<not> mark_uploaded_flag (src_cfg src)")
    case True
    then have "s' = s" using assms by (simp add: source_mark_uploaded_def)
    then show ?thesis by (rule that(1))
  next
    case False
    then have "try_then (y, s1) (\<lambda>_. mark_chunks env (table_ident (src_cfg src)) ?cs) = (x, s')"
      using assms by (simp add: source_mark_uploaded_def c)
    then show ?thesis using that(2,3) by (cases y) simp_all
  qed
  then show ?thesis
  proof cases
    case 1
    then show ?thesis by (intro exI [of _ "[]"]) simp
  next
    case 2
    then show ?thesis using fr by (intro exI [of _ "[]"]) simp
  next
    case 3
    then obtain k where "statements s' = statements s1 @
        map (\<lambda>c. (mark_sql (table_ident (src_cfg src)) (length c), c)) (take k ?cs)"
      using mark_chunks_statements [OF 3] by blast
    then show ?thesis
      using fr small [of k] prefix_concat_take [of k ?cs] cc by (intro exI [of _ "take k ?cs"]) simp
  qed
qed

section \<open>What an engine expects of the source\<close>

locale weight_source =
  fixes rows :: "'s \<Rightarrow> weight_info list"
    and fetch :: "u32 \<Rightarrow> 's \<Rightarrow> (sqlserver_weight_record list, anyhow) result \<times> 's"
    and mark :: "string list \<Rightarrow> 's \<Rightarrow> (unit, anyhow) result \<times> 's"
    and matches :: "string list \<Rightarrow> weight_info \<Rightarrow> bool"
    and marking :: bool
  assumes fetch_rows: "fetch n s = (x, s') \<Longrightarrow> rows s' = rows s"
    and fetch_batch: "fetch n s = (Ok rs, s') \<Longrightarrow>
      \<exists>taken left. mset (filter row_pending (rows s)) = mset taken + mset left \<and>
        map sw_serial_no rs = map serial_no taken \<and>
        length taken = min (unat n) (length (filter row_pending (rows s)))"
    and mark_off: "\<not> marking \<Longrightarrow> mark ids s = (y, s') \<Longrightarrow> rows s' = rows s"
    and mark_prefix: "marking \<Longrightarrow> mark ids s = (y, s') \<Longrightarrow>
      \<exists>d. prefix d ids \<and> (is_ok y \<longrightarrow> d = ids) \<and>
        rows s' = map (\<lambda>r. if matches d r then set_uploaded r else r) (rows s)"
    and matches_self: "serial_no r \<in> set ids \<Longrightarrow> matches ids r"
begin

text \<open>Every row a cycle marks matches a serial number it was told to mark.\<close>

lemma mark_rows_change:
  assumes "mark ids s = (x, s')"
  shows "\<exists>d. prefix d ids \<and>
    rows s' = map (\<lambda>r. if marking \<and> matches d r then set_uploaded r else r) (rows s)"
proof (cases marking)
  case True
  then show ?thesis using mark_prefix [OF True assms] by auto
next
  case False
  then show ?thesis using mark_off [OF False assms] by (intro exI [of _ "[]"]) simp
qed

text \<open>Marking a fetched batch takes at least the batch off the pending rows.\<close>

lemma marked_batch_pending_rows:
  assumes f: "fetch n s = (Ok rs, s1)"
    and "rows s2 = map (\<lambda>r. if matches (map sw_serial_no rs) r then set_uploaded r else r) (rows s1)"
  shows "length (filter row_pending (rows s2)) \<le> length (filter row_pending (rows s)) - unat n"
proof -
  let ?P = "filter row_pending (rows s)" and ?m = "matches (map sw_serial_no rs)"
  obtain taken left where tl: "mset ?P = mset taken + mset left"
    "map sw_serial_no rs = map serial_no taken" "length taken = min (unat n) (length ?P)"
    using fetch_batch [OF f] by blast
  have "rows s2 = map (\<lambda>r. if ?m r then set_uploaded r else r) (rows s)"
    using assms(2) fetch_rows [OF f] by simp
  then have "filter row_pending (rows s2) = filter (\<lambda>r. row_pending r \<and> \<not> ?m r) (rows s)"
    by (simp only: filter_pending_marked)
  then have "length (filter row_pending (rows s2)) = size (filter_mset (\<lambda>r. \<not> ?m r) (mset ?P))"
    by (simp flip: mset_filter add: conj_commute)
  also have "\<dots> = size (filter_mset (\<lambda>r. \<not> ?m r) (mset taken)) + size (filter_mset (\<lambda>r. \<not> ?m r) (mset left))"
    unfolding tl(1) by simp
  also have "filter_mset (\<lambda>r. \<not> ?m r) (mset taken) = {#}"
  proof -
    have "?m r" if "r \<in> set taken" for r
      using that tl(2) matches_self by (metis image_eqI list.set_map)
    then show ?thesis by simp
  qed
  finally have "length (filter row_pending (rows s2)) \<le> length left"
    using size_filter_mset_lesseq [of "\<lambda>r. \<not> ?m r" "mset left"] by simp
  moreover have "length ?P = length taken + length left"
    using tl(1) by (metis size_mset size_union)
  ultimately show ?thesis using tl(3) by linarith
qed

end

section \<open>The source meets it\<close>

lemma fetch_pending_cases:
  assumes "source_fetch_pending env src n s = (x, s')"
  shows "weight_rows s' = weight_rows s \<and> (is_ok x \<longrightarrow> x = collect (map (row_to_record (env_lib env))
      (map weight_info_cells (select_top env n (weight_rows s)))))"
proof -
  obtain y s1 where c: "tds_connect env src s = (y, s1)" by (metis surj_pair)
  have fr: "weight_rows s1 = weight_rows s" using tds_connect_frame [OF c] by (rule conjunct1)
  show ?thesis
  proof (cases y)
    case (Err m)
    have "x = Err m" "s' = s1"
      using assms unfolding source_fetch_pending_def c Err try_then_simps by simp_all
    with fr show ?thesis by simp
  next
    case (Ok v)
    show ?thesis
    proof (cases "query_fault s1 (stmt_n s1)")
      case None
      show ?thesis
      proof (cases "read_fault s1 (stmt_n s1)")
        case r: None
        have "x = collect (map (row_to_record (env_lib env))
            (map weight_info_cells (select_top env n (weight_rows s))))"
          "weight_rows s' = weight_rows s"
          using assms unfolding source_fetch_pending_def c Ok try_then_simps Let_def None r
          by (simp_all only: option.case prod.inject fr sql_server.simps sql_server.select_convs) (auto simp: fr)
        then show ?thesis by (simp only: simp_thms)
      next
        case (Some m)
        have "x = Err (Ctx ''failed to read tbl_weightInfo rows'' (Msg m))"
          "weight_rows s' = weight_rows s"
          using assms unfolding source_fetch_pending_def c Ok try_then_simps Let_def None Some
          by (auto simp: fr)
        then show ?thesis by simp
      qed
    next
      case (Some m)
      have "x = Err (Ctx ''failed to query tbl_weightInfo'' (Msg m))"
        "weight_rows s' = weight_rows s"
        using assms unfolding source_fetch_pending_def c Ok try_then_simps Let_def Some
        by (auto simp: fr)
      then show ?thesis by simp
    qed
  qed
qed

lemma fetch_pending_Ok:
  assumes "source_fetch_pending env src n s = (Ok rs, s')"
  shows "map (\<lambda>r. row_to_record (env_lib env) (weight_info_cells r)) (select_top env n (weight_rows s))
    = map Ok rs"
proof -
  have "collect (map (row_to_record (env_lib env))
      (map weight_info_cells (select_top env n (weight_rows s)))) = Ok rs"
    using fetch_pending_cases [OF assms] by simp
  then show ?thesis by (simp only: collect_Ok_iff map_map comp_def)
qed

definition no_faults :: "sql_server \<Rightarrow> bool" where
  "no_faults s \<longleftrightarrow>
     (\<forall>k. tcp_fault s k = None \<and> nodelay_fault s k = None \<and> login_fault s k = None \<and>
        query_fault s k = None \<and> read_fault s k = None \<and> exec_fault s k = None)"

locale sql_source = tds_laws "env_lib env" + asc_ordering upload_order_key "order_weights env"
  for env :: tds_env +
  assumes coll_refl: "coll_eq env a a"
begin

lemma fetched_serials:
  assumes "source_fetch_pending env src n s = (Ok rs, s')"
  shows "map sw_serial_no rs = map serial_no (select_top env n (weight_rows s))"
    and "list_all2 (\<lambda>r rec. row_json_complete r (sw_data rec)) (select_top env n (weight_rows s)) rs"
proof -
  note eq = fetch_pending_Ok [OF assms]
  have len: "length rs = length (select_top env n (weight_rows s))"
    using eq by (metis length_map)
  have i: "row_to_record (env_lib env) (weight_info_cells (select_top env n (weight_rows s) ! i)) =
      Ok (rs ! i)" if "i < length rs" for i
    using that eq len by (metis (no_types, lifting) nth_map)
  show "map sw_serial_no rs = map serial_no (select_top env n (weight_rows s))"
    using row_to_record_Ok(1) [OF i] len by (intro nth_equalityI) auto
  show "list_all2 (\<lambda>r rec. row_json_complete r (sw_data rec)) (select_top env n (weight_rows s)) rs"
    using row_to_record_Ok(2) [OF i] len by (auto simp: list_all2_conv_all_nth)
qed

end

sublocale sql_source \<subseteq> src: weight_source weight_rows "source_fetch_pending env src"
    "source_mark_uploaded env src" "serial_in env" "mark_uploaded_enabled src" for src
proof
  fix n x and s s' :: sql_server
  show "weight_rows s' = weight_rows s" if "source_fetch_pending env src n s = (x, s')"
    using fetch_pending_cases [OF that] by (rule conjunct1)
next
  fix n rs and s s' :: sql_server
  assume f: "source_fetch_pending env src n s = (Ok rs, s')"
  let ?o = "order_weights env (filter row_pending (weight_rows s))"
  have "mset (filter row_pending (weight_rows s)) =
      mset (select_top env n (weight_rows s)) + mset (drop (unat n) ?o)"
    unfolding select_top_def by (metis append_take_drop_id mset_append order_perm)
  moreover have "length (select_top env n (weight_rows s)) =
      min (unat n) (length (filter row_pending (weight_rows s)))"
    by (simp add: select_top_def order_length)
  ultimately show "\<exists>taken left. mset (filter row_pending (weight_rows s)) = mset taken + mset left \<and>
      map sw_serial_no rs = map serial_no taken \<and>
      length taken = min (unat n) (length (filter row_pending (weight_rows s)))"
    using fetched_serials(1) [OF f] by blast
next
  fix ids x and s s' :: sql_server
  show "weight_rows s' = weight_rows s"
    if "\<not> mark_uploaded_enabled src" "source_mark_uploaded env src ids s = (x, s')"
    using that by (simp add: mark_uploaded_disabled)
  show "\<exists>d. prefix d ids \<and> (is_ok x \<longrightarrow> d = ids) \<and>
      weight_rows s' = map (\<lambda>r. if serial_in env d r then set_uploaded r else r) (weight_rows s)"
    if "mark_uploaded_enabled src" "source_mark_uploaded env src ids s = (x, s')"
    using mark_uploaded_effect [OF that(2,1)] by (simp add: mark_rows_def)
next
  fix r ids
  show "serial_in env ids r" if "serial_no r \<in> set ids"
    using that coll_refl by (auto simp: serial_in_def list_ex_iff)
qed

context sql_source
begin

text \<open>Without faults, a table of rows that convert can be read.\<close>

lemma fetch_total:
  assumes nf: "no_faults s" and ok: "\<forall>r \<in> set (weight_rows s). weight_info_ok r"
  shows "\<exists>rs s'. source_fetch_pending env src n s = (Ok rs, s') \<and> no_faults s'"
proof -
  obtain s1 where c: "tds_connect env src s = (Ok (), s1)"
    using nf by (auto simp: tds_connect_def no_faults_def Let_def)
  have nf1: "no_faults s1" and fr: "weight_rows s1 = weight_rows s"
    using tds_connect_frame [OF c] nf by (simp_all add: no_faults_def)
  have "set (select_top env n (weight_rows s)) \<subseteq> set (weight_rows s)"
    unfolding select_top_def
    using set_take_subset [of "unat n" "order_weights env (filter row_pending (weight_rows s))"]
      order_set [of "filter row_pending (weight_rows s)"] by auto
  then have "is_ok (collect (map (row_to_record (env_lib env))
      (map weight_info_cells (select_top env n (weight_rows s)))))"
    unfolding collect_is_ok using weight_info_converts ok by fastforce
  then obtain rs where "collect (map (row_to_record (env_lib env))
      (map weight_info_cells (select_top env n (weight_rows s)))) = Ok rs" by (auto simp: is_ok_iff)
  then have "source_fetch_pending env src n s = (Ok rs, s1\<lparr>stmt_n := Suc (stmt_n s1),
      statements := statements s1 @ [(fetch_sql n (table_ident (src_cfg src)), [])]\<rparr>)"
    unfolding source_fetch_pending_def c try_then_simps Let_def
    using nf1 by (simp add: no_faults_def fr)
  moreover have "no_faults (s1\<lparr>stmt_n := Suc (stmt_n s1),
      statements := statements s1 @ [(fetch_sql n (table_ident (src_cfg src)), [])]\<rparr>)"
    using nf1 by (simp add: no_faults_def)
  ultimately show ?thesis by blast
qed

lemma source_laws:
  "weight_source weight_rows (source_fetch_pending env src) (source_mark_uploaded env src)
     (serial_in env) (mark_uploaded_enabled src)"
  by (rule src.weight_source_axioms)

end

section \<open>Properties\<close>

text \<open>An environment and a server for the witnesses.\<close>

definition demo_env_tds :: tds_env where
  "demo_env_tds =
     \<lparr>env_lib = by_name_lib, get_addr = (\<lambda>c. tc_host c), coll_eq = (=),
      order_weights = sort_key upload_order_key\<rparr>"

definition demo_source :: sqlserver_source where
  "demo_source = \<lparr>src_cfg = sqlserver_config_default\<rparr>"

definition demo_rows :: "weight_info list" where
  "demo_rows =
     [demo_weight ''S1'' (Some \<lparr>num_value = 1234, num_scale = 2\<rparr>) None (Some 9),
      demo_weight ''S2'' (Some \<lparr>num_value = 1234, num_scale = 2\<rparr>) None (Some 4)]"

definition demo_server :: "weight_info list \<Rightarrow> sql_server" where
  "demo_server rows =
     \<lparr>weight_rows = rows, tcp_fault = (\<lambda>_. None), nodelay_fault = (\<lambda>_. None),
      login_fault = (\<lambda>_. None), query_fault = (\<lambda>_. None), read_fault = (\<lambda>_. None),
      exec_fault = (\<lambda>_. None), conn_n = 0, stmt_n = 0, logins = [], statements = []\<rparr>"

lemma demo_sql_source: "sql_source demo_env_tds"
  by (intro sql_source.intro sql_source_axioms.intro)
    (simp_all add: demo_env_tds_def by_name.tds_laws_axioms stable_order.asc_ordering_axioms)

interpretation demo_src: sql_source demo_env_tds
  by (rule demo_sql_source)

lemma demo_rows_ok: "\<forall>r \<in> set demo_rows. weight_info_ok r"
proof -
  have "trim ''S1'' \<noteq> []" "trim ''S2'' \<noteq> []" by code_simp+
  moreover have "numeric_ok \<lparr>num_value = 1234, num_scale = 2\<rparr>" by (simp add: numeric_ok_def)
  ultimately show ?thesis
    by (simp add: demo_rows_def weight_info_ok_def demo_weight_def weight_info_cells_def col_defs
        cell_in_range_def)
qed

text \<open>
  C12: the write-back in chunks is one update. However many serial numbers are accepted, the
  statements marking them carry at most 1000 parameters each (the protocol allows 2100), every
  statement has as many placeholders as parameters, and together they mark exactly the rows one
  update for all the serial numbers would. When a statement fails, a prefix of the serial
  numbers has been marked and nothing else has changed.
\<close>

theorem mark_uploaded_is_one_update:
  assumes run: "source_mark_uploaded env src ids s = (x, s')" and on: "mark_uploaded_enabled src"
  shows "(\<exists>d. prefix d ids \<and> (is_ok x \<longrightarrow> d = ids) \<and>
      weight_rows s' = mark_rows env d (weight_rows s)) \<and>
    (\<exists>cs. statements s' = statements s @ map (\<lambda>c. (mark_sql (table_name src) (length c), c)) cs \<and>
      prefix (concat cs) ids \<and> (\<forall>c \<in> set cs. c \<noteq> [] \<and> length c \<le> 1000))"
proof
  show "\<exists>d. prefix d ids \<and> (is_ok x \<longrightarrow> d = ids) \<and>
      weight_rows s' = mark_rows env d (weight_rows s)"
    using run on by (rule mark_uploaded_effect)
  show "\<exists>cs. statements s' = statements s @ map (\<lambda>c. (mark_sql (table_name src) (length c), c)) cs \<and>
      prefix (concat cs) ids \<and> (\<forall>c \<in> set cs. c \<noteq> [] \<and> length c \<le> 1000)"
    using mark_uploaded_statements [OF run] by (auto simp: table_name_def)
qed

theorem mark_uploaded_is_one_update_witness:
  "\<exists>s'. source_mark_uploaded demo_env_tds demo_source [''S2''] (demo_server demo_rows) = (Ok (), s') \<and>
     weight_rows s' = mark_rows demo_env_tds [''S2''] demo_rows"
proof -
  have on: "mark_uploaded_enabled demo_source"
    by (simp add: demo_source_def mark_uploaded_enabled_def sqlserver_config_default_def default_true_def)
  have ch: "chunks MARK_UPLOAD_CHUNK_SIZE [''S2''] = [[''S2'']]"
    by (simp add: chunks.simps MARK_UPLOAD_CHUNK_SIZE_def)
  obtain s' where run: "source_mark_uploaded demo_env_tds demo_source [''S2''] (demo_server demo_rows)
      = (Ok (), s')"
    using on unfolding source_mark_uploaded_def ch mark_uploaded_enabled_def
    by (simp add: tds_connect_def demo_server_def execute_mark_def Let_def)
  have "weight_rows (demo_server demo_rows) = demo_rows" by (simp add: demo_server_def)
  then show ?thesis using mark_uploaded_is_one_update [OF run on] run by auto
qed



text \<open>
  One row with a blank serial number blocks the upload. When it is among the oldest pending
  rows, the fetch fails instead of returning the others, on every cycle.
\<close>

theorem source_fetch_pending_blank_serial:
  assumes "sql_source env" and "r \<in> set (select_top env n (weight_rows s))"
    and "trim (serial_no r) = []"
  shows "\<not> is_ok (fst (source_fetch_pending env src n s))"
proof
  assume "is_ok (fst (source_fetch_pending env src n s))"
  then obtain rs s' where "source_fetch_pending env src n s = (Ok rs, s')"
    by (metis is_ok_iff prod.collapse)
  note eq = fetch_pending_Ok [OF this]
  have "row_to_record (env_lib env) (weight_info_cells r) \<in>
      set (map (\<lambda>r. row_to_record (env_lib env) (weight_info_cells r)) (select_top env n (weight_rows s)))"
    using assms(2) by simp
  then have "is_ok (row_to_record (env_lib env) (weight_info_cells r))" unfolding eq by auto
  moreover have "tds_laws (env_lib env)" using assms(1) by (simp add: sql_source_def)
  ultimately show False using tds_laws.weight_info_blank [OF _ assms(3)] by simp
qed

theorem source_fetch_pending_blank_serial_witness:
  "\<not> is_ok (fst (source_fetch_pending demo_env_tds demo_source 5
     (demo_server [demo_weight '' '' None None None, demo_weight ''S1'' None None None])))"
proof -
  let ?bad = "demo_weight '' '' None None None"
  let ?rows = "[?bad, demo_weight ''S1'' None None None]"
  have b: "trim (serial_no ?bad) = []"
  proof -
    have "serial_no ?bad = '' ''" by (simp add: demo_weight_def)
    moreover have "trim '' '' = []" by code_simp
    ultimately show ?thesis by simp
  qed
  have "set (filter row_pending ?rows) = set ?rows"
    by (simp add: row_pending_def demo_weight_def isnull_def)
  then have "?bad \<in> set (order_weights demo_env_tds (filter row_pending ?rows))"
    using demo_src.order_set by simp
  moreover have "length (order_weights demo_env_tds (filter row_pending ?rows)) \<le> unat (5 :: u32)"
    using le_trans [OF length_filter_le] by (simp add: demo_src.order_length)
  ultimately have "?bad \<in> set (select_top demo_env_tds 5 (weight_rows (demo_server ?rows)))"
    by (simp add: select_top_def demo_server_def)
  then show ?thesis using source_fetch_pending_blank_serial [OF demo_sql_source _ b] by blast
qed

text \<open>
  A source exists only for usable settings. \<open>SqlServerSource::new\<close> succeeds exactly when
  host, user and password are set and are not the placeholders, and the table name is a
  nonempty word of ASCII letters, digits, underscores and dots; the built-in defaults are
  refused.
\<close>

theorem source_new_iff:
  "(is_ok (source_new cfg) \<longleftrightarrow>
      trim (host cfg) \<noteq> [] \<and> host cfg \<noteq> PLACEHOLDER_HOST \<and> trim (username cfg) \<noteq> [] \<and>
      password cfg \<noteq> [] \<and> password cfg \<noteq> PLACEHOLDER_PASSWORD \<and> table_ident cfg \<noteq> [] \<and>
      list_all (\<lambda>c. is_ascii_alphanumeric c \<or> c = CHR ''_'' \<or> c = CHR ''.'') (table_ident cfg)) \<and>
   \<not> is_ok (source_new sqlserver_config_default)"
proof
  show "is_ok (source_new cfg) \<longleftrightarrow>
      trim (host cfg) \<noteq> [] \<and> host cfg \<noteq> PLACEHOLDER_HOST \<and> trim (username cfg) \<noteq> [] \<and>
      password cfg \<noteq> [] \<and> password cfg \<noteq> PLACEHOLDER_PASSWORD \<and> table_ident cfg \<noteq> [] \<and>
      list_all (\<lambda>c. is_ascii_alphanumeric c \<or> c = CHR ''_'' \<or> c = CHR ''.'') (table_ident cfg)"
    by (auto simp: source_new_def is_ok_iff and_then_Ok_iff validate_Ok_iff validate_identifier_def)
  show "\<not> is_ok (source_new sqlserver_config_default)"
    by (simp add: source_new_def validate_def sqlserver_config_default_def default_sqlserver_host_def)
qed

text \<open>
  The encryption setting is mapped as intended for the documented words, up to ASCII case:
  \<open>not_supported\<close>, \<open>none\<close> and \<open>plaintext\<close> give a plain connection, \<open>required\<close>, \<open>true\<close> and \<open>on\<close>
  an encrypted one, the two never overlap, and every other word, \<open>off\<close> included, encrypts the
  login only.
\<close>

theorem encryption_choice_table:
  "(encryption_choice cfg = NotSupported \<longleftrightarrow>
      (\<exists>k \<in> {''not_supported'', ''none'', ''plaintext''}. eq_ignore_ascii_case (encryption cfg) k)) \<and>
   (encryption_choice cfg = Required \<longleftrightarrow>
      (\<exists>k \<in> {''required'', ''true'', ''on''}. eq_ignore_ascii_case (encryption cfg) k)) \<and>
   (eq_ignore_ascii_case (encryption cfg) ''off'' \<longrightarrow> encryption_choice cfg = Off)"
proof -
  have "\<not> is_plaintext cfg \<and> \<not> is_required_encryption cfg"
    if "eq_ignore_ascii_case (encryption cfg) ''off''"
    using that eq_ignore_ascii_case_apart off_is_apart
    unfolding is_plaintext_def is_required_encryption_def by blast
  then show ?thesis
    using plaintext_not_required [of cfg]
    by (auto simp: encryption_choice_def is_plaintext_def is_required_encryption_def)
qed

theorem encryption_choice_table_witness:
  "encryption_choice (sqlserver_config_default\<lparr>encryption := ''OFF''\<rparr>) = Off"
proof -
  have "eq_ignore_ascii_case ''OFF'' ''off''" by code_simp
  then show ?thesis using encryption_choice_table by simp
qed

end
