(* ===== verification/Retry.thy ===== *)
theory Retry
  imports Config
begin

text \<open>
  Upload failures and the retry loop (src/sync/error.rs, src/sync/retry.rs). A failure is
  \<open>Transient\<close> or \<open>Permanent\<close>; \<open>retry_transient\<close> repeats an operation after transient failures
  with a doubling delay until the elapsed budget is spent.

  The operation, the notification, the clock and the sleep act on a world of the caller's
  type. \<open>retry_loop\<close> is a partial function: \<open>None\<close> is a loop that never returns. The locale
  \<open>retry_env\<close> states what the loop relies on (a clock that never runs backwards and a sleep
  that lasts at least as long as asked); in it the loop is shown to return, to follow the
  relation \<open>retry_exec\<close>, and to stay inside its budget.
\<close>

section \<open>Classification (src/sync/error.rs)\<close>

type_synonym status_code = nat

datatype upload_error = Transient anyhow | Permanent anyhow

definition is_client_error :: "status_code \<Rightarrow> bool" where
  "is_client_error s \<longleftrightarrow> 400 \<le> s \<and> s < 500"

definition is_success :: "status_code \<Rightarrow> bool" where
  "is_success s \<longleftrightarrow> 200 \<le> s \<and> s < 300"

definition status_is_permanent :: "status_code \<Rightarrow> bool" where
  "status_is_permanent s = (if is_client_error s then \<not> (s = 408 \<or> s = 429) else False)"

definition from_status ::
  "(status_code \<Rightarrow> string) \<Rightarrow> status_code \<Rightarrow> string \<Rightarrow> upload_error" where
  "from_status status_display s body =
     (let e = Msg (''remote upload failed with status '' @ status_display s @ '': '' @ body)
      in if status_is_permanent s then Permanent e else Transient e)"

section \<open>The loop (src/sync/retry.rs)\<close>

definition MIN_RETRY_DELAY :: duration where
  "MIN_RETRY_DELAY = duration_from_millis 1"

definition next_delay :: "duration \<Rightarrow> duration \<Rightarrow> duration" where
  "next_delay max_delay delay =
     min (case duration_checked_mul delay 2 of Some d \<Rightarrow> d | None \<Rightarrow> max_delay) max_delay"

text \<open>\<open>Instant::elapsed\<close> is zero when the clock reads before the start, as \<open>-\<close> on \<open>nat\<close> is.\<close>

partial_function (option) retry_loop ::
  "('w \<Rightarrow> nat) \<Rightarrow> (duration \<Rightarrow> 'w \<Rightarrow> 'w) \<Rightarrow> ('w \<Rightarrow> ('a, upload_error) result \<times> 'w) \<Rightarrow>
   (anyhow \<Rightarrow> duration \<Rightarrow> 'w \<Rightarrow> 'w) \<Rightarrow> nat \<Rightarrow> duration \<Rightarrow> duration \<Rightarrow> duration \<Rightarrow> 'w \<Rightarrow>
   (('a, anyhow) result \<times> 'w) option" where
  "retry_loop now sleep operation notify started_at max_delay max_elapsed delay w =
     (case operation w of
        (Ok v, w1) \<Rightarrow> Some (Ok v, w1)
      | (Err (Permanent e), w1) \<Rightarrow> Some (Err e, w1)
      | (Err (Transient e), w1) \<Rightarrow>
          (let elapsed = now w1 - started_at
           in if elapsed \<ge> max_elapsed then Some (Err e, w1)
              else let sleep_for = min delay (max_elapsed - elapsed)
                in retry_loop now sleep operation notify started_at max_delay max_elapsed
                     (next_delay max_delay delay) (sleep sleep_for (notify e sleep_for w1))))"

definition retry_transient ::
  "('w \<Rightarrow> nat) \<Rightarrow> (duration \<Rightarrow> 'w \<Rightarrow> 'w) \<Rightarrow> duration \<Rightarrow> duration \<Rightarrow> duration \<Rightarrow>
   ('w \<Rightarrow> ('a, upload_error) result \<times> 'w) \<Rightarrow> (anyhow \<Rightarrow> duration \<Rightarrow> 'w \<Rightarrow> 'w) \<Rightarrow> 'w \<Rightarrow>
   (('a, anyhow) result \<times> 'w) option" where
  "retry_transient now sleep initial_delay max_delay max_elapsed operation notify w =
     (let started_at = now w;
          delay = max initial_delay MIN_RETRY_DELAY;
          max_delay = max max_delay delay
      in retry_loop now sleep operation notify started_at max_delay max_elapsed delay w)"

section \<open>Specification: the attempts of one call\<close>

text \<open>
  \<open>retry_exec ... delay w ds r w'\<close>: starting with \<open>delay\<close> in \<open>w\<close>, the call sleeps the
  durations \<open>ds\<close> in turn (one attempt before each and one after the last) and ends with the
  result \<open>r\<close> in \<open>w'\<close>.
\<close>

inductive retry_exec ::
  "('w \<Rightarrow> nat) \<Rightarrow> (duration \<Rightarrow> 'w \<Rightarrow> 'w) \<Rightarrow> ('w \<Rightarrow> ('a, upload_error) result \<times> 'w) \<Rightarrow>
   (anyhow \<Rightarrow> duration \<Rightarrow> 'w \<Rightarrow> 'w) \<Rightarrow> nat \<Rightarrow> duration \<Rightarrow> duration \<Rightarrow> duration \<Rightarrow> 'w \<Rightarrow>
   duration list \<Rightarrow> ('a, anyhow) result \<Rightarrow> 'w \<Rightarrow> bool"
  for now sleep operation notify started_at max_delay max_elapsed where
  success: "operation w = (Ok v, w1) \<Longrightarrow>
     retry_exec now sleep operation notify started_at max_delay max_elapsed delay w [] (Ok v) w1"
| permanent: "operation w = (Err (Permanent e), w1) \<Longrightarrow>
     retry_exec now sleep operation notify started_at max_delay max_elapsed delay w [] (Err e) w1"
| exhausted: "operation w = (Err (Transient e), w1) \<Longrightarrow> max_elapsed \<le> now w1 - started_at \<Longrightarrow>
     retry_exec now sleep operation notify started_at max_delay max_elapsed delay w [] (Err e) w1"
| again: "operation w = (Err (Transient e), w1) \<Longrightarrow> now w1 - started_at < max_elapsed \<Longrightarrow>
     d = min delay (max_elapsed - (now w1 - started_at)) \<Longrightarrow>
     retry_exec now sleep operation notify started_at max_delay max_elapsed
       (next_delay max_delay delay) (sleep d (notify e d w1)) ds r w2 \<Longrightarrow>
     retry_exec now sleep operation notify started_at max_delay max_elapsed delay w (d # ds) r w2"

text \<open>The delay before retry \<open>k\<close> is the initial one doubled \<open>k\<close> times, up to the cap.\<close>

definition backoff :: "duration \<Rightarrow> duration \<Rightarrow> nat \<Rightarrow> duration" where
  "backoff initial max_delay k = min (initial * 2 ^ k) max_delay"

section \<open>Lemmas\<close>

lemma MIN_RETRY_DELAY_eq: "MIN_RETRY_DELAY = 1000000"
  by (simp add: MIN_RETRY_DELAY_def duration_from_millis_def)

lemma next_delay_eq:
  assumes "max_delay \<le> DURATION_MAX"
  shows "next_delay max_delay d = min (2 * d) max_delay"
  using assms by (auto simp: next_delay_def duration_checked_mul_def min_def)

lemma next_delay_pos: "0 < d \<Longrightarrow> 0 < max_delay \<Longrightarrow> 0 < next_delay max_delay d"
  by (auto simp: next_delay_def duration_checked_mul_def)

lemma next_delay_backoff:
  assumes "max_delay \<le> DURATION_MAX"
  shows "(next_delay max_delay ^^ k) (min d max_delay) = backoff d max_delay k"
proof (induction k)
  case 0
  show ?case by (simp add: backoff_def)
next
  case (Suc k)
  have "(next_delay max_delay ^^ Suc k) (min d max_delay) =
      next_delay max_delay (backoff d max_delay k)"
    using Suc.IH by simp
  also have "\<dots> = backoff d max_delay (Suc k)"
    by (auto simp: next_delay_eq [OF assms] backoff_def min_def)
  finally show ?case .
qed

lemma next_delay_lower: "m \<le> d \<Longrightarrow> m \<le> max_delay \<Longrightarrow> m \<le> next_delay max_delay d"
  by (auto simp: next_delay_def duration_checked_mul_def)

lemma retry_loop_step:
  "retry_loop now sleep operation notify s md me d w =
     (case operation w of
        (Ok v, w1) \<Rightarrow> Some (Ok v, w1)
      | (Err (Permanent e), w1) \<Rightarrow> Some (Err e, w1)
      | (Err (Transient e), w1) \<Rightarrow>
          if me \<le> now w1 - s then Some (Err e, w1)
          else let t = min d (me - (now w1 - s))
            in retry_loop now sleep operation notify s md me (next_delay md d)
                 (sleep t (notify e t w1)))"
  by (subst retry_loop.simps) (simp add: Let_def split: prod.splits result.splits upload_error.splits)

inductive_cases retry_exec_Nil:
  "retry_exec now sleep operation notify s md me d w [] r w2"
inductive_cases retry_exec_Cons:
  "retry_exec now sleep operation notify s md me d w (x # ds) r w2"

lemma retry_exec_loop:
  assumes "retry_exec now sleep operation notify s md me d w ds r w2"
  shows "retry_loop now sleep operation notify s md me d w = Some (r, w2)"
  using assms
proof (induction rule: retry_exec.induct)
  case (again w e w1 t delay ds r w2)
  then show ?case
    by (subst retry_loop_step) (simp add: Let_def)
qed (subst retry_loop_step, simp)+

section \<open>What the loop relies on, and what follows\<close>

locale retry_env =
  fixes now :: "'w \<Rightarrow> nat"
    and sleep :: "duration \<Rightarrow> 'w \<Rightarrow> 'w"
    and operation :: "'w \<Rightarrow> ('a, upload_error) result \<times> 'w"
    and notify :: "anyhow \<Rightarrow> duration \<Rightarrow> 'w \<Rightarrow> 'w"
  assumes operation_clock: "now w \<le> now (snd (operation w))"
    and notify_clock: "now w \<le> now (notify e d w)"
    and sleep_clock: "now w + d \<le> now (sleep d w)"
begin

lemma attempt_clock: "operation w = (x, w1) \<Longrightarrow> now w \<le> now w1"
  using operation_clock [of w] by simp

lemma pause_clock: "now w + d \<le> now (sleep d (notify e d w))"
  using notify_clock [of w e d] sleep_clock [of "notify e d w" d] by linarith

lemma exec_total:
  assumes "0 < d" and "0 < md"
  shows "\<exists>ds r w2. retry_exec now sleep operation notify s md me d w ds r w2"
  using assms
proof (induction "s + me - now w" arbitrary: d w rule: less_induct)
  case less
  obtain x w1 where x: "operation w = (x, w1)" by fastforce
  show ?case
  proof (cases x)
    case (Ok v)
    with x show ?thesis by (blast intro: retry_exec.success)
  next
    case (Err u)
    show ?thesis
    proof (cases u)
      case (Permanent e)
      with x Err show ?thesis by (blast intro: retry_exec.permanent)
    next
      case (Transient e)
      with x Err have op: "operation w = (Err (Transient e), w1)" by simp
      show ?thesis
      proof (cases "me \<le> now w1 - s")
        case True
        with op show ?thesis by (blast intro: retry_exec.exhausted)
      next
        case False
        define t where "t = min d (me - (now w1 - s))"
        with False less.prems have "0 < t" by simp
        moreover have "now w \<le> now w1" using op by (rule attempt_clock)
        ultimately have "s + me - now (sleep t (notify e t w1)) < s + me - now w"
          using False pause_clock [of w1 t e] by linarith
        then have "\<exists>ds r w2. retry_exec now sleep operation notify s md me (next_delay md d)
            (sleep t (notify e t w1)) ds r w2"
          using less.prems by (intro less.hyps) (auto intro: next_delay_pos)
        with op False t_def show ?thesis by (meson not_le retry_exec.again)
      qed
    qed
  qed
qed

lemma exec_spent:
  assumes "retry_exec now sleep operation notify s md me d w ds r w2" and "me \<le> now w - s"
  shows "ds = []"
  using assms(1)
proof cases
  case (again e w1 t ds')
  then show ?thesis using assms(2) attempt_clock [OF again(2)] by linarith
qed auto

lemma exec_sleep_sum:
  assumes "retry_exec now sleep operation notify s md me d w ds r w2" and "s \<le> now w"
  shows "sum_list ds \<le> me - (now w - s)"
  using assms
proof (induction rule: retry_exec.induct)
  case (again w e w1 t delay ds r w2)
  have "now w \<le> now w1" using again.hyps(1) by (rule attempt_clock)
  moreover have "now w1 + t \<le> now (sleep t (notify e t w1))" by (rule pause_clock)
  ultimately have "sum_list ds \<le> me - (now (sleep t (notify e t w1)) - s)"
    using again.IH again.prems by simp
  moreover have "t \<le> me - (now w1 - s)" using again.hyps(3) by simp
  ultimately have "t + sum_list ds \<le> me - (now w - s)"
    using again.prems again.hyps(2) \<open>now w \<le> now w1\<close> \<open>now w1 + t \<le> _\<close> by linarith
  then show ?case by simp
qed auto

lemma exec_count:
  assumes "retry_exec now sleep operation notify s md me d w ds r w2" and "s \<le> now w"
    and "m \<le> d" and "m \<le> md"
  shows "length ds * m \<le> me - (now w - s) + m"
  using assms
proof (induction rule: retry_exec.induct)
  case (again w e w1 t delay ds r w2)
  let ?w2 = "sleep t (notify e t w1)"
  have w: "now w \<le> now w1" using again.hyps(1) by (rule attempt_clock)
  have p: "now w1 + t \<le> now ?w2" by (rule pause_clock)
  show ?case
  proof (cases "delay \<le> me - (now w1 - s)")
    case True
    with again.hyps(3) have t: "t = delay" by simp
    have "length ds * m \<le> me - (now ?w2 - s) + m"
      using again w p by (intro again.IH) (auto intro: next_delay_lower)
    with t w p again.prems True show ?thesis by auto
  next
    case False
    then have "t = me - (now w1 - s)" using again.hyps(3) by simp
    then have "me \<le> now ?w2 - s" using p w again.prems(1) again.hyps(2) by linarith
    then have "ds = []" using again.hyps(4) by (rule exec_spent [rotated])
    then show ?thesis by simp
  qed
qed auto

lemma exec_delay_upper:
  assumes "retry_exec now sleep operation notify s md me d w ds r w2" and "k < length ds"
  shows "ds ! k \<le> (next_delay md ^^ k) d"
  using assms
proof (induction arbitrary: k rule: retry_exec.induct)
  case (again w e w1 t delay ds r w2)
  then show ?case by (cases k) (auto simp: funpow_swap1)
qed auto

lemma exec_delay_full:
  assumes "retry_exec now sleep operation notify s md me d w ds r w2" and "s \<le> now w"
    and "Suc k < length ds"
  shows "ds ! k = (next_delay md ^^ k) d"
  using assms
proof (induction arbitrary: k rule: retry_exec.induct)
  case (again w e w1 t delay ds r w2)
  let ?w2 = "sleep t (notify e t w1)"
  have w: "now w \<le> now w1" using again.hyps(1) by (rule attempt_clock)
  have p: "now w1 + t \<le> now ?w2" by (rule pause_clock)
  have s2: "s \<le> now ?w2" using w p again.prems(1) by linarith
  show ?case
  proof (cases k)
    case 0
    have "ds \<noteq> []" using 0 again.prems(2) by auto
    then have "\<not> me \<le> now ?w2 - s" using again.hyps(4) exec_spent by blast
    moreover have "t = delay \<or> t = me - (now w1 - s)" using again.hyps(3) by linarith
    ultimately have "t = delay" using w p again.prems(1) again.hyps(2) by linarith
    with 0 show ?thesis by simp
  next
    case (Suc j)
    then show ?thesis using again.IH [OF s2, of j] again.prems(2) by (simp add: funpow_swap1)
  qed
qed auto

lemma transient_exec:
  "\<exists>ds r w2. retry_transient now sleep i md me operation notify w = Some (r, w2) \<and>
     retry_exec now sleep operation notify (now w) (max md (max i MIN_RETRY_DELAY)) me
       (max i MIN_RETRY_DELAY) w ds r w2"
proof -
  obtain ds r w2 where "retry_exec now sleep operation notify (now w)
      (max md (max i MIN_RETRY_DELAY)) me (max i MIN_RETRY_DELAY) w ds r w2"
    using exec_total [of "max i MIN_RETRY_DELAY" "max md (max i MIN_RETRY_DELAY)" "now w" me w]
      MIN_RETRY_DELAY_eq by fastforce
  from this retry_exec_loop [OF this] show ?thesis
    unfolding retry_transient_def Let_def by blast
qed

lemma transient_iff_exec:
  "retry_transient now sleep i md me operation notify w = Some (r, w2) \<longleftrightarrow>
     (\<exists>ds. retry_exec now sleep operation notify (now w) (max md (max i MIN_RETRY_DELAY)) me
       (max i MIN_RETRY_DELAY) w ds r w2)"
  using transient_exec [of i md me w] retry_exec_loop
  unfolding retry_transient_def Let_def by (metis option.inject prod.inject)

lemma transient_returns:
  "\<exists>r w2. retry_transient now sleep i md me operation notify w = Some (r, w2)"
  using transient_exec by blast

lemma exec_budget:
  assumes "retry_exec now sleep operation notify (now w) md me d w ds r w2"
    and "MIN_RETRY_DELAY \<le> d" and "d \<le> md" and "md \<le> DURATION_MAX"
  shows "sum_list ds \<le> me" and "length ds \<le> me div MIN_RETRY_DELAY + 1"
    and "\<forall>k < length ds. ds ! k \<le> backoff d md k"
    and "\<forall>k. Suc k < length ds \<longrightarrow> ds ! k = backoff d md k"
proof -
  have bo: "(next_delay md ^^ k) d = backoff d md k" for k
    using next_delay_backoff [OF assms(4), of k d] assms(3) by (simp add: min_def)
  show "sum_list ds \<le> me" using exec_sleep_sum [OF assms(1)] by simp
  have "length ds * MIN_RETRY_DELAY \<le> me + MIN_RETRY_DELAY"
    using exec_count [OF assms(1) _ assms(2)] assms(2,3) by simp
  then show "length ds \<le> me div MIN_RETRY_DELAY + 1"
    by (simp add: MIN_RETRY_DELAY_eq)
  show "\<forall>k < length ds. ds ! k \<le> backoff d md k"
    using exec_delay_upper [OF assms(1)] by (simp add: bo)
  show "\<forall>k. Suc k < length ds \<longrightarrow> ds ! k = backoff d md k"
    using exec_delay_full [OF assms(1)] by (simp add: bo)
qed

end

section \<open>Properties\<close>

text \<open>
  A small world for the witnesses: a clock and a number of attempts. The first two attempts
  fail transiently, the third succeeds, and each takes 5 ns.
\<close>

definition demo_operation :: "nat \<times> nat \<Rightarrow> (nat, upload_error) result \<times> (nat \<times> nat)" where
  "demo_operation w =
     (if snd w < 2 then Err (Transient (Msg ''down'')) else Ok (snd w), (fst w + 5, snd w + 1))"

definition demo_sleep :: "duration \<Rightarrow> nat \<times> nat \<Rightarrow> nat \<times> nat" where
  "demo_sleep d w = (fst w + d, snd w)"

definition demo_notify :: "anyhow \<Rightarrow> duration \<Rightarrow> nat \<times> nat \<Rightarrow> nat \<times> nat" where
  "demo_notify e d w = w"

lemma demo_env: "retry_env fst demo_sleep demo_operation demo_notify"
  by unfold_locales (simp_all add: demo_operation_def demo_sleep_def demo_notify_def)

text \<open>
  C6: the retry loop always returns, for every operation, notification and configuration:
  with a clock that never runs backwards and sleeps that last at least as long as asked,
  \<open>retry_transient\<close> returns, and what it returns is exactly what the attempt relation
  \<open>retry_exec\<close> (success and permanent failures end the call at once, a transient failure
  ends it when the budget is spent and otherwise sleeps and tries again) allows.
\<close>

theorem retry_transient_returns_spec:
  assumes "retry_env now sleep operation notify"
  shows "(\<exists>r w2. retry_transient now sleep i md me operation notify w = Some (r, w2)) \<and>
    (\<forall>r w2. retry_transient now sleep i md me operation notify w = Some (r, w2) \<longleftrightarrow>
      (\<exists>ds. retry_exec now sleep operation notify (now w) (max md (max i MIN_RETRY_DELAY)) me
        (max i MIN_RETRY_DELAY) w ds r w2))"
  using retry_env.transient_returns [OF assms] retry_env.transient_iff_exec [OF assms] by blast

theorem retry_transient_returns_spec_witness:
  "\<exists>r w2. retry_transient fst demo_sleep 1000000 2000000 50000000 demo_operation demo_notify (0, 0)
      = Some (r, w2)"
  using retry_transient_returns_spec [OF demo_env] by blast

text \<open>
  C5: the back-off budget. Every call sleeps at most the configured elapsed budget in total,
  retries at most once per millisecond of the budget plus once, never waits longer before
  retry \<open>k\<close> than the initial delay doubled \<open>k\<close> times and capped, and waits exactly that long
  before every retry but the last.
\<close>

theorem retry_transient_budget:
  assumes env: "retry_env now sleep operation notify"
    and i: "i \<le> DURATION_MAX" and md: "md \<le> DURATION_MAX"
    and run: "retry_transient now sleep i md me operation notify w = Some (r, w2)"
  shows "\<exists>ds. retry_exec now sleep operation notify (now w) (max md (max i MIN_RETRY_DELAY)) me
        (max i MIN_RETRY_DELAY) w ds r w2 \<and>
      sum_list ds \<le> me \<and> length ds \<le> me div MIN_RETRY_DELAY + 1 \<and>
      (\<forall>k < length ds.
        ds ! k \<le> backoff (max i MIN_RETRY_DELAY) (max md (max i MIN_RETRY_DELAY)) k) \<and>
      (\<forall>k. Suc k < length ds \<longrightarrow>
        ds ! k = backoff (max i MIN_RETRY_DELAY) (max md (max i MIN_RETRY_DELAY)) k)"
proof -
  obtain ds where ds: "retry_exec now sleep operation notify (now w)
      (max md (max i MIN_RETRY_DELAY)) me (max i MIN_RETRY_DELAY) w ds r w2"
    using run retry_env.transient_iff_exec [OF env] by blast
  have "max md (max i MIN_RETRY_DELAY) \<le> DURATION_MAX"
    using i md by (simp add: MIN_RETRY_DELAY_eq DURATION_MAX_def)
  then show ?thesis using ds retry_env.exec_budget [OF env ds] by auto
qed

theorem retry_transient_budget_witness:
  "\<exists>ds. retry_exec fst demo_sleep demo_operation demo_notify 0 2000000 50000000 1000000
        (0, 0) ds (Ok 2) (3000015, 3) \<and> sum_list ds \<le> 50000000"
proof -
  have run: "retry_transient fst demo_sleep 1000000 2000000 50000000 demo_operation demo_notify
      (0, 0) = Some (Ok 2, (3000015, 3))"
    by (simp add: retry_transient_def retry_loop.simps demo_operation_def demo_sleep_def
        demo_notify_def MIN_RETRY_DELAY_eq next_delay_def duration_checked_mul_def DURATION_MAX_def)
  have b: "(1000000::nat) \<le> DURATION_MAX" "(2000000::nat) \<le> DURATION_MAX"
    by (simp_all add: DURATION_MAX_def)
  show ?thesis
    using retry_transient_budget [OF demo_env b run]
    by (simp add: MIN_RETRY_DELAY_eq) blast
qed

end
