(* ===== verification/Upload_Http.thy ===== *)
theory Upload_Http
  imports Retry Json
begin

text \<open>
  What the two synchronisation engines share: the outcome of a cycle (src/sync/mod.rs), the
  HTTP exchange as reqwest offers it, and the world a cycle runs in.

  \<open>'s world\<close> holds the data source of type \<open>'s\<close> (the SQLite cache or SQL Server), the
  monotonic clock, the wall clock as a function of it, the requests sent so far and the
  retries reported. The remote endpoint is an arbitrary function of all the requests sent so
  far, so it may keep any state of its own, refuse, fail or answer anything. Each request
  takes \<open>latency\<close> and each sleep lasts \<open>oversleep\<close> longer than asked; both are arbitrary.
\<close>

section \<open>The outcome of a cycle (src/sync/mod.rs)\<close>

record sync_outcome =
  fetched :: usize
  synced :: usize
  failed :: usize
  marked_uploaded :: "bool option"
  no_data :: bool

definition outcome_no_data :: sync_outcome where
  "outcome_no_data =
     \<lparr>fetched = 0, synced = 0, failed = 0, marked_uploaded = None, no_data = True\<rparr>"

section \<open>Requests and replies\<close>

record http_request =
  rq_url :: string
  rq_headers :: "(string \<times> string) list"
  rq_body :: "(string, string) result"

text \<open>A response: its status and what reading the body yields.\<close>

record http_response =
  rs_status :: status_code
  rs_body :: "(string, string) result"

text \<open>
  The libraries: \<open>to_vec\<close> and \<open>from_str\<close> are serde_json's printer and parser, \<open>gz_write\<close> and
  \<open>gz_finish\<close> flate2's encoder, \<open>status_display\<close> the \<open>Display\<close> of \<open>StatusCode\<close> and \<open>ser_time\<close>
  the text chrono serialises a time to. \<open>compression\<close> is the cargo feature.
\<close>

record http_lib =
  to_vec :: "json \<Rightarrow> (string, string) result"
  from_str :: "string \<Rightarrow> (json, string) result"
  gz_write :: "string \<Rightarrow> (string, string) result"
  gz_finish :: "string \<Rightarrow> (string, string) result"
  status_display :: "status_code \<Rightarrow> string"
  ser_time :: "datetime \<Rightarrow> string"
  compression :: bool

definition http_post :: "string \<Rightarrow> http_request" where
  "http_post u = \<lparr>rq_url = u, rq_headers = [], rq_body = Ok []\<rparr>"

definition with_header :: "string \<Rightarrow> string \<Rightarrow> http_request \<Rightarrow> http_request" where
  "with_header k v rq = rq\<lparr>rq_headers := rq_headers rq @ [(k, v)]\<rparr>"

definition bearer_auth :: "string \<Rightarrow> http_request \<Rightarrow> http_request" where
  "bearer_auth token = with_header ''authorization'' (''Bearer '' @ token)"

text \<open>\<open>RequestBuilder::json\<close>: a serialisation error is kept and reported by \<open>send\<close>.\<close>

definition json_body :: "http_lib \<Rightarrow> json \<Rightarrow> http_request \<Rightarrow> http_request" where
  "json_body lib payload rq =
     (with_header ''content-type'' ''application/json'' rq)\<lparr>rq_body := to_vec lib payload\<rparr>"

text \<open>
  \<open>build_payload_request\<close> is the same code in both engines up to the words of the contexts:
  with \<open>compression\<close> the body is the gzip of the JSON text, else the text.
\<close>

definition build_payload_request ::
  "http_lib \<Rightarrow> string \<Rightarrow> string \<Rightarrow> string \<Rightarrow> http_request \<Rightarrow> json \<Rightarrow> (http_request, anyhow) result"
where
  "build_payload_request lib ser_ctx gz_ctx fin_ctx rq payload =
     (if \<not> compression lib then Ok (json_body lib payload rq)
      else
        and_then (context_err ser_ctx (map_err Msg (to_vec lib payload))) (\<lambda>text.
        and_then (context_err gz_ctx (map_err Msg (gz_write lib text))) (\<lambda>enc.
        and_then (context_err fin_ctx (map_err Msg (gz_finish lib enc))) (\<lambda>compressed.
          Ok ((with_header ''content-type'' ''application/json''
                (with_header ''content-encoding'' ''gzip'' rq))\<lparr>rq_body := Ok compressed\<rparr>)))))"

section \<open>The world\<close>

record 's world =
  clock :: nat
  wall :: "nat \<Rightarrow> datetime"
  latency :: "nat \<Rightarrow> nat"
  oversleep :: "nat \<Rightarrow> nat"
  remote :: "http_request list \<Rightarrow> (http_response, string) result"
  sent :: "http_request list"
  retry_log :: "(anyhow \<times> duration) list"
  source_of :: 's

definition utc_now :: "'s world \<Rightarrow> datetime" where
  "utc_now w = wall w (clock w)"

definition sleep :: "duration \<Rightarrow> 's world \<Rightarrow> 's world" where
  "sleep d w = w\<lparr>clock := clock w + d + oversleep w (clock w)\<rparr>"

definition log_retry :: "anyhow \<Rightarrow> duration \<Rightarrow> 's world \<Rightarrow> 's world" where
  "log_retry e d w = w\<lparr>retry_log := retry_log w @ [(e, d)]\<rparr>"

definition http_send ::
  "http_request \<Rightarrow> 's world \<Rightarrow> (http_response, string) result \<times> 's world" where
  "http_send rq w =
     (case rq_body rq of
        Err m \<Rightarrow> (Err m, w)
      | Ok _ \<Rightarrow>
          let history = sent w @ [rq]
          in (remote w history,
              w\<lparr>sent := history, clock := clock w + latency w (length (sent w))\<rparr>))"

text \<open>A statement of the data source, run in the world.\<close>

definition on_source :: "('s \<Rightarrow> 'a \<times> 's) \<Rightarrow> 's world \<Rightarrow> 'a \<times> 's world" where
  "on_source f w = (case f (source_of w) of (x, s) \<Rightarrow> (x, w\<lparr>source_of := s\<rparr>))"

section \<open>Derived deserialisation\<close>

text \<open>
  serde's derived \<open>Deserialize\<close> of a struct whose fields all have defaults, on a JSON value: a
  field that is absent takes its default, one that is present must convert, and unknown
  fields are ignored. serde_json also accepts an array with the fields in order.
\<close>

definition de_field ::
  "(json \<Rightarrow> ('a, string) result) \<Rightarrow> 'a \<Rightarrow> string \<Rightarrow> nat \<Rightarrow> json \<Rightarrow> ('a, string) result" where
  "de_field conv dflt name pos j =
     (case j of
        JObject m \<Rightarrow> (case map_of m name of Some v \<Rightarrow> conv v | None \<Rightarrow> Ok dflt)
      | JArray xs \<Rightarrow> (if pos < length xs then conv (xs ! pos) else Ok dflt)
      | _ \<Rightarrow> Err ''invalid type, expected struct'')"

definition de_string :: "json \<Rightarrow> (string, string) result" where
  "de_string j = (case j of JString s \<Rightarrow> Ok s | _ \<Rightarrow> Err ''invalid type, expected a string'')"

definition de_vec :: "(json \<Rightarrow> ('a, string) result) \<Rightarrow> json \<Rightarrow> ('a list, string) result" where
  "de_vec conv j =
     (case j of JArray xs \<Rightarrow> collect (map conv xs) | _ \<Rightarrow> Err ''invalid type, expected a sequence'')"

text \<open>A struct of two such fields; an array with more elements than fields is refused.\<close>

definition de_two_vecs ::
  "(json \<Rightarrow> ('a, string) result) \<Rightarrow> string \<Rightarrow> string \<Rightarrow> json \<Rightarrow> ('a list \<times> 'a list, string) result"
where
  "de_two_vecs conv n1 n2 j =
     and_then (de_field (de_vec conv) [] n1 0 j) (\<lambda>a.
     and_then (de_field (de_vec conv) [] n2 1 j) (\<lambda>b.
       case j of
         JArray xs \<Rightarrow> (if length xs \<le> 2 then Ok (a, b) else Err ''trailing elements'')
       | _ \<Rightarrow> Ok (a, b)))"

section \<open>Lemmas\<close>

lemma on_source_eq: "f (source_of w) = (x, s) \<Longrightarrow> on_source f w = (x, w\<lparr>source_of := s\<rparr>)"
  by (simp add: on_source_def)

lemma on_source_iff:
  "on_source f w = (x, w') \<longleftrightarrow> (\<exists>s. f (source_of w) = (x, s) \<and> w' = w\<lparr>source_of := s\<rparr>)"
  by (auto simp: on_source_def split: prod.splits)

text \<open>The parts of the world a step leaves alone.\<close>

definition same_env :: "'s world \<Rightarrow> 's world \<Rightarrow> bool" where
  "same_env a b \<longleftrightarrow>
     wall b = wall a \<and> latency b = latency a \<and> oversleep b = oversleep a \<and>
     remote b = remote a \<and> clock a \<le> clock b \<and> (\<exists>rqs. sent b = sent a @ rqs)"

definition same_source :: "'s world \<Rightarrow> 's world \<Rightarrow> bool" where
  "same_source a b \<longleftrightarrow> same_env a b \<and> source_of b = source_of a"

lemma same_env_refl [simp]: "same_env w w"
  by (simp add: same_env_def)

lemma same_env_trans: "same_env a b \<Longrightarrow> same_env b c \<Longrightarrow> same_env a c"
  by (fastforce simp: same_env_def)

lemma same_source_refl [simp]: "same_source w w"
  by (simp add: same_source_def)

lemma same_source_trans: "same_source a b \<Longrightarrow> same_source b c \<Longrightarrow> same_source a c"
  using same_env_trans by (auto simp: same_source_def)

lemma sleep_same [simp]: "same_source w (sleep d w)"
  by (simp add: same_source_def same_env_def sleep_def)

lemma log_retry_same [simp]: "same_source w (log_retry e d w)"
  by (simp add: same_source_def same_env_def log_retry_def)

lemma http_send_same: "http_send rq w = (x, w') \<Longrightarrow> same_source w w'"
  by (auto simp: http_send_def same_source_def same_env_def Let_def split: result.splits)

lemma set_source_env [simp]: "same_env w (w\<lparr>source_of := s\<rparr>)"
  by (simp add: same_env_def)

lemma utc_now_set_source [simp]: "utc_now (w\<lparr>source_of := s\<rparr>) = utc_now w"
  by (simp add: utc_now_def)

text \<open>Payloads that can be written, and an endpoint that cannot be reached.\<close>

definition serialises :: "http_lib \<Rightarrow> bool" where
  "serialises lib \<longleftrightarrow>
     (\<forall>j. is_ok (to_vec lib j)) \<and> (\<forall>s. is_ok (gz_write lib s)) \<and> (\<forall>s. is_ok (gz_finish lib s))"

definition unreachable :: "'s world \<Rightarrow> bool" where
  "unreachable w \<longleftrightarrow> (\<forall>h. \<not> is_ok (remote w h))"

lemma build_payload_request_ok:
  assumes "serialises lib"
  shows "\<exists>rq' body. build_payload_request lib c1 c2 c3 rq j = Ok rq' \<and> rq_body rq' = Ok body"
proof -
  have ok: "\<exists>v. to_vec lib a = Ok v" "\<exists>v. gz_write lib b = Ok v" "\<exists>v. gz_finish lib c = Ok v"
    for a b c
    using assms by (auto simp: serialises_def is_ok_iff)
  obtain t where t: "to_vec lib j = Ok t" using ok(1) by blast
  obtain u where u: "gz_write lib t = Ok u" using ok(2) by blast
  obtain v where v: "gz_finish lib u = Ok v" using ok(3) by blast
  show ?thesis by (simp add: build_payload_request_def json_body_def t u v)
qed

text \<open>An upload that only talks HTTP meets what the retry loop relies on.\<close>

locale http_upload =
  fixes upload :: "'s world \<Rightarrow> ('a, upload_error) result \<times> 's world"
  assumes upload_same: "upload w = (x, w') \<Longrightarrow> same_source w w'"

sublocale http_upload \<subseteq> retrying: retry_env clock sleep upload log_retry
proof
  fix w :: "'s world" and d e
  have "same_source w (snd (upload w))" using upload_same by (metis prod.collapse)
  then show "clock w \<le> clock (snd (upload w))" by (simp add: same_source_def same_env_def)
  show "clock w \<le> clock (log_retry e d w)" by (simp add: log_retry_def)
  show "clock w + d \<le> clock (sleep d w)" by (simp add: sleep_def)
qed

context http_upload
begin

lemma exec_same:
  assumes "retry_exec clock sleep upload log_retry s md me d w ds r w'"
  shows "same_source w w'"
  using assms
proof (induction rule: retry_exec.induct)
  case (again w e w1 t delay ds r w2)
  have "same_source w1 (sleep t (log_retry e t w1))"
    using same_source_trans [OF log_retry_same sleep_same] .
  then show ?case using again.IH upload_same [OF again.hyps(1)] same_source_trans by blast
qed (use upload_same in blast)+

text \<open>The call returns and leaves the data source alone.\<close>

lemma retry_returns:
  "\<exists>r w'. retry_transient clock sleep i md me upload log_retry w = Some (r, w') \<and> same_source w w'"
  using retrying.transient_exec [of i md me w] exec_same by blast

lemma retry_same:
  "retry_transient clock sleep i md me upload log_retry w = Some (r, w') \<Longrightarrow> same_source w w'"
  using retry_returns [of i md me w] by auto

text \<open>A success is the success of the last attempt.\<close>

lemma exec_Ok:
  assumes "retry_exec clock sleep upload log_retry s md me d w ds (Ok v) w'"
  shows "\<exists>w1. same_source w w1 \<and> upload w1 = (Ok v, w')"
  using assms
proof (induction "Ok v :: ('a, anyhow) result" w' rule: retry_exec.induct)
  case (success w w1 delay)
  then show ?case by (intro exI [of _ w]) simp
next
  case (again w e w1 t delay ds w2)
  have "same_source w1 (sleep t (log_retry e t w1))"
    using same_source_trans [OF log_retry_same sleep_same] .
  then show ?case using again.hyps(5) upload_same [OF again.hyps(1)] same_source_trans by blast
qed

lemma retry_Ok:
  "retry_transient clock sleep i md me upload log_retry w = Some (Ok v, w') \<Longrightarrow>
     \<exists>w1. same_source w w1 \<and> upload w1 = (Ok v, w')"
  using retrying.transient_iff_exec exec_Ok by blast

text \<open>A failure is the failure of the last attempt.\<close>

lemma exec_Err:
  assumes "retry_exec clock sleep upload log_retry s md me d w ds (Err x) w'"
  shows "\<exists>w1. same_source w w1 \<and>
    (upload w1 = (Err (Permanent x), w') \<or> upload w1 = (Err (Transient x), w'))"
  using assms
proof (induction "Err x :: ('a, anyhow) result" w' rule: retry_exec.induct)
  case (again w e w1 t delay ds w2)
  have "same_source w1 (sleep t (log_retry e t w1))"
    using same_source_trans [OF log_retry_same sleep_same] .
  then show ?case using again.hyps(5) upload_same [OF again.hyps(1)] same_source_trans by blast
qed (use same_source_refl in blast)+

lemma retry_Err:
  "retry_transient clock sleep i md me upload log_retry w = Some (Err x, w') \<Longrightarrow>
     \<exists>w1. same_source w w1 \<and>
       (upload w1 = (Err (Permanent x), w') \<or> upload w1 = (Err (Transient x), w'))"
  using retrying.transient_iff_exec exec_Err by blast

text \<open>A permanent failure is not retried.\<close>

lemma retry_permanent:
  "upload w = (Err (Permanent x), w') \<Longrightarrow>
     retry_transient clock sleep i md me upload log_retry w = Some (Err x, w')"
  unfolding retrying.transient_iff_exec by (blast intro: retry_exec.permanent)

text \<open>An upload whose first attempt succeeds is called once.\<close>

lemma retry_first:
  "upload w = (Ok v, w') \<Longrightarrow>
     retry_transient clock sleep i md me upload log_retry w = Some (Ok v, w')"
  unfolding retrying.transient_iff_exec by (blast intro: retry_exec.success)

end

section \<open>Draining a source batch by batch\<close>

text \<open>
  A cycle that takes a full batch off the backlog each time empties it; \<open>good\<close> is what the
  cycle needs and keeps.
\<close>

locale batch_drain =
  fixes good :: "'w \<Rightarrow> bool"
    and cycle :: "'w \<Rightarrow> 'w"
    and backlog :: "'w \<Rightarrow> nat"
    and batch :: nat
  assumes good_step: "good w \<Longrightarrow> good (cycle w)"
    and backlog_step: "good w \<Longrightarrow> backlog (cycle w) \<le> backlog w - batch"
begin

lemma backlog_after:
  "good w \<Longrightarrow> good ((cycle ^^ n) w) \<and> backlog ((cycle ^^ n) w) \<le> backlog w - n * batch"
proof (induction n)
  case (Suc n)
  then have g: "good ((cycle ^^ n) w)" and b: "backlog ((cycle ^^ n) w) \<le> backlog w - n * batch"
    by simp_all
  have "backlog (cycle ((cycle ^^ n) w)) \<le> backlog w - n * batch - batch"
    using backlog_step [OF g] b by linarith
  then show ?case using good_step [OF g] by simp
qed simp

lemma drained: "good w \<Longrightarrow> backlog w \<le> n * batch \<Longrightarrow> backlog ((cycle ^^ n) w) = 0"
  using backlog_after [of w n] by simp

end

end
