(* ===== verification/Sql_Server_Engine.thy ===== *)
theory Sql_Server_Engine
  imports Sql_Server_Source Upload_Http
begin

text \<open>
  The synchronisation engine of SQL Server (src/sync/sqlserver_engine.rs): the upload of a
  batch of rows, the cycle with its retries and the write-back of the upload flag, and the
  refinement of a cycle to changes of the table.
\<close>

section \<open>Data\<close>

record sql_libs =
  sq_env :: tds_env
  sq_http :: http_lib

record sqlserver_engine =
  sq_api :: api_config
  sq_sync :: sync_config
  sq_source :: sqlserver_source

record sqlserver_upload_request =
  su_source :: string
  su_database :: string
  su_table :: string
  su_uploaded_at :: datetime
  su_records :: "json_map list"

record sqlserver_upload_response =
  accepted_serial_nos :: "string list"
  failed_serial_nos :: "string list"

definition response_default :: sqlserver_upload_response where
  "response_default = \<lparr>accepted_serial_nos = [], failed_serial_nos = []\<rparr>"

definition sqlserver_request_json :: "http_lib \<Rightarrow> sqlserver_upload_request \<Rightarrow> json" where
  "sqlserver_request_json lib p =
     json_object
       [(''source'', JString (su_source p)),
        (''database'', JString (su_database p)),
        (''table'', JString (su_table p)),
        (''uploaded_at'', JString (ser_time lib (su_uploaded_at p))),
        (''records'', JArray (map JObject (su_records p)))]"

definition sqlserver_response_de :: "json \<Rightarrow> (sqlserver_upload_response, string) result" where
  "sqlserver_response_de j =
     and_then (de_two_vecs de_string ''accepted_serial_nos'' ''failed_serial_nos'' j)
       (\<lambda>(a, f). Ok \<lparr>accepted_serial_nos = a, failed_serial_nos = f\<rparr>)"

section \<open>The engine\<close>

definition sqlserver_engine_new ::
  "(duration \<Rightarrow> (unit, string) result) \<Rightarrow> api_config \<Rightarrow> sync_config \<Rightarrow> sqlserver_source \<Rightarrow>
   (sqlserver_engine, anyhow) result" where
  "sqlserver_engine_new build_client a s src =
     and_then (context_err ''failed to build HTTP client'' (map_err Msg (build_client (timeout a))))
       (\<lambda>_. Ok \<lparr>sq_api = a, sq_sync = s, sq_source = src\<rparr>)"

text \<open>What a response means.\<close>

definition sqlserver_read_reply ::
  "http_lib \<Rightarrow> http_response \<Rightarrow> (sqlserver_upload_response, upload_error) result" where
  "sqlserver_read_reply lib response =
     (if rs_status response = 204 then Ok response_default
      else if \<not> is_success (rs_status response)
      then Err (from_status (status_display lib) (rs_status response)
        (case rs_body response of Ok body \<Rightarrow> body | Err _ \<Rightarrow> []))
      else case rs_body response of
        Err m \<Rightarrow> Err (Transient (Ctx ''failed to read SQL Server upload response body'' (Msg m)))
      | Ok body \<Rightarrow>
          if trim body = [] then Ok response_default
          else map_err Permanent (context_err ''failed to decode SQL Server upload response''
            (map_err Msg (and_then (from_str lib body) sqlserver_response_de))))"

definition sqlserver_build_payload_request ::
  "http_lib \<Rightarrow> http_request \<Rightarrow> sqlserver_upload_request \<Rightarrow> (http_request, anyhow) result" where
  "sqlserver_build_payload_request lib request payload =
     build_payload_request lib ''failed to serialize SQL Server upload payload''
       ''failed to gzip SQL Server upload payload'' ''failed to finalize SQL Server gzip payload''
       request (sqlserver_request_json lib payload)"

definition sqlserver_upload_batch ::
  "sql_libs \<Rightarrow> sqlserver_engine \<Rightarrow> json_map list \<Rightarrow> sql_server world \<Rightarrow>
   (sqlserver_upload_response, upload_error) result \<times> sql_server world" where
  "sqlserver_upload_batch L e records w =
     (let lib = sq_http L;
          payload = \<lparr>su_source = ''sqlserver-yunfu-tbl_weightInfo'',
            su_database = database_name (sq_source e), su_table = table_name (sq_source e),
            su_uploaded_at = utc_now w, su_records = records\<rparr>;
          request = http_post (endpoint (sq_api e));
          request = (case api_api_key (sq_api e) of
              Some api_key \<Rightarrow> bearer_auth api_key request | None \<Rightarrow> request)
      in case sqlserver_build_payload_request lib request payload of
           Err x \<Rightarrow> (Err (Permanent x), w)
         | Ok rq \<Rightarrow>
             (case http_send rq w of
                (Err m, w1) \<Rightarrow>
                  (Err (Transient (Ctx ''failed to send SQL Server upload request'' (Msg m))), w1)
              | (Ok response, w1) \<Rightarrow> (sqlserver_read_reply lib response, w1)))"

definition sqlserver_sync_once ::
  "sql_libs \<Rightarrow> sqlserver_engine \<Rightarrow> sql_server world \<Rightarrow>
   ((sync_outcome, anyhow) result \<times> sql_server world) option" where
  "sqlserver_sync_once L e w =
     (case on_source (source_fetch_pending (sq_env L) (sq_source e) (batch_size (sq_sync e))) w of
        (Err x, w1) \<Rightarrow> Some (Err x, w1)
      | (Ok records, w1) \<Rightarrow>
          if records = [] then Some (Ok outcome_no_data, w1)
          else
            let serial_nos = map sw_serial_no records;
                payload_records = map sw_data records
            in case retry_transient clock sleep (retry_initial_delay (sq_sync e))
                 (retry_max_delay (sq_sync e)) (retry_max_elapsed (sq_sync e))
                 (sqlserver_upload_batch L e payload_records) log_retry w1 of
                 None \<Rightarrow> None
               | Some (Err error, w2) \<Rightarrow>
                   Some (Err (Ctx ''SQL Server upload failed (permanent error or retry budget exhausted)''
                     error), w2)
               | Some (Ok response, w2) \<Rightarrow>
                   let acc = (if accepted_serial_nos response = [] \<and> failed_serial_nos response = []
                         then serial_nos else accepted_serial_nos response)
                   in Some (try_then
                        (if acc = [] then (Ok (mark_uploaded_enabled (sq_source e)), w2)
                         else try_then
                           (on_source (source_mark_uploaded (sq_env L) (sq_source e) acc) w2)
                           (\<lambda>_ w3. (Ok (mark_uploaded_enabled (sq_source e)), w3)))
                        (\<lambda>marked w3.
                          (Ok \<lparr>fetched = of_nat (length serial_nos), synced = of_nat (length acc),
                             failed = of_nat (length (failed_serial_nos response)),
                             marked_uploaded = Some marked, no_data = False\<rparr>, w3))))"

section \<open>Lemmas\<close>

lemmas sqlserver_upload_batch_eq =
  sqlserver_upload_batch_def [unfolded sqlserver_build_payload_request_def]

lemma sqlserver_upload_batch_same: "sqlserver_upload_batch L e rs w = (x, w') \<Longrightarrow> same_source w w'"
  by (auto simp: sqlserver_upload_batch_eq Let_def dest: http_send_same
      split: result.splits prod.splits)

interpretation row_upload: http_upload "sqlserver_upload_batch L e rs"
  by unfold_locales (rule sqlserver_upload_batch_same)

lemma sqlserver_upload_batch_Ok:
  assumes "sqlserver_upload_batch L e rs w = (Ok v, w')"
  shows "\<exists>rp. remote w (sent w') = Ok rp \<and> sqlserver_read_reply (sq_http L) rp = Ok v"
  using assms
  by (auto simp: sqlserver_upload_batch_eq http_send_def Let_def split: result.splits prod.splits)

section \<open>Specification: a cycle on the table\<close>

definition row_batch :: "nat \<Rightarrow> weight_info list \<Rightarrow> string list \<Rightarrow> bool" where
  "row_batch n rows serials \<longleftrightarrow>
     serials \<noteq> [] \<and>
     (\<exists>taken left. mset (filter row_pending rows) = mset taken + mset left \<and>
        serials = map serial_no taken \<and> length taken = min n (length (filter row_pending rows)))"

definition accepted_serials :: "string list \<Rightarrow> sqlserver_upload_response \<Rightarrow> string list" where
  "accepted_serials serials response =
     (if accepted_serial_nos response = [] \<and> failed_serial_nos response = [] then serials
      else accepted_serial_nos response)"

definition sqlserver_outcome ::
  "sqlserver_source \<Rightarrow> string list \<Rightarrow> sqlserver_upload_response \<Rightarrow> sync_outcome" where
  "sqlserver_outcome src serials response =
     \<lparr>fetched = of_nat (length serials),
      synced = of_nat (length (accepted_serials serials response)),
      failed = of_nat (length (failed_serial_nos response)),
      marked_uploaded = Some (mark_uploaded_enabled src), no_data = False\<rparr>"

text \<open>The rows after marking those that match one of the given serial numbers.\<close>

definition marked ::
  "tds_env \<Rightarrow> sqlserver_source \<Rightarrow> string list \<Rightarrow> weight_info list \<Rightarrow> weight_info list" where
  "marked env src ids rows =
     map (\<lambda>r. if mark_uploaded_enabled src \<and> serial_in env ids r then set_uploaded r else r) rows"

inductive table_cycle ::
  "(sqlserver_upload_response \<Rightarrow> bool) \<Rightarrow> tds_env \<Rightarrow> sqlserver_source \<Rightarrow> nat \<Rightarrow> weight_info list \<Rightarrow>
   (sync_outcome, anyhow) result \<Rightarrow> weight_info list \<Rightarrow> bool"
  for answered env src n rows where
  not_uploaded: "table_cycle answered env src n rows (Err x) rows"
| nothing: "n = 0 \<or> filter row_pending rows = [] \<Longrightarrow>
     table_cycle answered env src n rows (Ok outcome_no_data) rows"
| uploaded: "row_batch n rows serials \<Longrightarrow> answered response \<Longrightarrow>
     table_cycle answered env src n rows (Ok (sqlserver_outcome src serials response))
       (marked env src (accepted_serials serials response) rows)"
| partly_marked: "row_batch n rows serials \<Longrightarrow> answered response \<Longrightarrow>
     prefix ids (accepted_serials serials response) \<Longrightarrow>
     table_cycle answered env src n rows (Err x) (marked env src ids rows)"

definition reply_in :: "sql_libs \<Rightarrow> sql_server world \<Rightarrow> sqlserver_upload_response \<Rightarrow> bool" where
  "reply_in L w response \<longleftrightarrow>
     (\<exists>rp. remote w (sent w) = Ok rp \<and> sqlserver_read_reply (sq_http L) rp = Ok response)"

definition world_rows :: "sql_server world \<Rightarrow> weight_info list" where
  "world_rows w = weight_rows (source_of w)"

lemma world_rows_set [simp]: "world_rows (w\<lparr>source_of := s\<rparr>) = weight_rows s"
  by (simp add: world_rows_def)

lemma reply_in_set [simp]: "reply_in L (w\<lparr>source_of := s\<rparr>) = reply_in L w"
  by (simp add: reply_in_def fun_eq_iff)

lemma marked_Nil [simp]: "marked env src [] rows = rows"
  by (simp add: marked_def)

text \<open>What follows an answer.\<close>

definition mark_and_report ::
  "sql_libs \<Rightarrow> sqlserver_engine \<Rightarrow> string list \<Rightarrow> sqlserver_upload_response \<Rightarrow> sql_server world \<Rightarrow>
   (sync_outcome, anyhow) result \<times> sql_server world" where
  "mark_and_report L e serials response w =
     try_then (on_source (source_mark_uploaded (sq_env L) (sq_source e)
         (accepted_serials serials response)) w)
       (\<lambda>_ w1. (Ok (sqlserver_outcome (sq_source e) serials response), w1))"

lemma sync_once_answered:
  assumes f: "on_source (source_fetch_pending (sq_env L) (sq_source e) (batch_size (sq_sync e))) w =
      (Ok rs, w1)" and ne: "rs \<noteq> []"
    and r: "retry_transient clock sleep (retry_initial_delay (sq_sync e))
      (retry_max_delay (sq_sync e)) (retry_max_elapsed (sq_sync e))
      (sqlserver_upload_batch L e (map sw_data rs)) log_retry w1 = Some (Ok response, w2)"
  shows "sqlserver_sync_once L e w = Some (mark_and_report L e (map sw_serial_no rs) response w2)"
proof -
  let ?ss = "map sw_serial_no rs" and ?acc = "accepted_serials (map sw_serial_no rs) response"
  obtain x w3 where m: "on_source (source_mark_uploaded (sq_env L) (sq_source e) ?acc) w2 = (x, w3)"
    by (metis surj_pair)
  have em: "(x, w3) = (Ok (), w2)" if "?acc = []"
    using m that by (simp add: on_source_def source_mark_uploaded_def)
  have "sqlserver_sync_once L e w = Some (try_then
      (if ?acc = [] then (Ok (mark_uploaded_enabled (sq_source e)), w2)
       else try_then (x, w3) (\<lambda>_ w3. (Ok (mark_uploaded_enabled (sq_source e)), w3)))
      (\<lambda>marked w3. (Ok \<lparr>fetched = of_nat (length ?ss), synced = of_nat (length ?acc),
         failed = of_nat (length (failed_serial_nos response)),
         marked_uploaded = Some marked, no_data = False\<rparr>, w3)))"
    unfolding sqlserver_sync_once_def f prod.case result.case Let_def r option.case
      accepted_serials_def [symmetric] m if_not_P [OF ne] ..
  also have "\<dots> = Some (mark_and_report L e ?ss response w2)"
    using em by (cases x) (auto simp: mark_and_report_def m sqlserver_outcome_def)
  finally show ?thesis .
qed

lemma sync_once_not_answered:
  assumes f: "on_source (source_fetch_pending (sq_env L) (sq_source e) (batch_size (sq_sync e))) w =
      (Ok rs, w1)" and ne: "rs \<noteq> []"
    and r: "retry_transient clock sleep (retry_initial_delay (sq_sync e))
      (retry_max_delay (sq_sync e)) (retry_max_elapsed (sq_sync e))
      (sqlserver_upload_batch L e (map sw_data rs)) log_retry w1 = Some (Err error, w2)"
  shows "sqlserver_sync_once L e w = Some (Err (Ctx
    ''SQL Server upload failed (permanent error or retry budget exhausted)'' error), w2)"
  unfolding sqlserver_sync_once_def f prod.case result.case Let_def r option.case if_not_P [OF ne] ..

lemma sync_once_idle:
  "on_source (source_fetch_pending (sq_env L) (sq_source e) (batch_size (sq_sync e))) w = (Ok [], w1) \<Longrightarrow>
     sqlserver_sync_once L e w = Some (Ok outcome_no_data, w1)"
  "on_source (source_fetch_pending (sq_env L) (sq_source e) (batch_size (sq_sync e))) w = (Err x, w1) \<Longrightarrow>
     sqlserver_sync_once L e w = Some (Err x, w1)"
  by (simp_all add: sqlserver_sync_once_def)

section \<open>The engine implements the specification\<close>

text \<open>The cycle up to the upload, whichever way it goes.\<close>

lemma sqlserver_sync_once_returns_aux: "\<exists>x w'. sqlserver_sync_once L e w = Some (x, w')"
proof -
  obtain y w1 where f: "on_source (source_fetch_pending (sq_env L) (sq_source e)
      (batch_size (sq_sync e))) w = (y, w1)" by (metis surj_pair)
  show ?thesis
  proof (cases y)
    case (Err m)
    with f show ?thesis using sync_once_idle(2) by blast
  next
    case (Ok rs)
    obtain z w2 where r: "retry_transient clock sleep (retry_initial_delay (sq_sync e))
        (retry_max_delay (sq_sync e)) (retry_max_elapsed (sq_sync e))
        (sqlserver_upload_batch L e (map sw_data rs)) log_retry w1 = Some (z, w2)"
      using row_upload.retry_returns by blast
    show ?thesis
    proof (cases "rs = []")
      case True
      with f Ok show ?thesis using sync_once_idle(1) by blast
    next
      case False
      show ?thesis
      proof (cases z)
        case (Err m)
        then show ?thesis using sync_once_not_answered [of L e w rs w1] f Ok False r by blast
      next
        case ok: (Ok v)
        have "\<exists>x w'. mark_and_report L e (map sw_serial_no rs) v w2 = (x, w')" by (metis surj_pair)
        then show ?thesis using sync_once_answered [of L e w rs w1] f Ok False r ok by metis
      qed
    qed
  qed
qed

locale sql_engine = sql_source "sq_env L" for L :: sql_libs
begin

lemma fetch_in_world:
  assumes "on_source (source_fetch_pending (sq_env L) src n) w = (x, w1)"
  shows "world_rows w1 = world_rows w" and "same_env w w1"
    and "x = Ok rs \<Longrightarrow> rs \<noteq> [] \<Longrightarrow> row_batch (unat n) (world_rows w) (map sw_serial_no rs)"
    and "x = Ok [] \<Longrightarrow> unat n = 0 \<or> filter row_pending (world_rows w) = []"
proof -
  obtain s where s: "source_fetch_pending (sq_env L) src n (source_of w) = (x, s)"
    and w1: "w1 = w\<lparr>source_of := s\<rparr>"
    using assms by (auto simp: on_source_iff)
  show "world_rows w1 = world_rows w" "same_env w w1"
    using src.fetch_rows [OF s] w1 by (simp_all add: world_rows_def)
  show "row_batch (unat n) (world_rows w) (map sw_serial_no rs)" if "x = Ok rs" "rs \<noteq> []"
    using src.fetch_batch [of src n "source_of w" rs s] s that
    by (simp add: row_batch_def world_rows_def)
  show "unat n = 0 \<or> filter row_pending (world_rows w) = []" if "x = Ok []"
  proof -
    have "min (unat n) (length (filter row_pending (world_rows w))) = 0"
      using src.fetch_batch [of src n "source_of w" "[]" s] s that by (auto simp: world_rows_def)
    then show ?thesis by (auto simp: min_def split: if_splits)
  qed
qed

lemma mark_and_report_refines:
  assumes b: "row_batch n (world_rows w) serials" and a: "reply_in L w response"
    and m: "mark_and_report L e serials response w = (x, w')"
  shows "table_cycle (reply_in L w') (sq_env L) (sq_source e) n (world_rows w) x (world_rows w')"
proof -
  let ?acc = "accepted_serials serials response"
  obtain y s where s: "source_mark_uploaded (sq_env L) (sq_source e) ?acc (source_of w) = (y, s)"
    by (metis surj_pair)
  have w': "w' = w\<lparr>source_of := s\<rparr>" and x: "x = (case y of Err z \<Rightarrow> Err z
      | Ok _ \<Rightarrow> Ok (sqlserver_outcome (sq_source e) serials response))"
    using m unfolding mark_and_report_def on_source_def s by (cases y, simp_all)+
  have a': "reply_in L w' response" using a w' by simp
  show ?thesis
  proof (cases y)
    case (Ok v)
    have "world_rows w' = marked (sq_env L) (sq_source e) ?acc (world_rows w)"
    proof (cases "mark_uploaded_enabled (sq_source e)")
      case True
      then show ?thesis using src.mark_prefix [OF True s] Ok w' by (auto simp: marked_def world_rows_def)
    next
      case False
      then show ?thesis using src.mark_off [OF False s] w' by (simp add: marked_def world_rows_def)
    qed
    then show ?thesis using table_cycle.uploaded [OF b, of "reply_in L w'"] a' x Ok by simp
  next
    case (Err z)
    obtain d where "prefix d ?acc" "world_rows w' = marked (sq_env L) (sq_source e) d (world_rows w)"
      using src.mark_rows_change [OF s] w' by (auto simp: marked_def world_rows_def)
    then show ?thesis using table_cycle.partly_marked [OF b, of "reply_in L w'"] a' x Err by simp
  qed
qed

lemma sync_once_refines:
  assumes run: "sqlserver_sync_once L e w = Some (x, w')"
  shows "same_env w w' \<and> table_cycle (reply_in L w') (sq_env L) (sq_source e)
    (unat (batch_size (sq_sync e))) (world_rows w) x (world_rows w')"
proof -
  obtain y w1 where f: "on_source (source_fetch_pending (sq_env L) (sq_source e)
      (batch_size (sq_sync e))) w = (y, w1)" by (metis surj_pair)
  note fw = fetch_in_world [OF f]
  show ?thesis
  proof (cases "\<exists>rs. y = Ok rs \<and> rs \<noteq> []")
    case False
    then show ?thesis
      using run f fw sync_once_idle [of L e w]
      by (cases y) (auto intro: table_cycle.not_uploaded table_cycle.nothing)
  next
    case True
    then obtain rs where rs: "y = Ok rs" "rs \<noteq> []" by blast
    note f' = f [unfolded rs(1)]
    obtain z w2 where r: "retry_transient clock sleep (retry_initial_delay (sq_sync e))
        (retry_max_delay (sq_sync e)) (retry_max_elapsed (sq_sync e))
        (sqlserver_upload_batch L e (map sw_data rs)) log_retry w1 = Some (z, w2)"
      and same: "same_source w1 w2"
      using row_upload.retry_returns by blast
    have w2: "world_rows w2 = world_rows w" "same_env w w2"
      using same fw(1,2) same_env_trans by (auto simp: same_source_def world_rows_def)
    show ?thesis
    proof (cases z)
      case (Err m)
      then show ?thesis
        using run sync_once_not_answered [OF f' rs(2)] r w2 by (auto intro: table_cycle.not_uploaded)
    next
      case (Ok response)
      then obtain w0 where "same_source w1 w0" "sqlserver_upload_batch L e (map sw_data rs) w0 = (Ok response, w2)"
        using r row_upload.retry_Ok by blast
      then have a: "reply_in L w2 response"
        using sqlserver_upload_batch_Ok [of L e "map sw_data rs" w0 response w2]
          sqlserver_upload_batch_same [of L e "map sw_data rs" w0 _ w2]
        by (auto simp: reply_in_def same_source_def same_env_def)
      have m: "mark_and_report L e (map sw_serial_no rs) response w2 = (x, w')"
        using run sync_once_answered [OF f' rs(2)] r Ok by simp
      then have "same_env w2 w'"
        by (auto simp: mark_and_report_def on_source_def try_then_def split: prod.splits result.splits)
      then show ?thesis
        using mark_and_report_refines [OF _ a m] fw(3) [OF rs] w2 same_env_trans by metis
    qed
  qed
qed

end

text \<open>What a cycle may do to a row.\<close>

lemma table_cycle_rows:
  assumes "table_cycle answered env src n rows x rows'"
  shows "\<exists>ids. rows' = marked env src ids rows \<and>
    (ids \<noteq> [] \<longrightarrow> (\<exists>serials response. row_batch n rows serials \<and> answered response \<and>
      set ids \<subseteq> set (accepted_serials serials response)))"
  using assms
proof (induction rule: table_cycle.induct)
  case (not_uploaded x)
  show ?case by (intro exI [of _ "[]"]) simp
next
  case nothing
  show ?case by (intro exI [of _ "[]"]) simp
next
  case (uploaded serials response)
  then show ?case by (intro exI [of _ "accepted_serials serials response"]) auto
next
  case (partly_marked serials response ids x)
  then show ?case by (intro exI [of _ ids]) (auto dest: set_mono_prefix)
qed

section \<open>Draining the table\<close>

definition sql_quiet :: "sql_libs \<Rightarrow> sql_server world \<Rightarrow> bool" where
  "sql_quiet L w \<longleftrightarrow>
     no_faults (source_of w) \<and> (\<forall>r \<in> set (world_rows w). weight_info_ok r) \<and> serialises (sq_http L)"

text \<open>An endpoint that accepts every batch without naming serial numbers.\<close>

definition sql_accepts :: "sql_libs \<Rightarrow> sql_server world \<Rightarrow> bool" where
  "sql_accepts L w \<longleftrightarrow>
     (\<forall>h. \<exists>rp response. remote w h = Ok rp \<and> sqlserver_read_reply (sq_http L) rp = Ok response \<and>
        accepted_serial_nos response = [] \<and> failed_serial_nos response = [])"

definition pending_rows :: "sql_server world \<Rightarrow> nat" where
  "pending_rows w = length (filter row_pending (world_rows w))"

definition sqlserver_after_cycle ::
  "sql_libs \<Rightarrow> sqlserver_engine \<Rightarrow> sql_server world \<Rightarrow> sql_server world" where
  "sqlserver_after_cycle L e w =
     (case sqlserver_sync_once L e w of Some (_, w') \<Rightarrow> w' | None \<Rightarrow> w)"

lemma weight_info_ok_uploaded [simp]: "weight_info_ok (set_uploaded r) = weight_info_ok r"
  by (simp add: weight_info_ok_def weight_info_cells_def col_defs set_uploaded_def cell_in_range_def)

lemma mark_chunks_total:
  "no_faults s \<Longrightarrow> \<exists>s'. mark_chunks env tbl cs s = (Ok (), s') \<and> no_faults s'"
proof (induction cs arbitrary: s)
  case (Cons c cs)
  obtain s1 where "execute_mark env (mark_sql tbl (length c)) c s = (Ok (), s1)" "no_faults s1"
    using Cons.prems by (simp add: execute_mark_def no_faults_def Let_def)
  with Cons.IH show ?case by simp
qed simp

lemma mark_uploaded_total:
  assumes "no_faults s"
  shows "\<exists>s'. source_mark_uploaded env src ids s = (Ok (), s') \<and> no_faults s'"
proof -
  obtain s1 where c: "tds_connect env src s = (Ok (), s1)"
    using assms by (simp add: tds_connect_def no_faults_def Let_def)
  have "no_faults s1" using tds_connect_frame [OF c] assms by (simp add: no_faults_def)
  then show ?thesis using c mark_chunks_total assms by (simp add: source_mark_uploaded_def)
qed

text \<open>A payload that serialises is sent, and the reply is read.\<close>

lemma sqlserver_upload_batch_sends:
  assumes "serialises (sq_http L)"
  shows "\<exists>rq w'. sent w' = sent w @ [rq] \<and> same_source w w' \<and> sqlserver_upload_batch L e rs w =
    (case remote w (sent w @ [rq]) of
       Err m \<Rightarrow> (Err (Transient (Ctx ''failed to send SQL Server upload request'' (Msg m))), w')
     | Ok rp \<Rightarrow> (sqlserver_read_reply (sq_http L) rp, w'))"
proof -
  let ?key = "\<lambda>rq. case api_api_key (sq_api e) of Some k \<Rightarrow> bearer_auth k rq | None \<Rightarrow> rq"
  obtain rq b where rq: "build_payload_request (sq_http L) ''failed to serialize SQL Server upload payload''
      ''failed to gzip SQL Server upload payload'' ''failed to finalize SQL Server gzip payload''
      (?key (http_post (endpoint (sq_api e))))
      (sqlserver_request_json (sq_http L)
        \<lparr>su_source = ''sqlserver-yunfu-tbl_weightInfo'', su_database = database_name (sq_source e),
         su_table = table_name (sq_source e), su_uploaded_at = utc_now w, su_records = rs\<rparr>) = Ok rq"
    "rq_body rq = Ok b"
    using build_payload_request_ok [OF assms] by metis
  let ?w = "w\<lparr>sent := sent w @ [rq], clock := clock w + latency w (length (sent w))\<rparr>"
  have s: "http_send rq w = (remote w (sent w @ [rq]), ?w)"
    using rq(2) by (simp add: http_send_def Let_def)
  then have "same_source w ?w" by (rule http_send_same)
  moreover have "sqlserver_upload_batch L e rs w =
    (case remote w (sent w @ [rq]) of
       Err m \<Rightarrow> (Err (Transient (Ctx ''failed to send SQL Server upload request'' (Msg m))), ?w)
     | Ok rp \<Rightarrow> (sqlserver_read_reply (sq_http L) rp, ?w))"
    unfolding sqlserver_upload_batch_eq Let_def rq(1) using s by (simp split: result.splits)
  ultimately show ?thesis by (intro exI [of _ rq] exI [of _ ?w]) simp
qed

context sql_engine
begin

lemma quiet_fetch:
  assumes "sql_quiet L w"
  shows "\<exists>rs w1. on_source (source_fetch_pending (sq_env L) src n) w = (Ok rs, w1) \<and> sql_quiet L w1"
proof -
  obtain rs s' where f: "source_fetch_pending (sq_env L) src n (source_of w) = (Ok rs, s')" "no_faults s'"
    using fetch_total [of "source_of w" src n] assms by (auto simp: sql_quiet_def world_rows_def)
  then have "on_source (source_fetch_pending (sq_env L) src n) w = (Ok rs, w\<lparr>source_of := s'\<rparr>)"
    by (simp add: on_source_def)
  moreover have "sql_quiet L (w\<lparr>source_of := s'\<rparr>)"
    using assms f(2) src.fetch_rows [OF f(1)] by (simp add: sql_quiet_def world_rows_def)
  ultimately show ?thesis by blast
qed

text \<open>The write-back of a whole batch.\<close>

lemma whole_batch_marked:
  assumes q: "sql_quiet L w1" and f: "source_fetch_pending (sq_env L) (sq_source e) n s = (Ok rs, s1)"
    and rows: "weight_rows s1 = world_rows w1" and acc: "accepted_serials (map sw_serial_no rs) response =
      map sw_serial_no rs"
    and on: "mark_uploaded_enabled (sq_source e)"
  shows "\<exists>w2. mark_and_report L e (map sw_serial_no rs) response w1 =
      (Ok (sqlserver_outcome (sq_source e) (map sw_serial_no rs) response), w2) \<and>
    sql_quiet L w2 \<and> same_env w1 w2 \<and>
    length (filter row_pending (world_rows w2)) \<le> length (filter row_pending (weight_rows s)) - unat n"
proof -
  obtain s2 where m: "source_mark_uploaded (sq_env L) (sq_source e) (map sw_serial_no rs) (source_of w1)
      = (Ok (), s2)" and nf: "no_faults s2"
    using mark_uploaded_total q unfolding sql_quiet_def by metis
  let ?w2 = "w1\<lparr>source_of := s2\<rparr>"
  have r2: "weight_rows s2 = mark_rows (sq_env L) (map sw_serial_no rs) (weight_rows s1)"
    using mark_uploaded_effect [OF m on] rows by (auto simp: world_rows_def)
  have "mark_and_report L e (map sw_serial_no rs) response w1 =
      (Ok (sqlserver_outcome (sq_source e) (map sw_serial_no rs) response), ?w2)"
    unfolding mark_and_report_def acc on_source_def m by simp
  moreover have "sql_quiet L ?w2"
    using q nf r2 rows by (auto simp: sql_quiet_def mark_rows_def split: if_splits)
  moreover have "length (filter row_pending (weight_rows s2)) \<le>
      length (filter row_pending (weight_rows s)) - unat n"
    by (rule src.marked_batch_pending_rows [OF f]) (simp add: r2 mark_rows_def)
  ultimately show ?thesis by (intro exI [of _ ?w2]) simp
qed

lemma accepted_cycle:
  assumes q: "sql_quiet L w" and a: "sql_accepts L w" and on: "mark_uploaded_enabled (sq_source e)"
  shows "\<exists>out w'. sqlserver_sync_once L e w = Some (Ok out, w') \<and> sql_quiet L w' \<and> sql_accepts L w' \<and>
    pending_rows w' \<le> pending_rows w - unat (batch_size (sq_sync e))"
proof -
  let ?n = "batch_size (sq_sync e)"
  obtain rs w1 where f: "on_source (source_fetch_pending (sq_env L) (sq_source e) ?n) w = (Ok rs, w1)"
    and q1: "sql_quiet L w1" using quiet_fetch [OF q] by blast
  note fw = fetch_in_world [OF f]
  have a1: "sql_accepts L w1" using a fw(2) by (simp add: sql_accepts_def same_env_def)
  show ?thesis
  proof (cases "rs = []")
    case True
    then have "unat ?n = 0 \<or> pending_rows w = 0" using fw(4) by (auto simp: pending_rows_def)
    then show ?thesis
      using sync_once_idle(1) f True q1 a1 fw(1) by (auto simp: pending_rows_def)
  next
    case False
    obtain rq w2 where u: "same_source w1 w2" "sqlserver_upload_batch L e (map sw_data rs) w1 =
      (case remote w1 (sent w1 @ [rq]) of
         Err m \<Rightarrow> (Err (Transient (Ctx ''failed to send SQL Server upload request'' (Msg m))), w2)
       | Ok rp \<Rightarrow> (sqlserver_read_reply (sq_http L) rp, w2))"
      using sqlserver_upload_batch_sends q1 unfolding sql_quiet_def by metis
    obtain response where r: "sqlserver_upload_batch L e (map sw_data rs) w1 = (Ok response, w2)"
      "accepted_serials (map sw_serial_no rs) response = map sw_serial_no rs"
      using a1 u(2) unfolding sql_accepts_def accepted_serials_def by (metis result.simps(5))
    have q2: "sql_quiet L w2" "sql_accepts L w2" "world_rows w2 = world_rows w1"
      using u(1) q1 a1 by (simp_all add: sql_quiet_def sql_accepts_def same_source_def same_env_def world_rows_def)
    obtain s1 where s1: "source_fetch_pending (sq_env L) (sq_source e) ?n (source_of w) = (Ok rs, s1)"
      "w1 = w\<lparr>source_of := s1\<rparr>" using f by (auto simp: on_source_iff)
    have "weight_rows s1 = world_rows w2" using q2(3) s1(2) by simp
    from whole_batch_marked [OF q2(1) s1(1) this r(2) on] obtain w3 where
      m: "mark_and_report L e (map sw_serial_no rs) response w2 =
        (Ok (sqlserver_outcome (sq_source e) (map sw_serial_no rs) response), w3)"
      and w3: "sql_quiet L w3" "same_env w2 w3"
        "length (filter row_pending (world_rows w3)) \<le> length (filter row_pending (world_rows w)) - unat ?n"
      by (auto simp: world_rows_def)
    have "sql_accepts L w3" using q2(2) w3(2) by (simp add: sql_accepts_def same_env_def)
    then show ?thesis
      using sync_once_answered [OF f False row_upload.retry_first [OF r(1)]] m w3(1,3)
      by (simp add: pending_rows_def)
  qed
qed

end

sublocale sql_engine \<subseteq> drain: batch_drain
    "\<lambda>w. sql_quiet L w \<and> sql_accepts L w \<and> mark_uploaded_enabled (sq_source e)"
    "sqlserver_after_cycle L e" pending_rows "unat (batch_size (sq_sync e))" for e
proof
  fix w assume "sql_quiet L w \<and> sql_accepts L w \<and> mark_uploaded_enabled (sq_source e)"
  then obtain out w' where "sqlserver_sync_once L e w = Some (Ok out, w')" "sql_quiet L w'"
    "sql_accepts L w'" "pending_rows w' \<le> pending_rows w - unat (batch_size (sq_sync e))"
    and on: "mark_uploaded_enabled (sq_source e)"
    using accepted_cycle by blast
  then show "sql_quiet L (sqlserver_after_cycle L e w) \<and> sql_accepts L (sqlserver_after_cycle L e w) \<and>
      mark_uploaded_enabled (sq_source e)"
    and "pending_rows (sqlserver_after_cycle L e w) \<le> pending_rows w - unat (batch_size (sq_sync e))"
    by (simp_all add: sqlserver_after_cycle_def)
qed

context sql_engine
begin

lemma drained_by_cycles:
  "sql_quiet L w \<Longrightarrow> sql_accepts L w \<Longrightarrow> mark_uploaded_enabled (sq_source e) \<Longrightarrow>
     pending_rows w \<le> k * unat (batch_size (sq_sync e)) \<Longrightarrow>
     pending_rows ((sqlserver_after_cycle L e ^^ k) w) = 0"
  by (rule drain.drained [of _ e]) simp_all

end

section \<open>Properties\<close>

text \<open>Libraries and worlds for the witnesses.\<close>

definition demo_sql_libs :: sql_libs where
  "demo_sql_libs =
     \<lparr>sq_env = demo_env_tds,
      sq_http = \<lparr>to_vec = (\<lambda>_. Ok ''{}''), from_str = (\<lambda>s. if s = ''S1 refused''
          then Ok (json_object [(''failed_serial_nos'', JArray [JString ''S1''])]) else Err ''unsupported''),
        gz_write = Ok, gz_finish = Ok, status_display = show_nat, ser_time = show_int,
        compression = False\<rparr>\<rparr>"

definition demo_sql_engine :: sqlserver_engine where
  "demo_sql_engine =
     \<lparr>sq_api = \<lparr>endpoint = ''http://cloud'', api_api_key = None, timeout_seconds = 30\<rparr>,
      sq_sync = \<lparr>sync_source = ''sqlserver'', batch_size = 1, cron = [], sync_on_start = True,
        retry_initial_delay_ms = 1, retry_max_delay_ms = 1, retry_max_elapsed_seconds = 0\<rparr>,
      sq_source = demo_source\<rparr>"

definition demo_sql_world :: "(http_response, string) result \<Rightarrow> sql_server world" where
  "demo_sql_world reply =
     \<lparr>clock = 0, wall = (\<lambda>_. 7), latency = (\<lambda>_. 1), oversleep = (\<lambda>_. 1), remote = (\<lambda>_. reply),
      sent = [], retry_log = [], source_of = demo_server demo_rows\<rparr>"

lemma demo_sql_laws: "sql_source (sq_env demo_sql_libs)"
  by (simp add: demo_sql_libs_def demo_sql_source)

interpretation demo_sql_cycle: sql_engine demo_sql_libs
  by (intro sql_engine.intro demo_sql_laws)

lemma demo_sql_quiet: "sql_quiet demo_sql_libs (demo_sql_world reply)"
  using demo_rows_ok
  by (simp add: sql_quiet_def demo_sql_world_def world_rows_def serialises_def demo_sql_libs_def)
    (simp add: no_faults_def demo_server_def)

lemma demo_sql_accepts:
  "sql_accepts demo_sql_libs (demo_sql_world (Ok \<lparr>rs_status = 204, rs_body = Ok []\<rparr>))"
  by (simp add: sql_accepts_def demo_sql_world_def sqlserver_read_reply_def response_default_def)

lemma demo_sql_marks: "mark_uploaded_enabled (sq_source demo_sql_engine)"
  by (simp add: demo_sql_engine_def demo_source_def mark_uploaded_enabled_def
      sqlserver_config_default_def default_true_def)

lemma demo_sql_pending: "pending_rows (demo_sql_world reply) = 2"
  by (simp add: pending_rows_def world_rows_def demo_sql_world_def demo_server_def demo_rows_def
      row_pending_def demo_weight_def isnull_def)

text \<open>
  C11: a cycle of the SQL Server engine implements \<open>table_cycle\<close>. It leaves the table as it is
  (nothing pending, or the fetch or the upload failed), or marks the rows whose serial numbers
  the endpoint's last answer accepts (the whole batch when it names none), or, when the
  write-back fails, the rows of a prefix of them; the batch is a largest one of pending rows
  within the batch size.
\<close>

theorem sqlserver_sync_once_refines_spec:
  assumes "sql_source (sq_env L)" and "sqlserver_sync_once L e w = Some (x, w')"
  shows "table_cycle (reply_in L w') (sq_env L) (sq_source e) (unat (batch_size (sq_sync e)))
    (world_rows w) x (world_rows w')"
  using sql_engine.sync_once_refines [OF sql_engine.intro [OF assms(1)] assms(2)] by blast

theorem sqlserver_sync_once_refines_spec_witness:
  "\<exists>x w'. sqlserver_sync_once demo_sql_libs demo_sql_engine (demo_sql_world (Err ''down'')) = Some (x, w') \<and>
     table_cycle (reply_in demo_sql_libs w') demo_env_tds demo_source 1 demo_rows x (world_rows w')"
proof -
  obtain x w' where run: "sqlserver_sync_once demo_sql_libs demo_sql_engine
      (demo_sql_world (Err ''down'')) = Some (x, w')"
    using sqlserver_sync_once_returns_aux by blast
  show ?thesis
    using sqlserver_sync_once_refines_spec [OF demo_sql_laws run] run
    by (simp add: demo_sql_libs_def demo_sql_engine_def world_rows_def demo_sql_world_def demo_server_def)
qed

text \<open>
  A cycle touches nothing but the upload flag of acknowledged rows. The table keeps its rows
  and their order; a row changes only by its upload flag becoming 1, only when the write-back
  is enabled, and only when its serial number equals, under the column's collation, one that
  the endpoint's last answer accepts.
\<close>

theorem sqlserver_sync_once_marks_only_acknowledged:
  assumes "sql_source (sq_env L)" and "sqlserver_sync_once L e w = Some (x, w')"
  shows "list_all2 (\<lambda>r r'. r' = r \<or>
      r' = set_uploaded r \<and> mark_uploaded_enabled (sq_source e) \<and>
      (\<exists>serials response. row_batch (unat (batch_size (sq_sync e))) (world_rows w) serials \<and>
        reply_in L w' response \<and>
        (\<exists>s \<in> set (accepted_serials serials response). coll_eq (sq_env L) (serial_no r) s)))
    (world_rows w) (world_rows w')"
proof -
  obtain ids where ids: "world_rows w' = marked (sq_env L) (sq_source e) ids (world_rows w)"
    "ids \<noteq> [] \<longrightarrow> (\<exists>serials response.
      row_batch (unat (batch_size (sq_sync e))) (world_rows w) serials \<and> reply_in L w' response \<and>
      set ids \<subseteq> set (accepted_serials serials response))"
    using sql_engine.sync_once_refines [OF sql_engine.intro [OF assms(1)] assms(2)]
      table_cycle_rows by meson
  show ?thesis
    unfolding ids(1) marked_def using ids(2)
    by (fastforce simp: list_all2_conv_all_nth serial_in_def list_ex_iff)
qed

theorem sqlserver_sync_once_marks_only_acknowledged_witness:
  "\<exists>x w'. sqlserver_sync_once demo_sql_libs demo_sql_engine (demo_sql_world (Err ''down'')) = Some (x, w') \<and>
     length (world_rows w') = 2"
proof -
  obtain x w' where run: "sqlserver_sync_once demo_sql_libs demo_sql_engine
      (demo_sql_world (Err ''down'')) = Some (x, w')"
    using sqlserver_sync_once_returns_aux by blast
  have "length (world_rows (demo_sql_world (Err ''down''))) = 2"
    by (simp add: world_rows_def demo_sql_world_def demo_server_def demo_rows_def)
  then show ?thesis
    using sqlserver_sync_once_marks_only_acknowledged [OF demo_sql_laws run] run
    by (auto dest: list_all2_lengthD)
qed



text \<open>
  Without the write-back nothing is ever marked. When \<open>mark_uploaded\<close> is off, no number of
  cycles changes the table, so every cycle uploads the same batch again.
\<close>

theorem sqlserver_without_write_back:
  assumes "sql_source (sq_env L)" and "\<not> mark_uploaded_enabled (sq_source e)"
  shows "world_rows ((sqlserver_after_cycle L e ^^ k) w) = world_rows w"
proof (induction k)
  case (Suc k)
  let ?w = "(sqlserver_after_cycle L e ^^ k) w"
  obtain x w' where run: "sqlserver_sync_once L e ?w = Some (x, w')"
    using sqlserver_sync_once_returns_aux by blast
  have "\<exists>ids. world_rows w' = marked (sq_env L) (sq_source e) ids (world_rows ?w)"
    using sql_engine.sync_once_refines [OF sql_engine.intro [OF assms(1)] run] table_cycle_rows by blast
  then have "world_rows w' = world_rows ?w" using assms(2) by (auto simp: marked_def)
  moreover have "sqlserver_after_cycle L e ?w = w'"
    using run by (simp add: sqlserver_after_cycle_def [of L e ?w])
  ultimately show ?case using Suc.IH by simp
qed simp

theorem sqlserver_without_write_back_witness:
  "world_rows ((sqlserver_after_cycle demo_sql_libs (demo_sql_engine\<lparr>sq_source :=
       \<lparr>src_cfg = sqlserver_config_default\<lparr>mark_uploaded_flag := False\<rparr>\<rparr>\<rparr>) ^^ 3)
     (demo_sql_world (Err ''down''))) = demo_rows"
proof -
  have "\<not> mark_uploaded_enabled (sq_source (demo_sql_engine\<lparr>sq_source :=
      \<lparr>src_cfg = sqlserver_config_default\<lparr>mark_uploaded_flag := False\<rparr>\<rparr>\<rparr>))"
    by (simp add: mark_uploaded_enabled_def)
  from sqlserver_without_write_back [OF demo_sql_laws this] show ?thesis
    by (simp add: world_rows_def demo_sql_world_def demo_server_def)
qed

text \<open>
  The reported \<open>marked_uploaded\<close> is the setting, not what happened. When the endpoint
  rejects the whole batch, a cycle with the write-back enabled reports
  \<open>marked_uploaded = Some true\<close> although it marks no row.
\<close>

theorem sqlserver_rejected_batch_reported_marked:
  assumes "sql_source (sq_env L)" and "sqlserver_sync_once L e w = Some (Ok out, w')"
    and "\<not> no_data out" and "mark_uploaded_enabled (sq_source e)"
    and "\<And>response. reply_in L w' response \<Longrightarrow>
      accepted_serial_nos response = [] \<and> failed_serial_nos response \<noteq> []"
  shows "marked_uploaded out = Some True \<and> synced out = 0 \<and> world_rows w' = world_rows w"
proof -
  have "table_cycle (reply_in L w') (sq_env L) (sq_source e) (unat (batch_size (sq_sync e)))
      (world_rows w) (Ok out) (world_rows w')"
    using sql_engine.sync_once_refines [OF sql_engine.intro [OF assms(1)] assms(2)] by blast
  then show ?thesis
    using assms(3,4,5)
    by cases (auto simp: outcome_no_data_def sqlserver_outcome_def accepted_serials_def)
qed

lemma demo_refused_reply:
  "sqlserver_read_reply (sq_http demo_sql_libs) \<lparr>rs_status = 200, rs_body = Ok ''S1 refused''\<rparr> =
     Ok \<lparr>accepted_serial_nos = [], failed_serial_nos = [''S1'']\<rparr>"
proof -
  have "trim ''S1 refused'' \<noteq> []" by code_simp
  moreover have "sqlserver_response_de (json_object [(''failed_serial_nos'', JArray [JString ''S1''])]) =
      Ok \<lparr>accepted_serial_nos = [], failed_serial_nos = [''S1'']\<rparr>" by code_simp
  ultimately show ?thesis
    by (simp add: sqlserver_read_reply_def demo_sql_libs_def is_success_def)
qed

lemma demo_refused_cycle:
  "\<exists>out w'. sqlserver_sync_once demo_sql_libs demo_sql_engine
     (demo_sql_world (Ok \<lparr>rs_status = 200, rs_body = Ok ''S1 refused''\<rparr>)) = Some (Ok out, w') \<and>
   \<not> no_data out"
proof -
  let ?w = "demo_sql_world (Ok \<lparr>rs_status = 200, rs_body = Ok ''S1 refused''\<rparr>)"
  obtain rs w1 where f: "on_source (source_fetch_pending (sq_env demo_sql_libs)
      (sq_source demo_sql_engine) (batch_size (sq_sync demo_sql_engine))) ?w = (Ok rs, w1)"
    and q: "sql_quiet demo_sql_libs w1"
    using demo_sql_cycle.quiet_fetch [OF demo_sql_quiet] by metis
  note fw = demo_sql_cycle.fetch_in_world [OF f]
  have ne: "rs \<noteq> []"
    using fw(4) demo_sql_pending [of "Ok \<lparr>rs_status = 200, rs_body = Ok ''S1 refused''\<rparr>"]
    by (auto simp: pending_rows_def demo_sql_engine_def)
  have "remote w1 h = Ok \<lparr>rs_status = 200, rs_body = Ok ''S1 refused''\<rparr>" for h
    using fw(2) by (simp add: same_env_def demo_sql_world_def)
  then obtain w2 where "sqlserver_upload_batch demo_sql_libs demo_sql_engine (map sw_data rs) w1 =
      (Ok \<lparr>accepted_serial_nos = [], failed_serial_nos = [''S1'']\<rparr>, w2)"
    using sqlserver_upload_batch_sends [of demo_sql_libs w1 demo_sql_engine "map sw_data rs"] q
      demo_refused_reply by (auto simp: sql_quiet_def)
  from sync_once_answered [OF f ne row_upload.retry_first [OF this]] show ?thesis
    by (simp add: mark_and_report_def accepted_serials_def on_source_def source_mark_uploaded_def
        sqlserver_outcome_def)
qed

theorem sqlserver_rejected_batch_reported_marked_witness:
  "\<exists>out w'. sqlserver_sync_once demo_sql_libs demo_sql_engine
     (demo_sql_world (Ok \<lparr>rs_status = 200, rs_body = Ok ''S1 refused''\<rparr>)) = Some (Ok out, w') \<and>
     marked_uploaded out = Some True \<and> synced out = 0 \<and> world_rows w' = demo_rows"
proof -
  let ?w = "demo_sql_world (Ok \<lparr>rs_status = 200, rs_body = Ok ''S1 refused''\<rparr>)"
  obtain out w' where run: "sqlserver_sync_once demo_sql_libs demo_sql_engine ?w = Some (Ok out, w')"
    and nd: "\<not> no_data out" using demo_refused_cycle by blast
  have "same_env ?w w'" using demo_sql_cycle.sync_once_refines [OF run] by blast
  then have rej: "accepted_serial_nos response = [] \<and> failed_serial_nos response \<noteq> []"
    if "reply_in demo_sql_libs w' response" for response
    using that demo_refused_reply by (auto simp: reply_in_def same_env_def demo_sql_world_def)
  have "world_rows ?w = demo_rows" by (simp add: world_rows_def demo_sql_world_def demo_server_def)
  then show ?thesis
    using sqlserver_rejected_batch_reported_marked [OF demo_sql_laws run nd demo_sql_marks rej] run
    by simp
qed

end
