(* ===== verification/Weighing_Models.thy ===== *)
theory Weighing_Models
  imports Floats Rust_Strings
begin

text \<open>
  The domain model of the local cache (src/db/models.rs) and its row
  (src/entity/weighing_record.rs): units, sync states, construction with validation, and the
  conversion between a record and the strings of a row.

  Three libraries are parameters. \<open>codec\<close> is uuid and chrono (printing and parsing of
  identifiers and RFC 3339 times); the laws the program relies on are the locale
  \<open>codec_laws\<close>. \<open>uom\<close> is the unit library (masses from and to kilograms and pounds).
\<close>

section \<open>Units and states\<close>

datatype weight_unit = Kilogram | Pound

datatype sync_status = Pending | Synced | Failed

fun weight_unit_as_str :: "weight_unit \<Rightarrow> string" where
  "weight_unit_as_str Kilogram = ''kilogram''"
| "weight_unit_as_str Pound = ''pound''"

definition weight_unit_parse :: "string \<Rightarrow> (weight_unit, anyhow) result" where
  "weight_unit_parse s =
     (if s = ''kilogram'' \<or> s = ''kg'' then Ok Kilogram
      else if s = ''pound'' \<or> s = ''lb'' \<or> s = ''lbs'' then Ok Pound
      else Err (Msg (''unsupported weight unit '' @ s)))"

fun sync_status_as_str :: "sync_status \<Rightarrow> string" where
  "sync_status_as_str Pending = ''pending''"
| "sync_status_as_str Synced = ''synced''"
| "sync_status_as_str Failed = ''failed''"

definition sync_status_parse :: "string \<Rightarrow> (sync_status, anyhow) result" where
  "sync_status_parse s =
     (if s = ''pending'' then Ok Pending
      else if s = ''synced'' then Ok Synced
      else if s = ''failed'' then Ok Failed
      else Err (Msg (''unsupported sync status '' @ s)))"

section \<open>Records and rows\<close>

record weighing_record =
  rec_id :: uuid
  rec_ticket_no :: string
  rec_scale_no :: string
  rec_plate_no :: "string option"
  rec_weight_kg :: f64
  rec_original_unit :: weight_unit
  rec_measured_at :: datetime
  rec_status :: sync_status
  rec_retry_count :: int
  rec_last_error :: "string option"
  rec_created_at :: datetime
  rec_updated_at :: datetime

record weighing_model =
  row_id :: string
  row_ticket_no :: string
  row_scale_no :: string
  row_plate_no :: "string option"
  row_weight_kg :: f64
  row_original_unit :: string
  row_measured_at :: string
  row_status :: string
  row_retry_count :: int
  row_last_error :: "string option"
  row_created_at :: string
  row_updated_at :: string

section \<open>The libraries\<close>

record codec =
  uuid_to_string :: "uuid \<Rightarrow> string"
  uuid_parse_str :: "string \<Rightarrow> (uuid, string) result"
  to_rfc3339 :: "datetime \<Rightarrow> string"
  parse_from_rfc3339 :: "string \<Rightarrow> (datetime, string) result"

text \<open>RFC 3339 has four-digit years: nanoseconds from year 0 to the end of year 9999.\<close>

definition rfc3339_range :: "datetime \<Rightarrow> bool" where
  "rfc3339_range t \<longleftrightarrow> -62167219200000000000 \<le> t \<and> t < 253402300800000000000"

locale codec_laws =
  fixes cx :: codec
  assumes uuid_roundtrip: "uuid_parse_str cx (uuid_to_string cx u) = Ok u"
    and rfc3339_roundtrip: "rfc3339_range t \<Longrightarrow> parse_from_rfc3339 cx (to_rfc3339 cx t) = Ok t"
begin

lemma uuid_to_string_inj [simp]: "uuid_to_string cx a = uuid_to_string cx b \<longleftrightarrow> a = b"
  by (metis uuid_roundtrip result.inject(1))

lemma uuid_to_string_image [simp]:
  "uuid_to_string cx a \<in> uuid_to_string cx ` A \<longleftrightarrow> a \<in> A"
  by auto

end

record 'm uom =
  mass_new_kilogram :: "f64 \<Rightarrow> 'm"
  mass_new_pound :: "f64 \<Rightarrow> 'm"
  mass_get_kilogram :: "'m \<Rightarrow> f64"
  mass_get_pound :: "'m \<Rightarrow> f64"

section \<open>Construction\<close>

text \<open>\<open>Utc::now()\<close> and \<open>Uuid::new_v4()\<close> are the arguments \<open>now\<close> and \<open>fresh\<close>.\<close>

definition record_new ::
  "'m uom \<Rightarrow> datetime \<Rightarrow> uuid \<Rightarrow> string \<Rightarrow> string \<Rightarrow> string option \<Rightarrow> 'm \<Rightarrow> weight_unit \<Rightarrow>
   datetime \<Rightarrow> (weighing_record, anyhow) result" where
  "record_new lib now fresh ticket_no scale_no plate_no mass original_unit measured_at =
     (let weight_kg = mass_get_kilogram lib mass
      in if \<not> is_finite weight_kg \<or> f64_lt_zero weight_kg
         then Err (Msg ''weight must be a finite non-negative number'')
         else Ok \<lparr>rec_id = fresh, rec_ticket_no = ticket_no, rec_scale_no = scale_no,
                rec_plate_no = plate_no, rec_weight_kg = weight_kg,
                rec_original_unit = original_unit, rec_measured_at = measured_at,
                rec_status = Pending, rec_retry_count = 0, rec_last_error = None,
                rec_created_at = now, rec_updated_at = now\<rparr>)"

definition new_kg ::
  "'m uom \<Rightarrow> datetime \<Rightarrow> uuid \<Rightarrow> string \<Rightarrow> string \<Rightarrow> string option \<Rightarrow> f64 \<Rightarrow> datetime \<Rightarrow>
   (weighing_record, anyhow) result" where
  "new_kg lib now fresh ticket_no scale_no plate_no weight_kg measured_at =
     record_new lib now fresh ticket_no scale_no plate_no (mass_new_kilogram lib weight_kg)
       Kilogram measured_at"

definition new_lb ::
  "'m uom \<Rightarrow> datetime \<Rightarrow> uuid \<Rightarrow> string \<Rightarrow> string \<Rightarrow> string option \<Rightarrow> f64 \<Rightarrow> datetime \<Rightarrow>
   (weighing_record, anyhow) result" where
  "new_lb lib now fresh ticket_no scale_no plate_no weight_lb measured_at =
     record_new lib now fresh ticket_no scale_no plate_no (mass_new_pound lib weight_lb)
       Pound measured_at"

definition mass_kg :: "'m uom \<Rightarrow> weighing_record \<Rightarrow> 'm" where
  "mass_kg lib r = mass_new_kilogram lib (rec_weight_kg r)"

definition weight_lb :: "'m uom \<Rightarrow> weighing_record \<Rightarrow> f64" where
  "weight_lb lib r = mass_get_pound lib (mass_kg lib r)"

section \<open>Conversion\<close>

definition parse_rfc3339 :: "codec \<Rightarrow> string \<Rightarrow> (datetime, anyhow) result" where
  "parse_rfc3339 cx s =
     context_err (''invalid RFC3339 datetime '' @ s) (map_err Msg (parse_from_rfc3339 cx s))"

text \<open>\<open>TryFrom<Model>\<close>: the fields are converted in the order of the struct expression.\<close>

definition record_try_from :: "codec \<Rightarrow> weighing_model \<Rightarrow> (weighing_record, anyhow) result" where
  "record_try_from cx m =
     and_then (context_err (''invalid uuid '' @ row_id m)
                (map_err Msg (uuid_parse_str cx (row_id m)))) (\<lambda>i.
     and_then (weight_unit_parse (row_original_unit m)) (\<lambda>u.
     and_then (parse_rfc3339 cx (row_measured_at m)) (\<lambda>t.
     and_then (sync_status_parse (row_status m)) (\<lambda>s.
     and_then (parse_rfc3339 cx (row_created_at m)) (\<lambda>c.
     and_then (parse_rfc3339 cx (row_updated_at m)) (\<lambda>d.
       Ok \<lparr>rec_id = i, rec_ticket_no = row_ticket_no m, rec_scale_no = row_scale_no m,
           rec_plate_no = row_plate_no m, rec_weight_kg = row_weight_kg m,
           rec_original_unit = u, rec_measured_at = t, rec_status = s,
           rec_retry_count = row_retry_count m, rec_last_error = row_last_error m,
           rec_created_at = c, rec_updated_at = d\<rparr>))))))"

text \<open>The \<open>ActiveModel\<close> that \<open>insert_record\<close> builds.\<close>

definition record_to_model :: "codec \<Rightarrow> weighing_record \<Rightarrow> weighing_model" where
  "record_to_model cx r =
     \<lparr>row_id = uuid_to_string cx (rec_id r), row_ticket_no = rec_ticket_no r,
      row_scale_no = rec_scale_no r, row_plate_no = rec_plate_no r,
      row_weight_kg = rec_weight_kg r,
      row_original_unit = weight_unit_as_str (rec_original_unit r),
      row_measured_at = to_rfc3339 cx (rec_measured_at r),
      row_status = sync_status_as_str (rec_status r),
      row_retry_count = rec_retry_count r, row_last_error = rec_last_error r,
      row_created_at = to_rfc3339 cx (rec_created_at r),
      row_updated_at = to_rfc3339 cx (rec_updated_at r)\<rparr>"

text \<open>The times of a record can be printed and read back.\<close>

definition record_times_ok :: "weighing_record \<Rightarrow> bool" where
  "record_times_ok r \<longleftrightarrow>
     rfc3339_range (rec_measured_at r) \<and> rfc3339_range (rec_created_at r) \<and>
     rfc3339_range (rec_updated_at r)"

section \<open>Lemmas\<close>

lemma weight_unit_parse_as_str [simp]: "weight_unit_parse (weight_unit_as_str u) = Ok u"
  by (cases u) (simp_all add: weight_unit_parse_def)

lemma sync_status_parse_as_str [simp]: "sync_status_parse (sync_status_as_str s) = Ok s"
  by (cases s) (simp_all add: sync_status_parse_def)

lemma sync_status_parse_Ok: "sync_status_parse s = Ok v \<longleftrightarrow> s = sync_status_as_str v"
  by (cases v) (auto simp: sync_status_parse_def)

lemma sync_status_as_str_inj [simp]: "sync_status_as_str a = sync_status_as_str b \<longleftrightarrow> a = b"
  by (metis sync_status_parse_as_str result.inject(1))

context codec_laws
begin

lemma parse_rfc3339_print [simp]: "rfc3339_range t \<Longrightarrow> parse_rfc3339 cx (to_rfc3339 cx t) = Ok t"
  by (simp add: parse_rfc3339_def rfc3339_roundtrip)

lemma try_from_to_model: "record_times_ok r \<Longrightarrow> record_try_from cx (record_to_model cx r) = Ok r"
  by (simp add: record_try_from_def record_to_model_def record_times_ok_def uuid_roundtrip)

end

lemma record_new_Ok_iff:
  "is_ok (record_new lib now fresh tn sn pn mass ou mt) \<longleftrightarrow>
     is_finite (mass_get_kilogram lib mass) \<and> \<not> f64_lt_zero (mass_get_kilogram lib mass)"
  by (simp add: record_new_def Let_def)

text \<open>
  A codec for the witnesses, which prints identifiers and times as decimals. It satisfies the
  laws.
\<close>

definition decimal_codec :: codec where
  "decimal_codec =
     \<lparr>uuid_to_string = (\<lambda>u. show_nat (unat u)),
      uuid_parse_str =
        (\<lambda>s. case parse_nat s of Some n \<Rightarrow> Ok (of_nat n) | None \<Rightarrow> Err ''invalid uuid''),
      to_rfc3339 = show_int,
      parse_from_rfc3339 =
        (\<lambda>s. case parse_int s of Some i \<Rightarrow> Ok i | None \<Rightarrow> Err ''invalid time'')\<rparr>"

interpretation decimal: codec_laws decimal_codec
  by unfold_locales (simp_all add: decimal_codec_def)

text \<open>A unit library for the witnesses: a mass is its kilogram reading.\<close>

definition kilo_uom :: "f64 uom" where
  "kilo_uom = \<lparr>mass_new_kilogram = id, mass_new_pound = id, mass_get_kilogram = id,
     mass_get_pound = id\<rparr>"

section \<open>Properties\<close>

text \<open>
  C35: new weighings are validated. A weighing in kilograms is accepted exactly when its weight
  is finite and not negative, one in pounds exactly when its conversion to kilograms is; an
  accepted one is pending, has not been retried, carries the weight given and the times given.
\<close>

theorem new_records_are_valid:
  assumes "\<And>x. mass_get_kilogram lib (mass_new_kilogram lib x) = x"
  shows "(is_ok (new_kg lib now fresh tn sn pn x mt) \<longleftrightarrow> is_finite x \<and> \<not> f64_lt_zero x) \<and>
    (is_ok (new_lb lib now fresh tn sn pn x mt) \<longleftrightarrow>
      is_finite (mass_get_kilogram lib (mass_new_pound lib x)) \<and>
      \<not> f64_lt_zero (mass_get_kilogram lib (mass_new_pound lib x))) \<and>
    (\<forall>r. new_kg lib now fresh tn sn pn x mt = Ok r \<longrightarrow>
      rec_id r = fresh \<and> rec_weight_kg r = x \<and> rec_original_unit r = Kilogram \<and>
      rec_status r = Pending \<and> rec_retry_count r = 0 \<and> rec_last_error r = None \<and>
      rec_measured_at r = mt \<and> rec_created_at r = now \<and> rec_updated_at r = now)"
  using assms by (auto simp: new_kg_def new_lb_def record_new_def Let_def)

theorem new_records_are_valid_witness:
  "\<not> is_ok (new_kg kilo_uom 1 2 ''T'' ''S'' None 0x7FF0000000000000 3)"
proof -
  have "mass_get_kilogram kilo_uom (mass_new_kilogram kilo_uom x) = x" for x
    by (simp add: kilo_uom_def)
  moreover have "\<not> is_finite 0x7FF0000000000000" by code_simp
  ultimately show ?thesis using new_records_are_valid [of kilo_uom] by blast
qed

text \<open>
  C36: a record survives its row. A record whose times lie in the years 0 to 9999 converts to a
  row of the cache and back to itself; and any row that converts is, up to the spelling of
  its unit, its identifier and its times, the row of the record it converts to.
\<close>

theorem record_row_round_trip:
  assumes "codec_laws cx" and "record_times_ok r"
  shows "record_try_from cx (record_to_model cx r) = Ok r \<and>
    (\<forall>m r'. record_try_from cx m = Ok r' \<longrightarrow>
      row_status m = sync_status_as_str (rec_status r') \<and> row_weight_kg m = rec_weight_kg r' \<and>
      row_ticket_no m = rec_ticket_no r' \<and> row_scale_no m = rec_scale_no r' \<and>
      row_plate_no m = rec_plate_no r' \<and> row_retry_count m = rec_retry_count r' \<and>
      row_last_error m = rec_last_error r')"
  using codec_laws.try_from_to_model [OF assms]
  by (auto simp: record_try_from_def and_then_Ok_iff sync_status_parse_Ok)

theorem record_row_round_trip_witness:
  "\<exists>r. new_lb kilo_uom 1 2 ''T'' ''S'' None 0 3 = Ok r \<and>
     record_try_from decimal_codec (record_to_model decimal_codec r) = Ok r"
proof -
  have "is_finite 0" "\<not> f64_lt_zero 0" by code_simp+
  then obtain r where r: "new_lb kilo_uom 1 2 ''T'' ''S'' None 0 3 = Ok r"
    by (simp add: new_lb_def record_new_def kilo_uom_def)
  then have "record_times_ok r"
    by (auto simp: new_lb_def record_new_def Let_def record_times_ok_def rfc3339_range_def split: if_splits)
  with r show ?thesis using record_row_round_trip [OF decimal.codec_laws_axioms] by blast
qed

end
