(* ===== verification/Local_Db.thy ===== *)
theory Local_Db
  imports Weighing_Models Json Config
begin

text \<open>
  The local SQLite cache (src/db/mod.rs): connection with file creation and migrations, the
  four statements on \<open>weighing_records\<close> and the insertion into \<open>inbound_payloads\<close>.

  \<open>sqlite\<close> is the database behind a \<open>DbPool\<close>: its tables as lists of rows, the names of its
  schema objects, and the environment's choice of which statement fails (statement \<open>n\<close> fails
  with the message \<open>sql_fault n\<close> gives). A statement that fails changes no table. The row
  order of \<open>ORDER BY\<close> among equal keys is SQLite's and is the parameter \<open>order_rows\<close>.
\<close>

section \<open>The database\<close>

record inbound_row =
  in_request_id :: string
  in_source :: string
  in_source_db :: string
  in_source_table :: string
  in_records_count :: int
  in_payload_json :: string
  in_received_at :: string

record sqlite =
  weighing_records :: "weighing_model list"
  inbound_payloads :: "inbound_row list"
  schema :: "string list"
  sql_fault :: "nat \<Rightarrow> string option"
  sql_n :: nat

text \<open>One statement: the environment may fail it, or the statement itself may.\<close>

definition sql_exec ::
  "(sqlite \<Rightarrow> ('a, string) result \<times> sqlite) \<Rightarrow> sqlite \<Rightarrow> ('a, anyhow) result \<times> sqlite" where
  "sql_exec stmt db =
     (let db1 = db\<lparr>sql_n := Suc (sql_n db)\<rparr>
      in case sql_fault db (sql_n db) of
           Some m \<Rightarrow> (Err (Msg m), db1)
         | None \<Rightarrow> (case stmt db1 of (Ok v, db2) \<Rightarrow> (Ok v, db2) | (Err m, _) \<Rightarrow> (Err (Msg m), db1)))"

definition with_context ::
  "string \<Rightarrow> ('a, anyhow) result \<times> 's \<Rightarrow> ('a, anyhow) result \<times> 's" where
  "with_context c r = (context_err c (fst r), snd r)"

section \<open>Statements on the cache\<close>

definition insert_record ::
  "codec \<Rightarrow> weighing_record \<Rightarrow> sqlite \<Rightarrow> (unit, anyhow) result \<times> sqlite" where
  "insert_record cx r db =
     with_context ''failed to insert weighing record with SeaORM''
       (sql_exec (\<lambda>d.
          let active = record_to_model cx r
          in if row_id active \<in> set (map row_id (weighing_records d))
             then (Err ''UNIQUE constraint failed: weighing_records.id'', d)
             else if row_status active \<notin> {''pending'', ''synced'', ''failed''}
             then (Err ''CHECK constraint failed: status'', d)
             else (Ok (), d\<lparr>weighing_records := weighing_records d @ [active]\<rparr>)) db)"

definition is_pending_row :: "weighing_model \<Rightarrow> bool" where
  "is_pending_row m \<longleftrightarrow> row_status m \<in> {''pending'', ''failed''}"

definition fetch_pending ::
  "codec \<Rightarrow> (weighing_model list \<Rightarrow> weighing_model list) \<Rightarrow> u32 \<Rightarrow> sqlite \<Rightarrow>
   (weighing_record list, anyhow) result \<times> sqlite" where
  "fetch_pending cx order_rows limit db =
     (case with_context ''failed to fetch pending weighing records with SeaORM''
         (sql_exec (\<lambda>d. (Ok (take (unat limit)
            (order_rows (filter is_pending_row (weighing_records d)))), d)) db) of
        (Err e, db1) \<Rightarrow> (Err e, db1)
      | (Ok models, db1) \<Rightarrow> (collect (map (record_try_from cx) models), db1))"

definition set_synced :: "string \<Rightarrow> weighing_model \<Rightarrow> weighing_model" where
  "set_synced now m = m\<lparr>row_status := ''synced'', row_last_error := None, row_updated_at := now\<rparr>"

definition set_failed :: "string \<Rightarrow> string \<Rightarrow> weighing_model \<Rightarrow> weighing_model" where
  "set_failed now msg m =
     m\<lparr>row_status := ''failed'', row_retry_count := row_retry_count m + 1,
       row_last_error := Some msg, row_updated_at := now\<rparr>"

text \<open>\<open>UPDATE weighing_records SET ... WHERE id IN (...)\<close>.\<close>

definition update_where_id_in ::
  "string list \<Rightarrow> (weighing_model \<Rightarrow> weighing_model) \<Rightarrow> sqlite \<Rightarrow> (unit, string) result \<times> sqlite" where
  "update_where_id_in ids f d =
     (Ok (), d\<lparr>weighing_records :=
        map (\<lambda>m. if row_id m \<in> set ids then f m else m) (weighing_records d)\<rparr>)"

text \<open>\<open>chrono::Utc::now()\<close> is the argument \<open>now\<close>.\<close>

definition mark_synced ::
  "codec \<Rightarrow> datetime \<Rightarrow> uuid list \<Rightarrow> sqlite \<Rightarrow> (unit, anyhow) result \<times> sqlite" where
  "mark_synced cx now ids db =
     (if ids = [] then (Ok (), db)
      else with_context ''failed to mark records as synced with SeaORM''
        (sql_exec (update_where_id_in (map (uuid_to_string cx) ids)
           (set_synced (to_rfc3339 cx now))) db))"

definition mark_failed ::
  "codec \<Rightarrow> datetime \<Rightarrow> uuid list \<Rightarrow> string \<Rightarrow> sqlite \<Rightarrow> (unit, anyhow) result \<times> sqlite" where
  "mark_failed cx now ids msg db =
     (if ids = [] then (Ok (), db)
      else with_context ''failed to mark records as failed with SeaORM''
        (sql_exec (update_where_id_in (map (uuid_to_string cx) ids)
           (set_failed (to_rfc3339 cx now) msg)) db))"

text \<open>\<open>records_count as i64\<close> reinterprets the bits of the \<open>usize\<close>.\<close>

definition insert_inbound_payload ::
  "codec \<Rightarrow> (json \<Rightarrow> (string, string) result) \<Rightarrow> datetime \<Rightarrow> uuid \<Rightarrow> string \<Rightarrow> string \<Rightarrow> string \<Rightarrow>
   usize \<Rightarrow> json \<Rightarrow> sqlite \<Rightarrow> (unit, anyhow) result \<times> sqlite" where
  "insert_inbound_payload cx to_string now request_id source db_name tbl records_count payload db =
     (case to_string payload of
        Err m \<Rightarrow> (Err (Ctx ''failed to serialize inbound payload'' (Msg m)), db)
      | Ok payload_json \<Rightarrow>
          with_context ''failed to insert inbound payload''
            (sql_exec (\<lambda>d.
               let row = \<lparr>in_request_id = uuid_to_string cx request_id, in_source = source,
                     in_source_db = db_name, in_source_table = tbl,
                     in_records_count = sint records_count, in_payload_json = payload_json,
                     in_received_at = to_rfc3339 cx now\<rparr>
               in if in_request_id row \<in> set (map in_request_id (inbound_payloads d))
                  then (Err ''UNIQUE constraint failed: inbound_payloads.request_id'', d)
                  else (Ok (), d\<lparr>inbound_payloads := inbound_payloads d @ [row]\<rparr>)) db))"

section \<open>Connection and migrations\<close>

definition sqlite_path :: "string \<Rightarrow> string option" where
  "sqlite_path u =
     (let without_query = (case split_once CHR ''?'' u of Some (p, _) \<Rightarrow> p | None \<Rightarrow> u);
          stripped = (case strip_prefix ''sqlite://'' without_query of
              Some p \<Rightarrow> Some p
            | None \<Rightarrow> strip_prefix ''sqlite:'' without_query)
      in case stripped of
           Some p \<Rightarrow> (if p \<noteq> [] then Some p else None)
         | None \<Rightarrow> None)"

datatype fs_call = Create_dir_all string | Open_create_append string

text \<open>
  The calls on the file system in the order they are made, with the result; \<open>parent\<close> is
  \<open>Path::parent\<close> of the target platform, \<open>fs_fault\<close> says which calls fail.
\<close>

definition fs_do ::
  "(fs_call \<Rightarrow> string option) \<Rightarrow> fs_call \<Rightarrow> string \<Rightarrow> fs_call list \<times> (unit, anyhow) result" where
  "fs_do fs_fault c ctx =
     ([c], case fs_fault c of Some m \<Rightarrow> Err (Ctx ctx (Msg m)) | None \<Rightarrow> Ok ())"

definition fs_then ::
  "fs_call list \<times> (unit, anyhow) result \<Rightarrow> fs_call list \<times> (unit, anyhow) result \<Rightarrow>
   fs_call list \<times> (unit, anyhow) result" where
  "fs_then a b = (case snd a of Ok _ \<Rightarrow> (fst a @ fst b, snd b) | Err e \<Rightarrow> (fst a, Err e))"

definition ensure_sqlite_parent_dir ::
  "(string \<Rightarrow> string option) \<Rightarrow> (fs_call \<Rightarrow> string option) \<Rightarrow> string \<Rightarrow>
   fs_call list \<times> (unit, anyhow) result" where
  "ensure_sqlite_parent_dir parent fs_fault u =
     (if u = ''sqlite::memory:'' \<or> contains '':memory:'' u then ([], Ok ())
      else let path = sqlite_path u
        in fs_then
             (case Option.bind path parent of
                Some p \<Rightarrow>
                  if p \<noteq> []
                  then fs_do fs_fault (Create_dir_all p) (''failed to create database directory '' @ p)
                  else ([], Ok ())
              | None \<Rightarrow> ([], Ok ()))
             (case path of
                Some p \<Rightarrow>
                  if p \<noteq> '':memory:''
                  then fs_do fs_fault (Open_create_append p)
                    (''failed to create SQLite database file '' @ p)
                  else ([], Ok ())
              | None \<Rightarrow> ([], Ok ())))"

text \<open>\<open>CREATE ... IF NOT EXISTS\<close>: adds the object unless it is there.\<close>

definition create_if_not_exists :: "string \<Rightarrow> sqlite \<Rightarrow> (unit, string) result \<times> sqlite" where
  "create_if_not_exists obj d =
     (Ok (), if obj \<in> set (schema d) then d else d\<lparr>schema := schema d @ [obj]\<rparr>)"

definition execute_sql ::
  "(sqlite \<Rightarrow> (unit, string) result \<times> sqlite) \<Rightarrow> sqlite \<Rightarrow> (unit, anyhow) result \<times> sqlite" where
  "execute_sql stmt db = sql_exec stmt db"

datatype database_backend = Sqlite | Other_backend string

definition run_migrations :: "database_backend \<Rightarrow> sqlite \<Rightarrow> (unit, anyhow) result \<times> sqlite" where
  "run_migrations backend db =
     (case backend of
        Other_backend b \<Rightarrow> (Err (Msg (''local cache currently expects SQLite, got '' @ b)), db)
      | Sqlite \<Rightarrow>
          (case with_context ''failed to create weighing_records table''
              (execute_sql (create_if_not_exists ''weighing_records'') db) of
             (Err e, db1) \<Rightarrow> (Err e, db1)
           | (Ok _, db1) \<Rightarrow>
          (case with_context ''failed to create weighing_records status index''
              (execute_sql (create_if_not_exists ''idx_weighing_records_status_time'') db1) of
             (Err e, db2) \<Rightarrow> (Err e, db2)
           | (Ok _, db2) \<Rightarrow>
               with_context ''failed to create inbound_payloads table''
                 (execute_sql (create_if_not_exists ''inbound_payloads'') db2))))"

text \<open>
  \<open>open_db\<close> is \<open>Database::connect\<close>: the backend it finds behind the URL, for the database in the
  state \<open>db\<close>. The result comes with the database as the migrations leave it.
\<close>

definition connect ::
  "(string \<Rightarrow> string option) \<Rightarrow> (fs_call \<Rightarrow> string option) \<Rightarrow>
   (string \<Rightarrow> u32 \<Rightarrow> (database_backend, string) result) \<Rightarrow> database_config \<Rightarrow> sqlite \<Rightarrow>
   (unit, anyhow) result \<times> sqlite" where
  "connect parent fs_fault open_db cfg db =
     (case snd (ensure_sqlite_parent_dir parent fs_fault (url cfg)) of
        Err e \<Rightarrow> (Err e, db)
      | Ok _ \<Rightarrow>
          (case context_err ''failed to connect SQLite database with SeaORM''
              (map_err Msg (open_db (url cfg) (max_connections cfg))) of
             Err e \<Rightarrow> (Err e, db)
           | Ok backend \<Rightarrow> run_migrations backend db))"

section \<open>The cache as a map from identifiers to records\<close>

definition row_ok :: "codec \<Rightarrow> weighing_model \<Rightarrow> bool" where
  "row_ok cx m =
     (case record_try_from cx m of
        Ok r \<Rightarrow> row_id m = uuid_to_string cx (rec_id r)
      | Err _ \<Rightarrow> False)"

text \<open>
  The invariant: identifiers are unique, every row of the cache converts to a record whose
  printed identifier is the row's key, and request identifiers are unique.
\<close>

definition db_wf :: "codec \<Rightarrow> sqlite \<Rightarrow> bool" where
  "db_wf cx db \<longleftrightarrow>
     distinct (map row_id (weighing_records db)) \<and>
     list_all (row_ok cx) (weighing_records db) \<and>
     distinct (map in_request_id (inbound_payloads db))"

definition cache_map :: "codec \<Rightarrow> sqlite \<Rightarrow> uuid \<Rightarrow> weighing_record option" where
  "cache_map cx db u =
     (case find (\<lambda>m. row_id m = uuid_to_string cx u) (weighing_records db) of
        None \<Rightarrow> None
      | Some m \<Rightarrow> (case record_try_from cx m of Ok r \<Rightarrow> Some r | Err _ \<Rightarrow> None))"

text \<open>What the statements do to the map.\<close>

definition rec_synced :: "datetime \<Rightarrow> weighing_record \<Rightarrow> weighing_record" where
  "rec_synced now r = r\<lparr>rec_status := Synced, rec_last_error := None, rec_updated_at := now\<rparr>"

definition rec_failed :: "datetime \<Rightarrow> string \<Rightarrow> weighing_record \<Rightarrow> weighing_record" where
  "rec_failed now msg r =
     r\<lparr>rec_status := Failed, rec_retry_count := rec_retry_count r + 1,
       rec_last_error := Some msg, rec_updated_at := now\<rparr>"

definition cache_update ::
  "uuid list \<Rightarrow> (weighing_record \<Rightarrow> weighing_record) \<Rightarrow> (uuid \<Rightarrow> weighing_record option) \<Rightarrow>
   uuid \<Rightarrow> weighing_record option" where
  "cache_update ids f M u = (if u \<in> set ids then map_option f (M u) else M u)"

section \<open>Lemmas on the statements\<close>

lemma with_context_simps [simp]:
  "with_context c (Ok v, db) = (Ok v, db)" "with_context c (Err e, db) = (Err (Ctx c e), db)"
  by (simp_all add: with_context_def)

lemma sql_exec_fault:
  "sql_fault db (sql_n db) = Some m \<Longrightarrow>
     sql_exec stmt db = (Err (Msg m), db\<lparr>sql_n := Suc (sql_n db)\<rparr>)"
  by (simp add: sql_exec_def)

lemma sql_exec_run:
  "sql_fault db (sql_n db) = None \<Longrightarrow>
     sql_exec stmt db =
       (case stmt (db\<lparr>sql_n := Suc (sql_n db)\<rparr>) of
          (Ok v, db2) \<Rightarrow> (Ok v, db2)
        | (Err m, _) \<Rightarrow> (Err (Msg m), db\<lparr>sql_n := Suc (sql_n db)\<rparr>))"
  by (simp add: sql_exec_def Let_def)

lemma find_map_cong:
  "(\<And>x. P (g x) = P x) \<Longrightarrow> find P (map g xs) = map_option g (find P xs)"
  by (induction xs) auto

lemma find_app:
  "find P (xs @ ys) = (case find P xs of None \<Rightarrow> find P ys | Some x \<Rightarrow> Some x)"
  by (induction xs) auto

lemma find_key_None: "k \<notin> f ` set xs \<Longrightarrow> find (\<lambda>x. f x = k) xs = None"
  by (induction xs) auto

lemma find_filter_distinct:
  "distinct (map k xs) \<Longrightarrow> x \<in> set xs \<Longrightarrow> find (\<lambda>y. k y = k x) xs = Some x"
  by (induction xs) (auto simp: image_iff)

lemma set_synced_id [simp]: "row_id (set_synced now m) = row_id m"
  and set_failed_id [simp]: "row_id (set_failed now msg m) = row_id m"
  by (simp_all add: set_synced_def set_failed_def)

lemma is_pending_row_iff:
  "record_try_from cx m = Ok r \<Longrightarrow> is_pending_row m \<longleftrightarrow> rec_status r \<noteq> Synced"
  by (cases "rec_status r")
    (auto simp: record_try_from_def result_simps is_pending_row_def sync_status_parse_Ok)

lemma db_wf_row:
  "db_wf cx db \<Longrightarrow> m \<in> set (weighing_records db) \<Longrightarrow>
     \<exists>r. record_try_from cx m = Ok r \<and> row_id m = uuid_to_string cx (rec_id r)"
  by (cases "record_try_from cx m") (auto simp: db_wf_def list_all_iff row_ok_def)

lemma cache_map_row:
  assumes wf: "db_wf cx db" and m: "m \<in> set (weighing_records db)"
    and r: "record_try_from cx m = Ok r"
  shows "cache_map cx db (rec_id r) = Some r"
proof -
  have "row_id m = uuid_to_string cx (rec_id r)"
    using db_wf_row [OF wf m] r by simp
  moreover have "find (\<lambda>y. row_id y = row_id m) (weighing_records db) = Some m"
    using wf m by (intro find_filter_distinct) (auto simp: db_wf_def)
  ultimately show ?thesis using r by (simp add: cache_map_def)
qed

lemma cache_map_SomeD:
  assumes "db_wf cx db" and "cache_map cx db u = Some r"
  shows "\<exists>m \<in> set (weighing_records db).
    row_id m = uuid_to_string cx u \<and> record_try_from cx m = Ok r"
  using assms unfolding cache_map_def
  by (auto simp: find_Some_iff split: option.splits result.splits)

lemma cache_map_tables:
  "weighing_records db1 = weighing_records db2 \<Longrightarrow> cache_map cx db1 = cache_map cx db2"
  by (simp add: fun_eq_iff cache_map_def)

context codec_laws
begin

lemma cache_map_rec_id: "db_wf cx db \<Longrightarrow> cache_map cx db u = Some r \<Longrightarrow> rec_id r = u"
  using cache_map_SomeD [of cx db u r] db_wf_row [of cx db] by force

lemma try_from_set_synced:
  assumes "rfc3339_range now" and "record_try_from cx m = Ok r"
  shows "record_try_from cx (set_synced (to_rfc3339 cx now) m) = Ok (rec_synced now r)"
  using assms sync_status_parse_as_str [of Synced]
  by (auto simp: record_try_from_def result_simps set_synced_def rec_synced_def)

lemma try_from_set_failed:
  assumes "rfc3339_range now" and "record_try_from cx m = Ok r"
  shows "record_try_from cx (set_failed (to_rfc3339 cx now) msg m) = Ok (rec_failed now msg r)"
  using assms sync_status_parse_as_str [of Failed]
  by (auto simp: record_try_from_def result_simps set_failed_def rec_failed_def)

text \<open>A bulk update by identifier refines the update of the map.\<close>

lemma update_refines:
  assumes wf: "db_wf cx db" and f_id: "\<And>m. row_id (f m) = row_id m"
    and f: "\<And>m r. record_try_from cx m = Ok r \<Longrightarrow> record_try_from cx (f m) = Ok (g r)"
    and g_id: "\<And>r. rec_id (g r) = rec_id r"
    and db': "update_where_id_in (map (uuid_to_string cx) ids) f db = (x, db')"
  shows "db_wf cx db'" and "cache_map cx db' = cache_update ids g (cache_map cx db)"
proof -
  define upd where "upd m = (if row_id m \<in> uuid_to_string cx ` set ids then f m else m)" for m
  have rows: "weighing_records db' = map upd (weighing_records db)"
    and inb: "inbound_payloads db' = inbound_payloads db"
    using db' by (auto simp: update_where_id_in_def upd_def)
  have id: "row_id (upd m) = row_id m" for m by (simp add: upd_def f_id)
  have ok: "row_ok cx m \<Longrightarrow> row_ok cx (upd m)" for m
    using f [of m] by (auto simp: row_ok_def upd_def f_id g_id split: result.splits)
  show "db_wf cx db'"
    using wf ok unfolding db_wf_def rows inb by (simp add: list_all_iff comp_def id)
  show "cache_map cx db' = cache_update ids g (cache_map cx db)"
  proof
    fix u
    have fm: "find (\<lambda>m. row_id m = uuid_to_string cx u) (map upd (weighing_records db)) =
        map_option upd (find (\<lambda>m. row_id m = uuid_to_string cx u) (weighing_records db))"
      by (rule find_map_cong) (simp add: id)
    show "cache_map cx db' u = cache_update ids g (cache_map cx db) u"
    proof (cases "find (\<lambda>m. row_id m = uuid_to_string cx u) (weighing_records db)")
      case None
      then show ?thesis
        by (simp add: cache_map_def cache_update_def rows fm)
    next
      case (Some m)
      then have m: "m \<in> set (weighing_records db)" "row_id m = uuid_to_string cx u"
        by (auto simp: find_Some_iff)
      then obtain r where "record_try_from cx m = Ok r"
        using db_wf_row [OF wf m(1)] by blast
      then show ?thesis
        using Some m f [of m r]
        by (simp add: cache_map_def cache_update_def rows fm upd_def)
    qed
  qed
qed

end

section \<open>The interface the sync engine uses\<close>

text \<open>The identifiers still to be uploaded.\<close>

definition backlog_of :: "(uuid \<Rightarrow> weighing_record option) \<Rightarrow> uuid set" where
  "backlog_of M = {u. \<exists>r. M u = Some r \<and> rec_status r \<noteq> Synced}"

locale record_store =
  fixes inv :: "'s \<Rightarrow> bool"
    and cache :: "'s \<Rightarrow> uuid \<Rightarrow> weighing_record option"
    and fetch :: "u32 \<Rightarrow> 's \<Rightarrow> (weighing_record list, anyhow) result \<times> 's"
    and synced :: "datetime \<Rightarrow> uuid list \<Rightarrow> 's \<Rightarrow> (unit, anyhow) result \<times> 's"
    and failed :: "datetime \<Rightarrow> uuid list \<Rightarrow> string \<Rightarrow> 's \<Rightarrow> (unit, anyhow) result \<times> 's"
  assumes fetch_frame: "inv s \<Longrightarrow> fetch n s = (x, s') \<Longrightarrow> inv s' \<and> cache s' = cache s"
    and fetch_sound: "inv s \<Longrightarrow> fetch n s = (Ok rs, s') \<Longrightarrow> r \<in> set rs \<Longrightarrow>
      cache s (rec_id r) = Some r \<and> rec_status r \<noteq> Synced"
    and fetch_distinct: "inv s \<Longrightarrow> fetch n s = (Ok rs, s') \<Longrightarrow> distinct (map rec_id rs)"
    and fetch_length: "inv s \<Longrightarrow> fetch n s = (Ok rs, s') \<Longrightarrow>
      length rs = min (unat n) (card (backlog_of (cache s)))"
    and backlog_finite: "inv s \<Longrightarrow> finite (backlog_of (cache s))"
    and synced_ok: "inv s \<Longrightarrow> rfc3339_range now \<Longrightarrow> synced now ids s = (Ok v, s') \<Longrightarrow>
      inv s' \<and> cache s' = cache_update ids (rec_synced now) (cache s)"
    and synced_err: "inv s \<Longrightarrow> rfc3339_range now \<Longrightarrow> synced now ids s = (Err e, s') \<Longrightarrow>
      inv s' \<and> cache s' = cache s"
    and failed_ok: "inv s \<Longrightarrow> rfc3339_range now \<Longrightarrow> failed now ids msg s = (Ok v, s') \<Longrightarrow>
      inv s' \<and> cache s' = cache_update ids (rec_failed now msg) (cache s)"
    and failed_err: "inv s \<Longrightarrow> rfc3339_range now \<Longrightarrow> failed now ids msg s = (Err e, s') \<Longrightarrow>
      inv s' \<and> cache s' = cache s"

text \<open>A time-stamped update changes neither the identifiers nor the measured data.\<close>

definition same_measurement :: "weighing_record \<Rightarrow> weighing_record \<Rightarrow> bool" where
  "same_measurement a b \<longleftrightarrow>
     rec_id a = rec_id b \<and> rec_ticket_no a = rec_ticket_no b \<and> rec_scale_no a = rec_scale_no b \<and>
     rec_plate_no a = rec_plate_no b \<and> rec_weight_kg a = rec_weight_kg b \<and>
     rec_original_unit a = rec_original_unit b \<and> rec_measured_at a = rec_measured_at b \<and>
     rec_created_at a = rec_created_at b"

lemma same_measurement_refl [simp]: "same_measurement r r"
  by (simp add: same_measurement_def)

lemma same_measurement_trans:
  "same_measurement a b \<Longrightarrow> same_measurement b c \<Longrightarrow> same_measurement a c"
  by (simp add: same_measurement_def)

lemma rec_synced_simps [simp]:
  "rec_status (rec_synced now r) = Synced" "rec_id (rec_synced now r) = rec_id r"
  "rec_retry_count (rec_synced now r) = rec_retry_count r"
  "rec_last_error (rec_synced now r) = None" "same_measurement (rec_synced now r) r"
  by (simp_all add: rec_synced_def same_measurement_def)

lemma rec_failed_simps [simp]:
  "rec_status (rec_failed now msg r) = Failed" "rec_id (rec_failed now msg r) = rec_id r"
  "rec_retry_count (rec_failed now msg r) = rec_retry_count r + 1"
  "rec_last_error (rec_failed now msg r) = Some msg" "same_measurement (rec_failed now msg r) r"
  by (simp_all add: rec_failed_def same_measurement_def)

lemma cache_update_dom [simp]: "cache_update ids f M u = None \<longleftrightarrow> M u = None"
  by (simp add: cache_update_def)

lemma cache_update_Nil [simp]: "cache_update [] f M = M"
  by (simp add: cache_update_def fun_eq_iff)

lemma backlog_synced:
  "backlog_of (cache_update ids (rec_synced now) M) = backlog_of M - set ids"
  by (auto simp: backlog_of_def cache_update_def split: if_splits)

context record_store
begin

lemma fetch_backlog:
  assumes "inv s" and "fetch n s = (Ok rs, s')"
  shows "set (map rec_id rs) \<subseteq> backlog_of (cache s)"
  using fetch_sound [OF assms] by (fastforce simp: backlog_of_def)

lemma fetch_empty:
  assumes "inv s" and "fetch n s = (Ok [], s')" and "n \<noteq> 0"
  shows "backlog_of (cache s) = {}"
proof -
  have "0 < unat n" using assms(3) by (simp add: unat_gt_0)
  moreover have "min (unat n) (card (backlog_of (cache s))) = 0"
    using fetch_length [OF assms(1,2)] by simp
  ultimately have "card (backlog_of (cache s)) = 0" by linarith
  with backlog_finite [OF assms(1)] show ?thesis by simp
qed

text \<open>Marking a whole fetched batch synced removes that many records from the backlog.\<close>

lemma batch_synced_backlog:
  assumes s: "inv s" and f: "fetch n s = (Ok rs, s1)" and now: "rfc3339_range now"
    and m: "synced now (map rec_id rs) s1 = (Ok v, s2)"
  shows "card (backlog_of (cache s2)) = card (backlog_of (cache s)) - unat n"
proof -
  have fr: "inv s1 \<and> cache s1 = cache s" by (rule fetch_frame [OF s f])
  then have "cache s2 = cache_update (map rec_id rs) (rec_synced now) (cache s)"
    using synced_ok [OF _ now m] by simp
  then have "backlog_of (cache s2) = backlog_of (cache s) - set (map rec_id rs)"
    by (simp only: backlog_synced)
  moreover have "card (set (map rec_id rs)) = min (unat n) (card (backlog_of (cache s)))"
    using fetch_distinct [OF s f] fetch_length [OF s f] by (simp add: distinct_card flip: set_map)
  ultimately show ?thesis
    using fetch_backlog [OF s f] by (simp add: card_Diff_subset)
qed

end

section \<open>The cache implements the interface\<close>

lemma map_Ok_ex: "(\<And>x. x \<in> set xs \<Longrightarrow> \<exists>y. f x = Ok y) \<Longrightarrow> \<exists>ys. map f xs = map Ok ys"
  by (rule ex_map_conv [THEN iffD2]) simp

locale local_store = codec_laws cx + asc_ordering row_measured_at order_rows
  for cx :: codec and order_rows :: "weighing_model list \<Rightarrow> weighing_model list"
begin

lemma try_from_rows:
  assumes "db_wf cx db" and "set ms \<subseteq> set (weighing_records db)"
    and "distinct (map row_id ms)"
  shows "\<exists>rs. map (record_try_from cx) ms = map Ok rs \<and> distinct (map rec_id rs)"
proof -
  obtain rs where rs: "map (record_try_from cx) ms = map Ok rs"
    using map_Ok_ex [of ms "record_try_from cx"] db_wf_row [OF assms(1)] assms(2) by blast
  have "map row_id ms = map (\<lambda>r. uuid_to_string cx (rec_id r)) rs"
  proof (rule nth_equalityI)
    show "length (map row_id ms) = length (map (\<lambda>r. uuid_to_string cx (rec_id r)) rs)"
      using rs by (metis length_map)
    fix i assume i: "i < length (map row_id ms)"
    then have "record_try_from cx (ms ! i) = Ok (rs ! i)"
      using rs by (metis (no_types) length_map nth_map)
    then show "map row_id ms ! i = map (\<lambda>r. uuid_to_string cx (rec_id r)) rs ! i"
      using i db_wf_row [OF assms(1), of "ms ! i"] assms(2) rs
      by (metis (no_types) length_map nth_map nth_mem result.inject(1) subsetD)
  qed
  then have "distinct (map (uuid_to_string cx) (map rec_id rs))"
    using assms(3) by (simp add: comp_def)
  then have "distinct (map rec_id rs)" by (simp only: distinct_map)
  with rs show ?thesis by blast
qed

lemma fetched_rows:
  assumes wf: "db_wf cx db" and f: "fetch_pending cx order_rows n db = (Ok rs, db')"
  shows "map (record_try_from cx)
      (take (unat n) (order_rows (filter is_pending_row (weighing_records db)))) = map Ok rs"
    and "distinct (map rec_id rs)"
proof -
  let ?ms = "take (unat n) (order_rows (filter is_pending_row (weighing_records db)))"
  show c: "map (record_try_from cx) ?ms = map Ok rs"
    using f by (cases "sql_fault db (sql_n db)")
      (auto simp: fetch_pending_def sql_exec_fault sql_exec_run collect_Ok_iff)
  have "set ?ms \<subseteq> set (weighing_records db)"
    using set_take_subset [of "unat n"] order_set by fastforce
  moreover have "distinct (map row_id ?ms)"
    using wf by (auto simp: db_wf_def order_distinct distinct_map_filter simp flip: take_map)
  ultimately obtain rs' where "map (record_try_from cx) ?ms = map Ok rs'" "distinct (map rec_id rs')"
    using try_from_rows [OF wf] by blast
  with c show "distinct (map rec_id rs)"
    by (metis collect_Ok_iff result.inject(1))
qed

lemma backlog_records:
  assumes wf: "db_wf cx db"
    and rs: "map (record_try_from cx) (filter is_pending_row (weighing_records db)) = map Ok rs"
  shows "backlog_of (cache_map cx db) = set (map rec_id rs)"
proof
  show "backlog_of (cache_map cx db) \<subseteq> set (map rec_id rs)"
  proof
    fix u assume "u \<in> backlog_of (cache_map cx db)"
    then obtain r where r: "cache_map cx db u = Some r" "rec_status r \<noteq> Synced"
      by (auto simp: backlog_of_def)
    then obtain m where m: "m \<in> set (weighing_records db)" "record_try_from cx m = Ok r"
      using cache_map_SomeD [OF wf] by blast
    with r have "m \<in> set (filter is_pending_row (weighing_records db))"
      by (simp add: is_pending_row_iff)
    then have "Ok r \<in> set (map (record_try_from cx) (filter is_pending_row (weighing_records db)))"
      using m(2) by force
    then have "r \<in> set rs" using rs by auto
    then show "u \<in> set (map rec_id rs)" using cache_map_rec_id [OF wf r(1)] by auto
  qed
  show "set (map rec_id rs) \<subseteq> backlog_of (cache_map cx db)"
  proof
    fix u assume "u \<in> set (map rec_id rs)"
    then obtain r where r: "r \<in> set rs" "u = rec_id r" by auto
    then have "Ok r \<in> set (map (record_try_from cx) (filter is_pending_row (weighing_records db)))"
      using rs by auto
    then obtain m where "m \<in> set (weighing_records db)" "is_pending_row m" "record_try_from cx m = Ok r"
      by auto
    then show "u \<in> backlog_of (cache_map cx db)"
      using cache_map_row [OF wf] is_pending_row_iff r by (auto simp: backlog_of_def)
  qed
qed

lemma backlog_card:
  assumes "db_wf cx db"
  shows "finite (backlog_of (cache_map cx db))"
    and "card (backlog_of (cache_map cx db)) = length (filter is_pending_row (weighing_records db))"
proof -
  have "distinct (map row_id (filter is_pending_row (weighing_records db)))"
    using assms by (simp add: db_wf_def distinct_map_filter)
  then obtain rs where
    rs: "map (record_try_from cx) (filter is_pending_row (weighing_records db)) = map Ok rs"
    and d: "distinct (map rec_id rs)"
    using try_from_rows [OF assms, of "filter is_pending_row (weighing_records db)"] by auto
  have b: "backlog_of (cache_map cx db) = set (map rec_id rs)"
    using assms rs by (rule backlog_records)
  show "finite (backlog_of (cache_map cx db))" by (simp add: b)
  have "card (set (map rec_id rs)) = length rs" using distinct_card [OF d] by simp
  then show "card (backlog_of (cache_map cx db)) =
      length (filter is_pending_row (weighing_records db))"
    unfolding b using rs by (metis length_map)
qed

lemma fetch_tables:
  assumes "fetch_pending cx order_rows n db = (x, db')"
  shows "db' = db\<lparr>sql_n := Suc (sql_n db)\<rparr>"
  using assms by (cases "sql_fault db (sql_n db)")
    (auto simp: fetch_pending_def sql_exec_fault sql_exec_run)

text \<open>Without a failing statement a well-formed cache can be read.\<close>

lemma fetch_total:
  assumes wf: "db_wf cx db" and nf: "sql_fault db (sql_n db) = None"
  shows "\<exists>rs. fetch_pending cx order_rows n db = (Ok rs, db\<lparr>sql_n := Suc (sql_n db)\<rparr>)"
proof -
  let ?ms = "take (unat n) (order_rows (filter is_pending_row (weighing_records db)))"
  have "set ?ms \<subseteq> set (weighing_records db)"
    using set_take_subset [of "unat n"] order_set by fastforce
  moreover have "distinct (map row_id ?ms)"
    using wf by (auto simp: db_wf_def order_distinct distinct_map_filter simp flip: take_map)
  ultimately obtain rs where "map (record_try_from cx) ?ms = map Ok rs"
    using try_from_rows [OF wf] by blast
  then show ?thesis using nf by (simp add: fetch_pending_def sql_exec_run)
qed

lemma wf_tables:
  "weighing_records a = weighing_records b \<Longrightarrow> inbound_payloads a = inbound_payloads b \<Longrightarrow>
     db_wf cx a = db_wf cx b"
  by (simp add: db_wf_def)

lemma wf_sql_n [simp]: "db_wf cx (db\<lparr>sql_n := k\<rparr>) = db_wf cx db"
  by (simp add: db_wf_def)

lemma cache_sql_n [simp]: "cache_map cx (db\<lparr>sql_n := k\<rparr>) = cache_map cx db"
  by (rule cache_map_tables) simp

text \<open>The outcome of a bulk update, whichever of the two it is.\<close>

lemma bulk_update:
  assumes wf: "db_wf cx db" and f_id: "\<And>m. row_id (f m) = row_id m"
    and f: "\<And>m r. record_try_from cx m = Ok r \<Longrightarrow> record_try_from cx (f m) = Ok (g r)"
    and g_id: "\<And>r. rec_id (g r) = rec_id r"
    and db': "with_context c (sql_exec (update_where_id_in (map (uuid_to_string cx) ids) f) db)
      = (x, db')"
  shows "db_wf cx db' \<and> cache_map cx db' =
    (case x of Ok _ \<Rightarrow> cache_update ids g (cache_map cx db) | Err _ \<Rightarrow> cache_map cx db)"
proof (cases "sql_fault db (sql_n db)")
  case (Some m)
  with db' wf show ?thesis by (auto simp: sql_exec_fault)
next
  case None
  let ?db1 = "db\<lparr>sql_n := Suc (sql_n db)\<rparr>"
  obtain v db2 where u: "update_where_id_in (map (uuid_to_string cx) ids) f ?db1 = (Ok v, db2)"
    by (simp add: update_where_id_in_def)
  then have "x = Ok v" "db' = db2" using db' None by (auto simp: sql_exec_run)
  moreover have "db_wf cx ?db1" using wf by simp
  ultimately show ?thesis
    using update_refines [OF _ f_id f g_id u] by simp
qed

lemma mark_synced_outcome:
  assumes "db_wf cx db" and "rfc3339_range now" and "mark_synced cx now ids db = (x, db')"
  shows "db_wf cx db' \<and> cache_map cx db' =
    (case x of Ok _ \<Rightarrow> cache_update ids (rec_synced now) (cache_map cx db)
     | Err _ \<Rightarrow> cache_map cx db)"
proof (cases "ids = []")
  case True
  with assms show ?thesis by (auto simp: mark_synced_def)
next
  case False
  with assms(3) have "with_context ''failed to mark records as synced with SeaORM''
      (sql_exec (update_where_id_in (map (uuid_to_string cx) ids)
        (set_synced (to_rfc3339 cx now))) db) = (x, db')"
    by (simp add: mark_synced_def)
  then show ?thesis
    using bulk_update [OF assms(1) _ try_from_set_synced [OF assms(2)]] by simp
qed

lemma mark_failed_outcome:
  assumes "db_wf cx db" and "rfc3339_range now" and "mark_failed cx now ids msg db = (x, db')"
  shows "db_wf cx db' \<and> cache_map cx db' =
    (case x of Ok _ \<Rightarrow> cache_update ids (rec_failed now msg) (cache_map cx db)
     | Err _ \<Rightarrow> cache_map cx db)"
proof (cases "ids = []")
  case True
  with assms show ?thesis by (auto simp: mark_failed_def)
next
  case False
  with assms(3) have "with_context ''failed to mark records as failed with SeaORM''
      (sql_exec (update_where_id_in (map (uuid_to_string cx) ids)
        (set_failed (to_rfc3339 cx now) msg)) db) = (x, db')"
    by (simp add: mark_failed_def)
  then show ?thesis
    using bulk_update [OF assms(1) _ try_from_set_failed [OF assms(2)]] by simp
qed

lemma cache_map_absent:
  "uuid_to_string cx u \<notin> set (map row_id (weighing_records db)) \<Longrightarrow> cache_map cx db u = None"
  by (simp add: cache_map_def find_key_None)

lemma insert_record_outcome:
  assumes wf: "db_wf cx db" and t: "record_times_ok r" and i: "insert_record cx r db = (x, db')"
  shows "db_wf cx db' \<and>
    (case x of
       Ok _ \<Rightarrow> cache_map cx db (rec_id r) = None \<and> cache_map cx db' = (cache_map cx db)(rec_id r \<mapsto> r)
     | Err _ \<Rightarrow> cache_map cx db' = cache_map cx db)"
proof (cases "sql_fault db (sql_n db) = None \<and>
    uuid_to_string cx (rec_id r) \<notin> set (map row_id (weighing_records db))")
  case False
  then have "db' = db\<lparr>sql_n := Suc (sql_n db)\<rparr> \<and> \<not> is_ok x"
    using i by (cases "sql_fault db (sql_n db)")
      (auto simp: insert_record_def sql_exec_fault sql_exec_run record_to_model_def)
  then show ?thesis using wf by (cases x) auto
next
  case True
  then have new: "uuid_to_string cx (rec_id r) \<notin> set (map row_id (weighing_records db))" by simp
  have st: "row_status (record_to_model cx r) \<in> {''pending'', ''synced'', ''failed''}"
    by (cases "rec_status r") (simp_all add: record_to_model_def)
  have rid: "row_id (record_to_model cx r) = uuid_to_string cx (rec_id r)"
    by (simp add: record_to_model_def)
  have x: "x = Ok ()" and rows: "weighing_records db' = weighing_records db @ [record_to_model cx r]"
    and inb: "inbound_payloads db' = inbound_payloads db"
    using i True st rid by (auto simp: insert_record_def sql_exec_run Let_def split: if_splits)
  have conv: "record_try_from cx (record_to_model cx r) = Ok r"
    using t by (rule try_from_to_model)
  have "db_wf cx db'"
    using wf new unfolding db_wf_def rows inb by (simp add: rid row_ok_def conv)
  moreover have "cache_map cx db' u = ((cache_map cx db)(rec_id r \<mapsto> r)) u" for u
    using new conv find_key_None [of "uuid_to_string cx (rec_id r)" row_id "weighing_records db"]
    by (auto simp: cache_map_def rows rid find_app split: option.splits)
  ultimately show ?thesis using x cache_map_absent [OF new] by auto
qed

lemma insert_inbound_outcome:
  assumes "db_wf cx db"
    and "insert_inbound_payload cx ts now i src dbn tbl n payload db = (x, db')"
  shows "db_wf cx db'" and "weighing_records db' = weighing_records db"
  using assms
  by (auto simp: insert_inbound_payload_def db_wf_def sql_exec_def with_context_def Let_def
      split: result.splits option.splits if_splits)

lemma create_step:
  assumes "with_context c (execute_sql (create_if_not_exists obj) db) = (x, db')"
  shows "weighing_records db' = weighing_records db \<and> inbound_payloads db' = inbound_payloads db \<and>
    set (schema db) \<subseteq> set (schema db') \<and> (is_ok x \<longrightarrow> obj \<in> set (schema db'))"
  using assms by (cases "sql_fault db (sql_n db)")
    (auto simp: execute_sql_def sql_exec_fault sql_exec_run create_if_not_exists_def)

lemma run_migrations_outcome:
  assumes "run_migrations b db = (x, db')"
  shows "weighing_records db' = weighing_records db \<and> inbound_payloads db' = inbound_payloads db \<and>
    (is_ok x \<longrightarrow>
      {''weighing_records'', ''idx_weighing_records_status_time'', ''inbound_payloads''}
        \<subseteq> set (schema db'))"
proof (cases b)
  case (Other_backend n)
  with assms show ?thesis by (auto simp: run_migrations_def)
next
  case Sqlite
  obtain x1 db1 where 1: "with_context ''failed to create weighing_records table''
      (execute_sql (create_if_not_exists ''weighing_records'') db) = (x1, db1)" by fastforce
  obtain x2 db2 where 2: "with_context ''failed to create weighing_records status index''
      (execute_sql (create_if_not_exists ''idx_weighing_records_status_time'') db1) = (x2, db2)"
    by fastforce
  obtain x3 db3 where 3: "with_context ''failed to create inbound_payloads table''
      (execute_sql (create_if_not_exists ''inbound_payloads'') db2) = (x3, db3)" by fastforce
  note steps = create_step [OF 1] create_step [OF 2] create_step [OF 3]
  show ?thesis
  proof (cases "is_ok x1 \<and> is_ok x2")
    case True
    then have "(x, db') = (x3, db3)"
      using assms Sqlite 1 2 3 by (auto simp: run_migrations_def result_simps)
    with steps True show ?thesis by auto
  next
    case False
    then have "\<not> is_ok x \<and> (db' = db1 \<or> db' = db2)"
      using assms Sqlite 1 2 by (cases x1; cases x2) (auto simp: run_migrations_def)
    with steps show ?thesis by auto
  qed
qed

end

sublocale local_store \<subseteq> store: record_store "db_wf cx" "cache_map cx"
    "fetch_pending cx order_rows" "mark_synced cx" "mark_failed cx"
proof
  fix s s' :: sqlite and n and x
  assume "db_wf cx s" and "fetch_pending cx order_rows n s = (x, s')"
  then show "db_wf cx s' \<and> cache_map cx s' = cache_map cx s"
    using fetch_tables [of n s x s'] by simp
next
  fix s s' :: sqlite and n rs r
  assume wf: "db_wf cx s" and f: "fetch_pending cx order_rows n s = (Ok rs, s')" and r: "r \<in> set rs"
  let ?ms = "take (unat n) (order_rows (filter is_pending_row (weighing_records s)))"
  have "Ok r \<in> set (map (record_try_from cx) ?ms)"
    using fetched_rows(1) [OF wf f] r by auto
  then obtain m where m: "m \<in> set ?ms" "record_try_from cx m = Ok r" by auto
  then have "m \<in> set (filter is_pending_row (weighing_records s))"
    using order_set by (metis in_set_takeD)
  with m show "cache_map cx s (rec_id r) = Some r \<and> rec_status r \<noteq> Synced"
    using cache_map_row [OF wf] is_pending_row_iff by auto
next
  fix s s' :: sqlite and n rs
  assume wf: "db_wf cx s" and f: "fetch_pending cx order_rows n s = (Ok rs, s')"
  show "distinct (map rec_id rs)" using fetched_rows(2) [OF wf f] .
  have "length rs = length (take (unat n) (order_rows (filter is_pending_row (weighing_records s))))"
    using fetched_rows(1) [OF wf f] by (metis length_map)
  then show "length rs = min (unat n) (card (backlog_of (cache_map cx s)))"
    by (simp add: backlog_card(2) [OF wf] order_length)
next
  show "finite (backlog_of (cache_map cx s))" if "db_wf cx s" for s
    using that by (rule backlog_card(1))
next
  fix s s' :: sqlite and now ids v
  assume "db_wf cx s" "rfc3339_range now" "mark_synced cx now ids s = (Ok v, s')"
  then show "db_wf cx s' \<and> cache_map cx s' = cache_update ids (rec_synced now) (cache_map cx s)"
    using mark_synced_outcome [of s now ids "Ok v" s'] by simp
next
  fix s s' :: sqlite and now ids e
  assume "db_wf cx s" "rfc3339_range now" "mark_synced cx now ids s = (Err e, s')"
  then show "db_wf cx s' \<and> cache_map cx s' = cache_map cx s"
    using mark_synced_outcome [of s now ids "Err e" s'] by simp
next
  fix s s' :: sqlite and now ids msg v
  assume "db_wf cx s" "rfc3339_range now" "mark_failed cx now ids msg s = (Ok v, s')"
  then show "db_wf cx s' \<and> cache_map cx s' = cache_update ids (rec_failed now msg) (cache_map cx s)"
    using mark_failed_outcome [of s now ids msg "Ok v" s'] by simp
next
  fix s s' :: sqlite and now ids msg e
  assume "db_wf cx s" "rfc3339_range now" "mark_failed cx now ids msg s = (Err e, s')"
  then show "db_wf cx s' \<and> cache_map cx s' = cache_map cx s"
    using mark_failed_outcome [of s now ids msg "Err e" s'] by simp
qed

context local_store
begin

lemma store_laws:
  "record_store (db_wf cx) (cache_map cx) (fetch_pending cx order_rows) (mark_synced cx)
     (mark_failed cx)"
  by (rule store.record_store_axioms)

end

interpretation sorted_store: local_store decimal_codec "sort_key row_measured_at"
  by unfold_locales

lemma connect_outcome:
  assumes "connect parent fs_fault open_db cfg db = (x, db')"
  shows "weighing_records db' = weighing_records db \<and> inbound_payloads db' = inbound_payloads db \<and>
    (is_ok x \<longrightarrow>
      open_db (url cfg) (max_connections cfg) = Ok Sqlite \<and>
      {''weighing_records'', ''idx_weighing_records_status_time'', ''inbound_payloads''}
        \<subseteq> set (schema db'))"
proof (cases "snd (ensure_sqlite_parent_dir parent fs_fault (url cfg))")
  case (Err e)
  then have "x = Err e" "db' = db" using assms by (simp_all add: connect_def)
  then show ?thesis by simp
next
  case ens: (Ok u)
  show ?thesis
  proof (cases "open_db (url cfg) (max_connections cfg)")
    case (Err m)
    then have "\<exists>e. x = Err e" "db' = db" using assms ens by (auto simp: connect_def)
    then show ?thesis by auto
  next
    case (Ok b)
    then have m: "run_migrations b db = (x, db')" using assms ens by (simp add: connect_def)
    moreover have "b = Sqlite" if "is_ok x"
      using that m by (cases b) (auto simp: run_migrations_def)
    ultimately show ?thesis using sorted_store.run_migrations_outcome [OF m] Ok by simp
  qed
qed

lemma connect_keeps_wf:
  assumes "connect parent fs_fault open_db cfg db = (x, db')" and "db_wf cx db"
  shows "db_wf cx db'" and "cache_map cx db' = cache_map cx db"
  using connect_outcome [OF assms(1)] assms(2) by (simp_all add: db_wf_def cache_map_def fun_eq_iff)

section \<open>Properties\<close>

lemma local_store_sorted: "codec_laws cx \<Longrightarrow> local_store cx (sort_key row_measured_at)"
  by (intro local_store.intro stable_order.asc_ordering_axioms)

text \<open>A small cache for the witnesses: one pending record and one failed one.\<close>

definition demo_record :: "uuid \<Rightarrow> sync_status \<Rightarrow> datetime \<Rightarrow> weighing_record" where
  "demo_record u st t =
     \<lparr>rec_id = u, rec_ticket_no = ''T1'', rec_scale_no = ''S1'', rec_plate_no = None,
      rec_weight_kg = 0, rec_original_unit = Kilogram, rec_measured_at = t, rec_status = st,
      rec_retry_count = 0, rec_last_error = None, rec_created_at = 1, rec_updated_at = 1\<rparr>"

definition demo_db :: sqlite where
  "demo_db =
     \<lparr>weighing_records = map (record_to_model decimal_codec)
        [demo_record 1 Pending 5, demo_record 2 Failed 3],
      inbound_payloads = [], schema = [], sql_fault = (\<lambda>_. None), sql_n = 0\<rparr>"

lemma demo_record_times [simp]: "rfc3339_range t \<Longrightarrow> record_times_ok (demo_record u st t)"
  by (simp add: demo_record_def record_times_ok_def rfc3339_range_def)

lemma demo_db_wf: "db_wf decimal_codec demo_db"
proof -
  have "row_ok decimal_codec (record_to_model decimal_codec (demo_record u st t))"
    if "rfc3339_range t" for u st t
    using decimal.try_from_to_model [OF demo_record_times [OF that]]
    by (simp add: row_ok_def) (simp add: record_to_model_def)
  moreover have "rfc3339_range 5" "rfc3339_range 3" by (simp_all add: rfc3339_range_def)
  moreover have "row_id (record_to_model decimal_codec (demo_record 1 Pending 5)) \<noteq>
      row_id (record_to_model decimal_codec (demo_record 2 Failed 3))"
    by (simp add: record_to_model_def demo_record_def decimal_codec_def show_nat_small digit_char_def)
  ultimately show ?thesis by (simp add: db_wf_def demo_db_def)
qed

text \<open>
  C17: the cache is a map from identifiers to records, and the statements act on it as one
  would specify. Inserting a record either fails and changes nothing or adds exactly that
  record under an identifier not used before; \<open>mark_synced\<close> (\<open>mark_failed\<close>) either fails and
  changes nothing or sets the given identifiers, and only those, to synced with the error
  cleared (to failed with the retry count incremented and the message stored).
\<close>

theorem cache_statements_refine:
  assumes "codec_laws cx" and "db_wf cx db" and "rfc3339_range now" and "record_times_ok r"
  shows "(case fst (insert_record cx r db) of
        Ok _ \<Rightarrow> cache_map cx db (rec_id r) = None \<and>
          cache_map cx (snd (insert_record cx r db)) = (cache_map cx db)(rec_id r \<mapsto> r)
      | Err _ \<Rightarrow> cache_map cx (snd (insert_record cx r db)) = cache_map cx db) \<and>
    cache_map cx (snd (mark_synced cx now ids db)) =
      (case fst (mark_synced cx now ids db) of
         Ok _ \<Rightarrow> cache_update ids (rec_synced now) (cache_map cx db)
       | Err _ \<Rightarrow> cache_map cx db) \<and>
    cache_map cx (snd (mark_failed cx now ids msg db)) =
      (case fst (mark_failed cx now ids msg db) of
         Ok _ \<Rightarrow> cache_update ids (rec_failed now msg) (cache_map cx db)
       | Err _ \<Rightarrow> cache_map cx db)"
proof -
  note ls = local_store_sorted [OF assms(1)]
  show ?thesis
    using local_store.insert_record_outcome [OF ls assms(2,4) prod.collapse [symmetric]]
      local_store.mark_synced_outcome [OF ls assms(2,3) prod.collapse [symmetric]]
      local_store.mark_failed_outcome [OF ls assms(2,3) prod.collapse [symmetric]]
    by blast
qed

theorem cache_statements_refine_witness:
  "cache_map decimal_codec (snd (mark_synced decimal_codec 7 [1] demo_db)) 1 =
     Some (rec_synced 7 (demo_record 1 Pending 5))"
proof -
  have r: "rfc3339_range 7" "rfc3339_range 5" by (simp_all add: rfc3339_range_def)
  have ok: "fst (mark_synced decimal_codec 7 [1] demo_db) = Ok ()"
    by (simp add: mark_synced_def sql_exec_def update_where_id_in_def demo_db_def with_context_def)
  have "cache_map decimal_codec demo_db (rec_id (demo_record 1 Pending 5)) =
      Some (demo_record 1 Pending 5)"
    using decimal.try_from_to_model [OF demo_record_times [OF r(2)]]
    by (intro cache_map_row [OF demo_db_wf,
          where m = "record_to_model decimal_codec (demo_record 1 Pending 5)"])
      (simp_all add: demo_db_def)
  then have "cache_map decimal_codec demo_db 1 = Some (demo_record 1 Pending 5)"
    by (simp add: demo_record_def)
  then show ?thesis
    using cache_statements_refine [OF decimal.codec_laws_axioms demo_db_wf r(1)
        demo_record_times [OF r(2)], of 9 Pending "[1]"] ok
    by (simp add: cache_update_def)
qed

text \<open>
  C18: no operation breaks the cache. Unique identifiers, rows that convert back to records
  under their own key and unique request identifiers are kept by the insertion of records
  and of inbound payloads, by fetching, by both marks and by the migrations, whether the
  statement succeeds or fails.
\<close>

theorem db_operations_keep_wf:
  assumes "codec_laws cx" and "db_wf cx db" and "rfc3339_range now" and "record_times_ok r"
  shows "db_wf cx (snd (insert_record cx r db)) \<and>
    db_wf cx (snd (fetch_pending cx order_rows limit db)) \<and>
    db_wf cx (snd (mark_synced cx now ids db)) \<and>
    db_wf cx (snd (mark_failed cx now ids msg db)) \<and>
    db_wf cx (snd (insert_inbound_payload cx to_string now u src dbn tbl n payload db)) \<and>
    db_wf cx (snd (run_migrations backend db))"
proof -
  note ls = local_store_sorted [OF assms(1)]
  have "snd (fetch_pending cx order_rows limit db) = db\<lparr>sql_n := Suc (sql_n db)\<rparr>"
    by (cases "sql_fault db (sql_n db)")
      (auto simp: fetch_pending_def sql_exec_fault sql_exec_run)
  moreover have "db_wf cx (snd (run_migrations backend db))"
    using local_store.run_migrations_outcome [OF ls, of backend db] assms(2)
    by (cases "run_migrations backend db") (simp add: db_wf_def)
  ultimately show ?thesis
    using local_store.insert_record_outcome [OF ls assms(2,4) prod.collapse [symmetric]]
      local_store.mark_synced_outcome [OF ls assms(2,3) prod.collapse [symmetric]]
      local_store.mark_failed_outcome [OF ls assms(2,3) prod.collapse [symmetric]]
      local_store.insert_inbound_outcome(1) [OF ls assms(2) prod.collapse [symmetric]]
      local_store.wf_sql_n [OF ls] assms(2)
    by simp
qed

theorem db_operations_keep_wf_witness:
  "db_wf decimal_codec (snd (insert_record decimal_codec (demo_record 3 Pending 5) demo_db))"
proof -
  have r: "rfc3339_range 7" "rfc3339_range 5" by (simp_all add: rfc3339_range_def)
  show ?thesis
    using db_operations_keep_wf [OF decimal.codec_laws_axioms demo_db_wf r(1)
        demo_record_times [OF r(2)]] by blast
qed



text \<open>
  One row that does not convert blocks the batch. When a row among the oldest pending
  ones has an unreadable identifier, unit, status or time, \<open>fetch_pending\<close> returns an error
  instead of the rows it could read, and leaves the tables as they are.
\<close>

theorem fetch_pending_poison_row:
  assumes "m \<in> set (take (unat limit)
      (order_rows (filter is_pending_row (weighing_records db))))"
    and "\<not> is_ok (record_try_from cx m)"
  shows "\<not> is_ok (fst (fetch_pending cx order_rows limit db)) \<and>
    weighing_records (snd (fetch_pending cx order_rows limit db)) = weighing_records db"
proof (cases "sql_fault db (sql_n db)")
  case None
  have "\<not> is_ok (collect (map (record_try_from cx)
      (take (unat limit) (order_rows (filter is_pending_row (weighing_records db))))))"
    using assms by (auto simp: collect_is_ok)
  with None show ?thesis by (simp add: fetch_pending_def sql_exec_run)
next
  case (Some e)
  then show ?thesis by (simp add: fetch_pending_def sql_exec_fault)
qed

theorem fetch_pending_poison_row_witness:
  "\<not> is_ok (fst (fetch_pending decimal_codec (sort_key row_measured_at) 10
     (demo_db\<lparr>weighing_records :=
        [(record_to_model decimal_codec (demo_record 1 Pending 5))\<lparr>row_original_unit := ''stone''\<rparr>]\<rparr>)))"
proof -
  let ?m = "(record_to_model decimal_codec (demo_record 1 Pending 5))\<lparr>row_original_unit := ''stone''\<rparr>"
  have bad: "\<not> is_ok (record_try_from decimal_codec ?m)"
    by (simp add: record_try_from_def weight_unit_parse_def record_to_model_def demo_record_def
        decimal.uuid_roundtrip)
  have "is_pending_row ?m" by (simp add: is_pending_row_def record_to_model_def demo_record_def)
  then show ?thesis
    using fetch_pending_poison_row [of ?m 10 "sort_key row_measured_at"
        "demo_db\<lparr>weighing_records := [?m]\<rparr>" decimal_codec] bad by simp
qed

text \<open>
  Connecting prepares the database. An in-memory database touches no file. For a file, its
  directory is created first and the file only after that succeeded. Whether \<open>connect\<close>
  succeeds or not, the rows that were there still are; when it succeeds the backend is SQLite and
  both tables and the index exist, and every other backend is refused.
\<close>

theorem connect_prepares_database:
  "(contains '':memory:'' u \<longrightarrow> ensure_sqlite_parent_dir parent fs_fault u = ([], Ok ())) \<and>
   (\<not> contains '':memory:'' u \<and> u \<noteq> ''sqlite::memory:'' \<and> sqlite_path u = Some p \<and>
      p \<noteq> '':memory:'' \<and> parent p = Some d \<and> d \<noteq> [] \<longrightarrow>
      fst (ensure_sqlite_parent_dir parent fs_fault u) =
        (if fs_fault (Create_dir_all d) = None then [Create_dir_all d, Open_create_append p]
         else [Create_dir_all d])) \<and>
   (\<forall>x db'. connect parent fs_fault open_db cfg db = (x, db') \<longrightarrow>
     weighing_records db' = weighing_records db \<and> inbound_payloads db' = inbound_payloads db \<and>
     (is_ok x \<longrightarrow>
       open_db (url cfg) (max_connections cfg) = Ok Sqlite \<and>
       {''weighing_records'', ''idx_weighing_records_status_time'', ''inbound_payloads''}
         \<subseteq> set (schema db')))"
proof (intro conjI allI impI)
  show "ensure_sqlite_parent_dir parent fs_fault u = ([], Ok ())" if "contains '':memory:'' u"
    using that by (simp add: ensure_sqlite_parent_dir_def)
  show "fst (ensure_sqlite_parent_dir parent fs_fault u) =
      (if fs_fault (Create_dir_all d) = None then [Create_dir_all d, Open_create_append p]
       else [Create_dir_all d])"
    if "\<not> contains '':memory:'' u \<and> u \<noteq> ''sqlite::memory:'' \<and> sqlite_path u = Some p \<and>
      p \<noteq> '':memory:'' \<and> parent p = Some d \<and> d \<noteq> []"
    using that
    by (cases "fs_fault (Create_dir_all d)")
      (simp_all add: ensure_sqlite_parent_dir_def fs_do_def fs_then_def Let_def)
  fix x db' assume c: "connect parent fs_fault open_db cfg db = (x, db')"
  show "weighing_records db' = weighing_records db" "inbound_payloads db' = inbound_payloads db"
    using connect_outcome [OF c] by auto
  show "open_db (url cfg) (max_connections cfg) = Ok Sqlite"
    "{''weighing_records'', ''idx_weighing_records_status_time'', ''inbound_payloads''} \<subseteq> set (schema db')"
    if "is_ok x"
    using connect_outcome [OF c] that by auto
qed

theorem connect_prepares_database_witness:
  "\<exists>db'. connect (\<lambda>_. None) (\<lambda>_. None) (\<lambda>_ _. Ok Sqlite)
      \<lparr>url = ''sqlite::memory:'', max_connections = 1\<rparr> demo_db = (Ok (), db') \<and>
     weighing_records db' = weighing_records demo_db"
proof -
  let ?cfg = "\<lparr>url = ''sqlite::memory:'', max_connections = 1\<rparr>"
  obtain db' where "connect (\<lambda>_. None) (\<lambda>_. None) (\<lambda>_ _. Ok Sqlite) ?cfg demo_db = (Ok (), db')"
    by (simp add: connect_def ensure_sqlite_parent_dir_def run_migrations_def execute_sql_def
        sql_exec_def create_if_not_exists_def with_context_def demo_db_def)
  then show ?thesis
    using connect_prepares_database [of _ "\<lambda>_. None" "\<lambda>_. None" _ _ "\<lambda>_ _. Ok Sqlite" ?cfg demo_db]
    by blast
qed

end
