(* ===== verification/Receive_Server.thy ===== *)
theory Receive_Server
  imports Local_Db Upload_Http
begin

text \<open>
  The receive server (src/server.rs): start-up, the health route, the handler of uploads with
  its bearer check, and the optional persistence of what was received.

  axum is a parameter: the extraction of the JSON body before the handler runs
  (\<open>extract_json\<close>) and \<open>HeaderValue::to_str\<close>. \<open>Uuid::new_v4()\<close> and \<open>Utc::now()\<close> are the
  arguments \<open>request_id\<close> and \<open>now\<close>.
\<close>

section \<open>State\<close>

record app_state =
  state_api_key :: "string option"
  state_db :: "sqlite option"

record put_response =
  pr_request_id :: uuid
  pr_accepted :: bool
  pr_accepted_serial_nos :: "string list"
  pr_failed_serial_nos :: "string list"
  pr_records_count :: usize
  pr_received_at :: string

record server_lib =
  srv_codec :: codec
  header_to_str :: "string \<Rightarrow> string option"
  value_to_string :: "json \<Rightarrow> (string, string) result"

type_synonym headers = "(string \<times> string) list"

section \<open>Start\<close>

record http_server =
  srv_bind :: string
  srv_route :: string
  srv_max_body :: usize
  srv_state :: app_state

text \<open>
  \<open>parse_addr\<close> parses a socket address and \<open>listen\<close> binds it; the result is the configured
  server, ready to serve.
\<close>

definition run_http_server ::
  "(string \<Rightarrow> (string, string) result) \<Rightarrow> (string \<Rightarrow> (unit, string) result) \<Rightarrow> server_config \<Rightarrow>
   sqlite option \<Rightarrow> (http_server, anyhow) result" where
  "run_http_server parse_addr listen cfg db =
     and_then (context_err (''invalid server bind address: '' @ bind cfg)
         (map_err Msg (parse_addr (bind cfg)))) (\<lambda>addr.
     let state = \<lparr>state_api_key = server_api_key cfg, state_db = db\<rparr>
     in and_then (context_err (''failed to bind HTTP server on '' @ addr)
          (map_err Msg (listen addr))) (\<lambda>_.
        Ok \<lparr>srv_bind = addr, srv_route = route cfg, srv_max_body = max_body_bytes cfg,
            srv_state = state\<rparr>))"

definition health :: "codec \<Rightarrow> datetime \<Rightarrow> json" where
  "health cx now =
     json_object
       [(''service'', JString ''weighing-data-sync''),
        (''status'', JString ''ok''),
        (''time'', JString (to_rfc3339 cx now))]"

section \<open>The handler\<close>

definition extract_bearer_token :: "server_lib \<Rightarrow> headers \<Rightarrow> string option" where
  "extract_bearer_token lib hs =
     (case map_of hs ''authorization'' of
        None \<Rightarrow> None
      | Some raw \<Rightarrow>
          (case header_to_str lib raw of
             None \<Rightarrow> None
           | Some v \<Rightarrow>
               let value = trim v
               in case strip_prefix ''Bearer '' value of
                    Some t \<Rightarrow> Some t
                  | None \<Rightarrow> strip_prefix ''bearer '' value))"

definition error_body :: "codec \<Rightarrow> uuid \<Rightarrow> string \<Rightarrow> json" where
  "error_body cx request_id msg =
     json_object [(''request_id'', JString (uuid_to_string cx request_id)), (''error'', JString msg)]"

definition put_response_json :: "codec \<Rightarrow> put_response \<Rightarrow> json" where
  "put_response_json cx r =
     json_object
       [(''request_id'', JString (uuid_to_string cx (pr_request_id r))),
        (''accepted'', JBool (pr_accepted r)),
        (''accepted_serial_nos'', JArray (map JString (pr_accepted_serial_nos r))),
        (''failed_serial_nos'', JArray (map JString (pr_failed_serial_nos r))),
        (''records_count'', JNumber (JInt (uint (pr_records_count r)))),
        (''received_at'', JString (pr_received_at r))]"

definition payload_records :: "json \<Rightarrow> json list" where
  "payload_records payload =
     (case Option.bind (json_get payload ''records'') as_array of Some rs \<Rightarrow> rs | None \<Rightarrow> [])"

definition record_serial :: "json \<Rightarrow> string option" where
  "record_serial record =
     Option.bind
       (case json_get record ''serialNo'' of Some v \<Rightarrow> Some v | None \<Rightarrow> json_get record ''serial_no'')
       as_str"

definition payload_text :: "json \<Rightarrow> string \<Rightarrow> string" where
  "payload_text payload k =
     (case Option.bind (json_get payload k) as_str of Some s \<Rightarrow> s | None \<Rightarrow> ''unknown'')"

definition authorised :: "server_lib \<Rightarrow> app_state \<Rightarrow> headers \<Rightarrow> bool" where
  "authorised lib st hs =
     (case state_api_key st of
        None \<Rightarrow> True
      | Some expected \<Rightarrow>
          (case extract_bearer_token lib hs of Some token \<Rightarrow> trim token = expected | None \<Rightarrow> False))"

definition put_weighing_data ::
  "server_lib \<Rightarrow> app_state \<Rightarrow> uuid \<Rightarrow> datetime \<Rightarrow> headers \<Rightarrow> json \<Rightarrow> (status_code \<times> json) \<times> app_state"
where
  "put_weighing_data lib st request_id now hs payload =
     (if \<not> authorised lib st hs
      then ((401, error_body (srv_codec lib) request_id ''invalid or missing bearer token''), st)
      else
        let records = payload_records payload
        in if records = []
           then ((400, error_body (srv_codec lib) request_id ''records is missing or empty''), st)
           else
             let serials = List.map_filter record_serial records;
                 source = payload_text payload ''source'';
                 db_name = payload_text payload ''database'';
                 tbl = payload_text payload ''table'';
                 st1 = (case state_db st of
                     None \<Rightarrow> st
                   | Some db \<Rightarrow> st\<lparr>state_db := Some (snd (insert_inbound_payload (srv_codec lib)
                       (value_to_string lib) now request_id source db_name tbl
                       (of_nat (length records)) payload db))\<rparr>)
             in ((200, put_response_json (srv_codec lib)
                  \<lparr>pr_request_id = request_id, pr_accepted = True, pr_accepted_serial_nos = serials,
                   pr_failed_serial_nos = [], pr_records_count = of_nat (length records),
                   pr_received_at = to_rfc3339 (srv_codec lib) now\<rparr>), st1))"

section \<open>Lemmas\<close>

lemma map_filter_Some: "(\<And>x. x \<in> set xs \<Longrightarrow> f x = Some (g x)) \<Longrightarrow> List.map_filter f xs = map g xs"
  by (induction xs) (simp_all add: map_filter_simps)

text \<open>The white space characters, by their bytes.\<close>

lemma white_space_bytes:
  "\<forall>w \<in> set white_space. w \<noteq> [] \<and> CHR ''B'' \<notin> set w \<and> (CHR '' '' \<in> set w \<longrightarrow> w = '' '')"
  by code_simp

lemma leading_None_iff:
  "leading ws s = None \<longleftrightarrow> (\<forall>w \<in> set ws. \<not> (w \<noteq> [] \<and> has_prefix w s))"
  by (auto simp: leading_def find_None_iff)

lemma has_prefix_hd: "has_prefix (c # w) (d # s) \<Longrightarrow> c = d"
  by (simp add: has_prefix_def)

lemma take_past: "length a < n \<Longrightarrow> c \<in> set (take n (a @ c # r))"
  by (simp add: take_Cons')

lemma trim_end_trim: "trim_end (trim s) = trim s"
  by (simp add: trim_def trim_end_def)

lemma leading_bearer: "leading white_space (''Bearer '' @ k) = None"
  unfolding leading_None_iff
proof (intro ballI notI)
  fix w assume w: "w \<in> set white_space" and p: "w \<noteq> [] \<and> has_prefix w (''Bearer '' @ k)"
  obtain c v where cv: "w = c # v" using p by (cases w) auto
  with p have "c = CHR ''B''" using has_prefix_hd [of c v "CHR ''B''"] by simp
  then show False using w cv white_space_bytes by (metis list.set_intros(1))
qed

lemma trim_bearer:
  assumes k: "trim k = k" and ne: "k \<noteq> []"
  shows "trim (''Bearer '' @ k) = ''Bearer '' @ k"
proof -
  have s: "trim_start (''Bearer '' @ k) = ''Bearer '' @ k"
    using leading_bearer by (simp only: trim_start_def trim_with_fixed)
  have "trim_end k = k" using k trim_end_trim by metis
  then have k_end: "leading (map rev white_space) (rev k) = None"
    using leading_trim_with by (metis rev_rev_ident trim_end_def)
  have "leading (map rev white_space) (rev (''Bearer '' @ k)) = None"
    unfolding leading_None_iff
  proof (intro ballI notI)
    fix w assume "w \<in> set (map rev white_space)" and h: "w \<noteq> [] \<and> has_prefix w (rev (''Bearer '' @ k))"
    then obtain v where v: "v \<in> set white_space" "w = rev v" by auto
    have p: "take (length w) (rev k @ CHR '' '' # rev ''Bearer'') = w"
      using h by (simp add: has_prefix_def)
    show False
    proof (cases "length w \<le> length k")
      case True
      then have "has_prefix w (rev k)" using p by (simp add: has_prefix_def)
      moreover have "w \<in> set (map rev white_space)" using v by simp
      ultimately show False using k_end h unfolding leading_None_iff by blast
    next
      case False
      then have "CHR '' '' \<in> set w"
        using take_past [of "rev k" "length w" "CHR '' ''"] p by (metis length_rev not_le)
      then have "v = '' ''" using white_space_bytes v by (metis set_rev)
      then have "length w = 1" using v(2) by simp
      then show False using False ne by (cases k) simp_all
    qed
  qed
  then have "trim_end (''Bearer '' @ k) = ''Bearer '' @ k"
    unfolding trim_end_def by (metis rev_rev_ident trim_with_fixed)
  with s show ?thesis by (simp only: trim_def)
qed

lemma strip_either:
  assumes "\<And>a b. p @ a \<noteq> q @ b"
  shows "(case strip_prefix p v of Some t \<Rightarrow> Some t | None \<Rightarrow> strip_prefix q v) = Some t \<longleftrightarrow>
    v = p @ t \<or> v = q @ t"
proof (cases "strip_prefix p v")
  case None
  then have "v \<noteq> p @ t" by (metis option.distinct(1) strip_prefix_append)
  with None show ?thesis by (simp add: strip_prefix_Some_iff)
next
  case (Some u)
  then have "v = p @ u" by (simp add: strip_prefix_Some_iff)
  with Some assms show ?thesis by auto
qed

lemma extract_bearer_iff:
  "extract_bearer_token lib hs = Some token \<longleftrightarrow>
     (\<exists>raw v. map_of hs ''authorization'' = Some raw \<and> header_to_str lib raw = Some v \<and>
       (trim v = ''Bearer '' @ token \<or> trim v = ''bearer '' @ token))"
proof -
  have apart: "''Bearer '' @ a \<noteq> ''bearer '' @ b" for a b by simp
  show ?thesis
  proof (cases "Option.bind (map_of hs ''authorization'') (header_to_str lib)")
    case None
    then show ?thesis
      by (cases "map_of hs ''authorization''") (simp_all add: extract_bearer_token_def)
  next
    case (Some v)
    then obtain raw where "map_of hs ''authorization'' = Some raw" "header_to_str lib raw = Some v"
      by (cases "map_of hs ''authorization''") simp_all
    then show ?thesis
      unfolding extract_bearer_token_def Let_def
      by (simp only: option.case strip_either [OF apart] option.inject) simp
  qed
qed

lemma extract_bearer_header:
  assumes "map_of hs ''authorization'' = Some (''Bearer '' @ k)"
    and "header_to_str lib (''Bearer '' @ k) = Some (''Bearer '' @ k)"
    and "trim k = k" and "k \<noteq> []"
  shows "extract_bearer_token lib hs = Some k"
  using assms trim_bearer [OF assms(3,4)] strip_prefix_append [of "''Bearer ''" k]
  by (simp add: extract_bearer_token_def Let_def)

lemma put_keeps_key: "state_api_key (snd (put_weighing_data lib st i now hs p)) = state_api_key st"
  by (simp add: put_weighing_data_def Let_def split: option.splits)

lemma inbound_row_count:
  assumes "insert_inbound_payload cx ts now i src dbn tbl n payload db = (x, db')"
  shows "(case x of
      Ok _ \<Rightarrow> \<exists>row. inbound_payloads db' = inbound_payloads db @ [row] \<and>
        in_request_id row = uuid_to_string cx i \<and> ts payload = Ok (in_payload_json row) \<and>
        in_source row = src \<and> in_records_count row = sint n
    | Err _ \<Rightarrow> inbound_payloads db' = inbound_payloads db) \<and> weighing_records db' = weighing_records db"
  using assms
  by (auto simp: insert_inbound_payload_def sql_exec_def with_context_def Let_def
      split: result.splits option.splits if_splits)

section \<open>Properties\<close>

definition demo_server_lib :: server_lib where
  "demo_server_lib = \<lparr>srv_codec = decimal_codec, header_to_str = Some,
     value_to_string = (\<lambda>_. Ok ''{}'')\<rparr>"

text \<open>
  C28: the bearer check. With a key configured, an upload is processed only when the request has
  an \<open>Authorization\<close> header that reads, after trimming, \<open>Bearer\<close> or \<open>bearer\<close>, one space and a
  token that is the key after trimming; every other request is answered 401 and nothing is
  stored. A client that sends the key the way the engines do (and whose key is not empty and
  has no surrounding white space) passes.
\<close>

theorem put_requires_bearer:
  assumes "state_api_key st = Some key"
  shows "(fst (fst (put_weighing_data lib st i now hs payload)) \<noteq> 401 \<longleftrightarrow>
      (\<exists>raw v token. map_of hs ''authorization'' = Some raw \<and> header_to_str lib raw = Some v \<and>
        (trim v = ''Bearer '' @ token \<or> trim v = ''bearer '' @ token) \<and> trim token = key)) \<and>
    (fst (fst (put_weighing_data lib st i now hs payload)) = 401 \<longrightarrow>
      snd (put_weighing_data lib st i now hs payload) = st) \<and>
    (key \<noteq> [] \<and> trim key = key \<and> header_to_str lib (''Bearer '' @ key) = Some (''Bearer '' @ key) \<and>
      hs = rq_headers (bearer_auth key (http_post u)) \<longrightarrow> authorised lib st hs)"
proof (intro conjI impI)
  have st: "fst (fst (put_weighing_data lib st i now hs payload)) \<noteq> 401 \<longleftrightarrow> authorised lib st hs"
    by (simp add: put_weighing_data_def Let_def split: option.splits)
  have "authorised lib st hs \<longleftrightarrow> (\<exists>token. extract_bearer_token lib hs = Some token \<and> trim token = key)"
    using assms by (simp add: authorised_def split: option.splits)
  also have "\<dots> \<longleftrightarrow>
      (\<exists>raw v token. map_of hs ''authorization'' = Some raw \<and> header_to_str lib raw = Some v \<and>
        (trim v = ''Bearer '' @ token \<or> trim v = ''bearer '' @ token) \<and> trim token = key)"
    unfolding extract_bearer_iff by blast
  finally show "fst (fst (put_weighing_data lib st i now hs payload)) \<noteq> 401 \<longleftrightarrow>
      (\<exists>raw v token. map_of hs ''authorization'' = Some raw \<and> header_to_str lib raw = Some v \<and>
        (trim v = ''Bearer '' @ token \<or> trim v = ''bearer '' @ token) \<and> trim token = key)"
    using st by blast
  show "snd (put_weighing_data lib st i now hs payload) = st"
    if "fst (fst (put_weighing_data lib st i now hs payload)) = 401"
    using that st by (simp add: put_weighing_data_def)
  assume k: "key \<noteq> [] \<and> trim key = key \<and> header_to_str lib (''Bearer '' @ key) = Some (''Bearer '' @ key) \<and>
      hs = rq_headers (bearer_auth key (http_post u))"
  then have "map_of hs ''authorization'' = Some (''Bearer '' @ key)"
    by (simp add: bearer_auth_def with_header_def http_post_def)
  then show "authorised lib st hs"
    using extract_bearer_header k assms by (simp add: authorised_def)
qed

theorem put_requires_bearer_witness:
  "fst (fst (put_weighing_data demo_server_lib \<lparr>state_api_key = Some ''k'', state_db = None\<rparr> 1 2 [] JNull)) = 401"
proof -
  have "state_api_key \<lparr>state_api_key = Some ''k'', state_db = None\<rparr> = Some ''k''" by simp
  from put_requires_bearer [OF this, of demo_server_lib 1 2 "[]" JNull] show ?thesis by simp
qed



end
