(* ===== verification/End_To_End.thy ===== *)
theory End_To_End
  imports Sql_Server_Engine Receive_Server "HOL-Library.Countable"
begin

text \<open>
  The SQL Server engine talking to the receive server of the same repository. \<open>receiver\<close> is a
  running receive server: its libraries, the identifiers and times it draws, and axum's
  extraction of the body. It answers the request at the end of the history from the state
  the earlier requests left. \<open>wire\<close> states what the two sides rely on: what one side's serde_json
  prints the other side parses back, and a JSON body within the limit is extracted.
\<close>

section \<open>Values both sides print and parse alike\<close>

text \<open>
  JSON values whose floats satisfy \<open>F\<close>, with integers of 64 bits and with the keys of every object in
  the order of a \<open>BTreeMap\<close>; plain ones have no floats. (serde_json's default parser may round the
  last digit of a float.)
\<close>

fun json_over :: "(f64 \<Rightarrow> bool) \<Rightarrow> json \<Rightarrow> bool" where
  "json_over F JNull = True"
| "json_over F (JBool b) = True"
| "json_over F (JNumber (JInt i)) = (- (2 ^ 63) \<le> i \<and> i < 2 ^ 64)"
| "json_over F (JNumber (JFloat x)) = F x"
| "json_over F (JString s) = True"
| "json_over F (JArray xs) = (\<forall>x \<in> set xs. json_over F x)"
| "json_over F (JObject m) =
     (sorted (map fst m) \<and> distinct (map fst m) \<and> (\<forall>x \<in> snd ` set m. json_over F x))"

abbreviation json_plain :: "json \<Rightarrow> bool" where
  "json_plain \<equiv> json_over (\<lambda>_. False)"

section \<open>The receiver\<close>

record receiver =
  rcv_lib :: server_lib
  rcv_extract :: "http_request \<Rightarrow> (json, http_response) result"
  rcv_id :: "nat \<Rightarrow> uuid"
  rcv_now :: "nat \<Rightarrow> datetime"
  rcv_print :: "json \<Rightarrow> (string, string) result"
  rcv_limit :: nat

text \<open>One request: extraction, the handler, and axum's \<open>Json\<close> response (500 if it cannot print).\<close>

definition receive :: "receiver \<Rightarrow> nat \<Rightarrow> http_request \<Rightarrow> app_state \<Rightarrow> http_response \<times> app_state" where
  "receive R n rq st =
     (case rcv_extract R rq of
        Err rp \<Rightarrow> (rp, st)
      | Ok payload \<Rightarrow>
          (case put_weighing_data (rcv_lib R) st (rcv_id R n) (rcv_now R n) (rq_headers rq) payload of
             ((status, body), st') \<Rightarrow>
               ((case rcv_print R body of
                   Ok text \<Rightarrow> \<lparr>rs_status = status, rs_body = Ok text\<rparr>
                 | Err m \<Rightarrow> \<lparr>rs_status = 500, rs_body = Ok m\<rparr>), st')))"

fun receive_all :: "receiver \<Rightarrow> nat \<Rightarrow> http_request list \<Rightarrow> app_state \<Rightarrow> app_state" where
  "receive_all R n [] st = st"
| "receive_all R n (rq # rqs) st = receive_all R (Suc n) rqs (snd (receive R n rq st))"

definition receiver_remote ::
  "receiver \<Rightarrow> app_state \<Rightarrow> http_request list \<Rightarrow> (http_response, string) result" where
  "receiver_remote R st history =
     (if history = [] then Err ''no request''
      else Ok (fst (receive R (length history - 1) (last history)
        (receive_all R 0 (butlast history) st))))"

locale wire =
  fixes lib :: http_lib and R :: receiver
  assumes print_request: "json_plain j \<Longrightarrow> \<exists>t. to_vec lib j = Ok t"
    and extract_request: "json_plain j \<Longrightarrow> to_vec lib j = Ok t \<Longrightarrow> rq_body rq = Ok t \<Longrightarrow>
      map_of (rq_headers rq) ''content-type'' = Some ''application/json'' \<Longrightarrow>
      map_of (rq_headers rq) ''content-encoding'' = None \<Longrightarrow> length t \<le> rcv_limit R \<Longrightarrow>
      rcv_extract R rq = Ok j"
    and print_response: "json_plain j \<Longrightarrow> \<exists>t. rcv_print R j = Ok t \<and> trim t \<noteq> [] \<and> from_str lib t = Ok j"
begin

lemma receive_keeps_key: "state_api_key (snd (receive R n rq st)) = state_api_key st"
  using put_keeps_key [of "rcv_lib R" st "rcv_id R n" "rcv_now R n" "rq_headers rq"]
  by (simp add: receive_def split: result.splits prod.splits) (metis snd_conv)

lemma receive_all_keeps_key: "state_api_key (receive_all R n rqs st) = state_api_key st"
  by (induction rqs arbitrary: n st) (simp_all add: receive_keeps_key)

end

section \<open>Lemmas on plain values\<close>

declare json_over.simps(7) [simp del]

lemma json_over_empty [simp]: "json_over F (JObject [])"
  by (simp add: json_over.simps)

lemma map_insert_over:
  assumes "json_over F (JObject m)" and "json_over F v"
  shows "json_over F (JObject (map_insert k v m))"
proof -
  have "snd ` set (map_insert k v m) \<subseteq> insert v (snd ` set m)"
    by (induction k v m rule: map_insert.induct) auto
  moreover have "\<forall>x \<in> snd ` set m. json_over F x" using assms(1) unfolding json_over.simps by blast
  ultimately have "\<forall>x \<in> snd ` set (map_insert k v m). json_over F x" using assms(2) by blast
  then show ?thesis
    using assms(1) map_insert_sorted [of m k v] by (simp add: json_over.simps)
qed

lemma fold_insert_over:
  "json_over F (JObject m) \<Longrightarrow> (\<forall>f \<in> set fs. json_over F (snd f)) \<Longrightarrow>
     json_over F (JObject (fold (\<lambda>(k, v). map_insert k v) fs m))"
proof (induction fs arbitrary: m)
  case (Cons f fs)
  obtain k v where f: "f = (k, v)" by fastforce
  show ?case using Cons.IH [OF map_insert_over] Cons.prems f by simp
qed simp

lemma json_object_over: "(\<forall>f \<in> set fs. json_over F (snd f)) \<Longrightarrow> json_over F (json_object fs)"
  unfolding json_object_def by (rule fold_insert_over) (simp_all add: map_new_def)

lemma sint_64_range: "- (2 ^ 63) \<le> sint (x :: 64 word) \<and> sint x < 2 ^ 64"
proof -
  have "- (2 ^ 63) \<le> sint x" using sint_ge [of x] by simp
  moreover have "sint x < 2 ^ 63" using sint_lt [of x] by simp
  ultimately show ?thesis by simp
qed

lemma sint_32_range: "- (2 ^ 63) \<le> sint (x :: 32 word) \<and> sint x < 2 ^ 64"
proof -
  have "- (2 ^ 31) \<le> sint x" using sint_ge [of x] by simp
  moreover have "sint x < 2 ^ 31" using sint_lt [of x] by simp
  ultimately show ?thesis by simp
qed

lemma column_value_entity:
  "column_value_to_json lib row n ty (String x) =
     Ok (case x of Some s \<Rightarrow> JString s | None \<Rightarrow> JNull)"
  "column_value_to_json lib row n ty (I32 i) =
     Ok (case i of Some v \<Rightarrow> JNumber (JInt (sint v)) | None \<Rightarrow> JNull)"
  "column_value_to_json lib row n ty (I64 l) =
     Ok (case l of Some v \<Rightarrow> JNumber (JInt (sint v)) | None \<Rightarrow> JNull)"
  "column_value_to_json lib row n ty (Guid g) =
     Ok (case g of Some v \<Rightarrow> JString (guid_to_string lib v) | None \<Rightarrow> JNull)"
  "column_value_to_json lib row n ty (Numeric d) =
     (case d of
        Some v \<Rightarrow> (case format_numeric v of Some s \<Rightarrow> Ok (JString s) | None \<Rightarrow> Err arithmetic_panic)
      | None \<Rightarrow> Ok JNull)"
  "column_value_to_json lib row n ty (DateTime t) =
     (case t of
        Some _ \<Rightarrow> and_then (format_datetime lib row n) (\<lambda>s. Ok (JString s)) | None \<Rightarrow> Ok JNull)"
  by (cases x, simp_all add: column_value_to_json_def) (cases i, simp_all, cases l, simp_all,
      cases g, simp_all, cases d, simp_all, cases t, simp_all)

lemma entity_value_plain:
  assumes "entity_cell v" and "column_value_to_json lib row n ty v = Ok j"
  shows "json_plain j"
proof (cases v)
  case (I32 i)
  then show ?thesis using assms sint_32_range by (cases i) (auto simp: column_value_entity)
next
  case (I64 i)
  then show ?thesis using assms sint_64_range by (cases i) (auto simp: column_value_entity)
next
  case (Numeric d)
  then show ?thesis
    using assms by (auto simp: column_value_entity split: option.splits)
next
  case (DateTime t)
  then show ?thesis
    using assms by (auto simp: column_value_entity and_then_Ok_iff split: option.splits)
next
  case (String x)
  then show ?thesis using assms by (auto simp: column_value_entity split: option.splits)
next
  case (Guid x)
  then show ?thesis using assms by (auto simp: column_value_entity split: option.splits)
qed (use assms(1) in \<open>simp_all add: entity_cell_def\<close>)

lemma row_data_plain:
  "row_data lib row cells m = Ok m' \<Longrightarrow> list_all (\<lambda>(_, _, v). entity_cell v) cells \<Longrightarrow>
     json_plain (JObject m) \<Longrightarrow> json_plain (JObject m')"
proof (induction cells arbitrary: m)
  case (Cons c cells)
  obtain n ty v where c: "c = (n, ty, v)" by (cases c) auto
  with Cons.prems obtain j where j: "column_value_to_json lib row n ty v = Ok j"
    "row_data lib row cells (map_insert n j m) = Ok m'" by (auto simp: and_then_Ok_iff)
  have "entity_cell v" using Cons.prems(2) c by simp
  then have "json_plain (JObject (map_insert n j m))"
    using map_insert_over [OF Cons.prems(3)] entity_value_plain j(1) by blast
  then show ?case using Cons.IH [OF j(2)] Cons.prems(2) by simp
qed simp

lemma put_response_plain: "json_plain (put_response_json cx r)"
proof -
  have "uint (pr_records_count r) < 2 ^ 64" using uint_lt2p [of "pr_records_count r"] by simp
  moreover have "- (2 ^ 63) \<le> uint (pr_records_count r)"
    by (rule order_trans [of _ 0]) simp_all
  ultimately have "json_plain (JNumber (JInt (uint (pr_records_count r))))" by (simp only: json_over.simps)
  then show ?thesis
    unfolding put_response_json_def by (intro json_object_over) (auto simp del: json_over.simps(3))
qed

lemma de_field_object:
  "de_field conv d name pos (json_object fs) =
     (case map_of (rev fs) name of Some v \<Rightarrow> conv v | None \<Rightarrow> Ok d)"
  using json_get_object [of fs name] by (simp add: de_field_def json_object_def)

lemma de_strings: "de_vec de_string (JArray (map JString xs)) = Ok xs"
proof -
  have "map de_string (map JString xs) = map Ok xs" by (simp add: de_string_def)
  then show ?thesis by (simp only: de_vec_def json.case collect_map_Ok)
qed

text \<open>The engine reads the receiver's acknowledgement.\<close>

lemma put_response_read:
  "sqlserver_response_de (put_response_json cx r) =
     Ok \<lparr>accepted_serial_nos = pr_accepted_serial_nos r, failed_serial_nos = pr_failed_serial_nos r\<rparr>"
proof -
  have "de_two_vecs de_string ''accepted_serial_nos'' ''failed_serial_nos'' (put_response_json cx r) =
      Ok (pr_accepted_serial_nos r, pr_failed_serial_nos r)"
    unfolding put_response_json_def de_two_vecs_def de_field_object
    by (simp add: de_strings) (simp add: json_object_def)
  then show ?thesis by (simp add: sqlserver_response_de_def)
qed

section \<open>The exchange\<close>

definition keys_agree :: "receiver \<Rightarrow> app_state \<Rightarrow> string option \<Rightarrow> bool" where
  "keys_agree R st client_key \<longleftrightarrow>
     (case state_api_key st of
        None \<Rightarrow> True
      | Some k \<Rightarrow> client_key = Some k \<and> k \<noteq> [] \<and> trim k = k \<and>
          header_to_str (rcv_lib R) (''Bearer '' @ k) = Some (''Bearer '' @ k))"

definition upload_json :: "http_lib \<Rightarrow> sqlserver_engine \<Rightarrow> json_map list \<Rightarrow> datetime \<Rightarrow> json" where
  "upload_json lib e records t =
     sqlserver_request_json lib
       \<lparr>su_source = ''sqlserver-yunfu-tbl_weightInfo'', su_database = database_name (sq_source e),
        su_table = table_name (sq_source e), su_uploaded_at = t, su_records = records\<rparr>"

text \<open>The body stays within the receiver's limit.\<close>

definition body_fits :: "http_lib \<Rightarrow> receiver \<Rightarrow> sqlserver_engine \<Rightarrow> json_map list \<Rightarrow> bool" where
  "body_fits lib R e records \<longleftrightarrow>
     (\<forall>t text. to_vec lib (upload_json lib e records t) = Ok text \<longrightarrow> length text \<le> rcv_limit R)"

text \<open>The request of either engine without compression.\<close>

definition upload_request :: "http_lib \<Rightarrow> api_config \<Rightarrow> json \<Rightarrow> http_request" where
  "upload_request lib a j =
     json_body lib j (case api_api_key a of
       Some k \<Rightarrow> bearer_auth k (http_post (endpoint a)) | None \<Rightarrow> http_post (endpoint a))"

lemma upload_request_headers:
  "map_of (rq_headers (upload_request lib a j)) ''content-type'' = Some ''application/json''"
  "map_of (rq_headers (upload_request lib a j)) ''content-encoding'' = None"
  "map_of (rq_headers (upload_request lib a j)) ''authorization'' =
     map_option (\<lambda>k. ''Bearer '' @ k) (api_api_key a)"
  "rq_body (upload_request lib a j) = to_vec lib j"
  by (simp_all add: upload_request_def json_body_def with_header_def bearer_auth_def http_post_def
      split: option.splits)

lemma build_upload_request:
  "\<not> compression lib \<Longrightarrow> build_payload_request lib c1 c2 c3 (case api_api_key a of
      Some k \<Rightarrow> bearer_auth k (http_post (endpoint a)) | None \<Rightarrow> http_post (endpoint a)) j =
    Ok (upload_request lib a j)"
  by (simp add: build_payload_request_def upload_request_def)

text \<open>The receiver after all requests so far, and what it takes to store the next one.\<close>

definition receiver_after :: "receiver \<Rightarrow> app_state \<Rightarrow> http_request list \<Rightarrow> app_state" where
  "receiver_after R st history = receive_all R 0 history st"

definition persists :: "receiver \<Rightarrow> nat \<Rightarrow> app_state \<Rightarrow> bool" where
  "persists R n st \<longleftrightarrow>
     (\<exists>db. state_db st = Some db \<and> sql_fault db (sql_n db) = None \<and>
        uuid_to_string (srv_codec (rcv_lib R)) (rcv_id R n) \<notin> in_request_id ` set (inbound_payloads db)) \<and>
     (\<forall>j. is_ok (value_to_string (rcv_lib R) j))"

text \<open>
  One request was sent, and if the receiver could store it, its table of received payloads got one
  row with the payload, whose records satisfy \<open>P\<close>.
\<close>

definition stored_once ::
  "receiver \<Rightarrow> app_state \<Rightarrow> http_request list \<Rightarrow> http_request list \<Rightarrow> string \<Rightarrow> string \<Rightarrow> string \<Rightarrow>
   (json list \<Rightarrow> bool) \<Rightarrow> bool" where
  "stored_once R st h h' src dbn tbl P \<longleftrightarrow>
     (\<exists>rq. h' = h @ [rq]) \<and>
     (persists R (length h) (receiver_after R st h) \<longrightarrow>
       (\<exists>db db' row j. state_db (receiver_after R st h) = Some db \<and>
          state_db (receiver_after R st h') = Some db' \<and>
          inbound_payloads db' = inbound_payloads db @ [row] \<and>
          value_to_string (rcv_lib R) j = Ok (in_payload_json row) \<and> P (payload_records j) \<and>
          in_source row = src \<and> in_source_db row = dbn \<and> in_source_table row = tbl \<and>
          in_records_count row = sint (of_nat (length (payload_records j)) :: usize)))"

lemma receive_all_snoc:
  "receive_all R n (rqs @ [rq]) st = snd (receive R (n + length rqs) rq (receive_all R n rqs st))"
  by (induction rqs arbitrary: n st) simp_all

lemma stored_onceI:
  assumes ex: "rcv_extract R rq = Ok j" and ne: "payload_records j \<noteq> []"
    and auth: "authorised (rcv_lib R) (receiver_after R st h) (rq_headers rq)"
    and P: "P (payload_records j)" "payload_text j ''source'' = src"
      "payload_text j ''database'' = dbn" "payload_text j ''table'' = tbl"
  shows "stored_once R st h (h @ [rq]) src dbn tbl P"
proof -
  let ?st = "receiver_after R st h" and ?cx = "srv_codec (rcv_lib R)" and ?n = "length h"
  have after: "receiver_after R st (h @ [rq]) = snd (put_weighing_data (rcv_lib R) ?st (rcv_id R ?n)
      (rcv_now R ?n) (rq_headers rq) j)"
    using ex by (simp add: receiver_after_def receive_all_snoc receive_def split: prod.splits)
  have "\<exists>db db' row. state_db ?st = Some db \<and> state_db (receiver_after R st (h @ [rq])) = Some db' \<and>
      inbound_payloads db' = inbound_payloads db @ [row] \<and>
      value_to_string (rcv_lib R) j = Ok (in_payload_json row) \<and>
      in_source row = src \<and> in_source_db row = dbn \<and> in_source_table row = tbl \<and>
      in_records_count row = sint (of_nat (length (payload_records j)) :: usize)"
    if per: "persists R ?n ?st"
  proof -
    obtain db where db: "state_db ?st = Some db" "sql_fault db (sql_n db) = None"
      "uuid_to_string ?cx (rcv_id R ?n) \<notin> in_request_id ` set (inbound_payloads db)"
      using per by (auto simp: persists_def)
    obtain t where t: "value_to_string (rcv_lib R) j = Ok t"
      using per by (auto simp: persists_def is_ok_iff)
    show ?thesis
      unfolding after using ne auth db t P
      by (simp add: put_weighing_data_def insert_inbound_payload_def sql_exec_def Let_def)
  qed
  then show ?thesis using P(1) unfolding stored_once_def by blast
qed

lemma upload_json_plain:
  "(\<forall>m \<in> set records. json_plain (JObject m)) \<Longrightarrow> json_plain (upload_json lib e records t)"
  unfolding upload_json_def sqlserver_request_json_def by (intro json_object_over) auto

lemma upload_json_fields:
  "payload_records (upload_json lib e records t) = map JObject records"
  "payload_text (upload_json lib e records t) ''source'' = ''sqlserver-yunfu-tbl_weightInfo''"
  "payload_text (upload_json lib e records t) ''database'' = database_name (sq_source e)"
  "payload_text (upload_json lib e records t) ''table'' = table_name (sq_source e)"
  by (simp_all add: payload_records_def payload_text_def upload_json_def sqlserver_request_json_def
      json_get_object)

context wire
begin

lemma client_authorised:
  assumes "keys_agree R st (api_api_key a)"
  shows "authorised (rcv_lib R) (receiver_after R st h) (rq_headers (upload_request lib a j))"
proof -
  have "state_api_key (receiver_after R st h) = state_api_key st"
    by (simp add: receiver_after_def receive_all_keeps_key)
  then show ?thesis
    using assms extract_bearer_header [of "rq_headers (upload_request lib a j)" _ "rcv_lib R"]
      upload_request_headers(3)
    by (auto simp: authorised_def keys_agree_def split: option.splits)
qed

text \<open>An authorised request with records is answered 200 with the acknowledgement of the handler.\<close>

lemma receiver_answers:
  assumes ex: "rcv_extract R (upload_request lib a j) = Ok j'" and ne: "payload_records j' \<noteq> []"
    and keys: "keys_agree R st (api_api_key a)"
  shows "\<exists>body r. receiver_remote R st (h @ [upload_request lib a j]) =
      Ok \<lparr>rs_status = 200, rs_body = Ok body\<rparr> \<and> trim body \<noteq> [] \<and>
    from_str lib body = Ok (put_response_json (srv_codec (rcv_lib R)) r) \<and>
    pr_accepted_serial_nos r = List.map_filter record_serial (payload_records j') \<and>
    pr_failed_serial_nos r = []"
proof -
  let ?st = "receiver_after R st h" and ?rq = "upload_request lib a j" and ?n = "length h"
  have "authorised (rcv_lib R) ?st (rq_headers ?rq)" using keys by (rule client_authorised)
  then obtain r st' where put: "put_weighing_data (rcv_lib R) ?st (rcv_id R ?n) (rcv_now R ?n)
      (rq_headers ?rq) j' = ((200, put_response_json (srv_codec (rcv_lib R)) r), st')"
    and r: "pr_accepted_serial_nos r = List.map_filter record_serial (payload_records j')"
      "pr_failed_serial_nos r = []"
    using ne unfolding put_weighing_data_def Let_def by simp
  obtain body where body: "rcv_print R (put_response_json (srv_codec (rcv_lib R)) r) = Ok body"
    "trim body \<noteq> []" "from_str lib body = Ok (put_response_json (srv_codec (rcv_lib R)) r)"
    using print_response [OF put_response_plain] by blast
  have "receiver_remote R st (h @ [?rq]) = Ok \<lparr>rs_status = 200, rs_body = Ok body\<rparr>"
    using put body(1) ex by (simp add: receiver_remote_def receive_def receiver_after_def)
  then show ?thesis using body(2, 3) r by blast
qed

lemma plain_request:
  assumes "json_plain j" and "\<And>t. to_vec lib j = Ok t \<Longrightarrow> length t \<le> rcv_limit R"
  shows "rcv_extract R (upload_request lib a j) = Ok j"
proof -
  obtain t where t: "to_vec lib j = Ok t" using print_request [OF assms(1)] by blast
  then show ?thesis
    using extract_request [OF assms(1) t, of "upload_request lib a j"] assms(2) [OF t]
      upload_request_headers by metis
qed

lemma upload_accepted:
  assumes L: "sq_http L = lib" "\<not> compression lib" and w: "remote w = receiver_remote R st"
    and plain: "\<forall>m \<in> set records. json_plain (JObject m)" and ne: "records \<noteq> []"
    and serials: "\<forall>m \<in> set records. map_of m ''serialNo'' = Some (JString (serial m))"
    and keys: "keys_agree R st (api_api_key (sq_api e))" and fits: "body_fits lib R e records"
  shows "\<exists>w'. sqlserver_upload_batch L e records w =
      (Ok \<lparr>accepted_serial_nos = map serial records, failed_serial_nos = []\<rparr>, w') \<and>
    stored_once R st (sent w) (sent w') ''sqlserver-yunfu-tbl_weightInfo'' (database_name (sq_source e))
      (table_name (sq_source e)) (\<lambda>js. js = map JObject records)"
proof -
  let ?j = "upload_json lib e records (utc_now w)"
  let ?rq = "upload_request lib (sq_api e) ?j"
  have pj: "json_plain ?j" using plain by (rule upload_json_plain)
  then obtain tx where tx: "to_vec lib ?j = Ok tx" using print_request by blast
  have ex: "rcv_extract R ?rq = Ok ?j"
    using fits by (intro plain_request [OF pj]) (auto simp: body_fits_def)
  have ss: "List.map_filter record_serial (map JObject records) = map serial records"
    using serials by (induction records) (simp_all add: map_filter_simps record_serial_def)
  obtain body r where a: "remote w (sent w @ [?rq]) = Ok \<lparr>rs_status = 200, rs_body = Ok body\<rparr>"
    "trim body \<noteq> []" "from_str lib body = Ok (put_response_json (srv_codec (rcv_lib R)) r)"
    "pr_accepted_serial_nos r = map serial records" "pr_failed_serial_nos r = []"
    using receiver_answers [OF ex _ keys, of "sent w"] ne ss w by (auto simp: upload_json_fields)
  have "sqlserver_read_reply lib \<lparr>rs_status = 200, rs_body = Ok body\<rparr> =
      Ok \<lparr>accepted_serial_nos = map serial records, failed_serial_nos = []\<rparr>"
    using a(2-) put_response_read [of _ r] by (simp add: sqlserver_read_reply_def is_success_def)
  then have "\<exists>w'. sqlserver_upload_batch L e records w =
      (Ok \<lparr>accepted_serial_nos = map serial records, failed_serial_nos = []\<rparr>, w') \<and>
      sent w' = sent w @ [?rq]"
    unfolding sqlserver_upload_batch_eq Let_def L(1) upload_json_def [symmetric]
      build_upload_request [OF L(2)]
    using a(1) tx by (simp add: http_send_def upload_request_headers Let_def)
  moreover have "stored_once R st (sent w) (sent w @ [?rq]) ''sqlserver-yunfu-tbl_weightInfo''
      (database_name (sq_source e)) (table_name (sq_source e)) (\<lambda>js. js = map JObject records)"
    using ne by (intro stored_onceI [OF ex _ client_authorised [OF keys]]) (simp_all add: upload_json_fields)
  ultimately show ?thesis by metis
qed

end

section \<open>A cycle against the receiver\<close>

definition data_serial :: "json_map \<Rightarrow> string" where
  "data_serial m = (case map_of m ''serialNo'' of Some (JString s) \<Rightarrow> s | _ \<Rightarrow> [])"

context sql_source
begin

lemma fetched_data:
  assumes "source_fetch_pending env src n s = (Ok rs, s')" and "rec \<in> set rs"
  shows "json_plain (JObject (sw_data rec))" and "map_of (sw_data rec) ''serialNo'' = Some (JString (sw_serial_no rec))"
proof -
  have "Ok rec \<in> set (map (\<lambda>r. row_to_record (env_lib env) (weight_info_cells r))
      (select_top env n (weight_rows s)))"
    using fetch_pending_Ok [OF assms(1)] assms(2) by simp
  then obtain r where r: "row_to_record (env_lib env) (weight_info_cells r) = Ok rec" by auto
  then obtain data where "row_data (env_lib env) (weight_info_cells r) (weight_info_cells r) map_new = Ok data"
    and d: "sw_data rec = data"
    unfolding row_to_record_eq by (auto simp: and_then_Ok_iff split: if_splits)
  then show "json_plain (JObject (sw_data rec))"
    using row_data_plain weight_info_entity_cells [of r] by (simp add: map_new_def)
  show "map_of (sw_data rec) ''serialNo'' = Some (JString (sw_serial_no rec))"
    using row_to_record_Ok [OF r] by (simp add: row_json_complete_def)
qed

end

lemma mark_and_report_sent: "mark_and_report L e ss response w = (x, w') \<Longrightarrow> sent w' = sent w"
  by (auto simp: mark_and_report_def try_then_def on_source_def split: prod.splits result.splits)

text \<open>What one cycle against the receiver comes to.\<close>

definition delivered_rows ::
  "sql_libs \<Rightarrow> receiver \<Rightarrow> app_state \<Rightarrow> sqlserver_engine \<Rightarrow> sqlserver_weight_record list \<Rightarrow>
   sql_server world \<Rightarrow> sync_outcome \<Rightarrow> sql_server world \<Rightarrow> bool" where
  "delivered_rows L R st e rs w out w' \<longleftrightarrow>
     synced out = fetched out \<and> failed out = 0 \<and>
     pending_rows w' \<le> pending_rows w - unat (batch_size (sq_sync e)) \<and>
     (rs = [] \<and> sent w' = sent w \<or>
      stored_once R st (sent w) (sent w') ''sqlserver-yunfu-tbl_weightInfo'' (database_name (sq_source e))
        (table_name (sq_source e)) (\<lambda>js. js = map (JObject \<circ> sw_data) rs))"

lemma receiver_cycle:
  assumes src: "sql_source (sq_env L)" and wr: "wire (sq_http L) R" and nc: "\<not> compression (sq_http L)"
    and q: "sql_quiet L w" and rm: "remote w = receiver_remote R st"
    and keys: "keys_agree R st (api_api_key (sq_api e))" and on: "mark_uploaded_enabled (sq_source e)"
    and fits: "\<And>rs s'. source_fetch_pending (sq_env L) (sq_source e) (batch_size (sq_sync e))
      (source_of w) = (Ok rs, s') \<Longrightarrow> body_fits (sq_http L) R e (map sw_data rs)"
  shows "\<exists>rs s' out w'. source_fetch_pending (sq_env L) (sq_source e) (batch_size (sq_sync e))
      (source_of w) = (Ok rs, s') \<and> sqlserver_sync_once L e w = Some (Ok out, w') \<and>
    delivered_rows L R st e rs w out w'"
proof -
  have eng: "sql_engine L" using src by (rule sql_engine.intro)
  let ?n = "batch_size (sq_sync e)"
  obtain rs w1 where f: "on_source (source_fetch_pending (sq_env L) (sq_source e) ?n) w = (Ok rs, w1)"
    and q1: "sql_quiet L w1" using sql_engine.quiet_fetch [OF eng q] by blast
  note fw = sql_engine.fetch_in_world [OF eng f]
  obtain s1 where s1: "source_fetch_pending (sq_env L) (sq_source e) ?n (source_of w) = (Ok rs, s1)"
    "w1 = w\<lparr>source_of := s1\<rparr>" using f by (auto simp: on_source_iff)
  show ?thesis
  proof (cases "rs = []")
    case True
    then have "unat ?n = 0 \<or> pending_rows w = 0" using fw(4) by (auto simp: pending_rows_def)
    then have "delivered_rows L R st e rs w outcome_no_data w1"
      using True fw(1) s1(2) by (auto simp: delivered_rows_def pending_rows_def outcome_no_data_def)
    then show ?thesis using sync_once_idle(1) f True s1(1) by blast
  next
    case False
    let ?data = "map sw_data rs"
    note fd = sql_source.fetched_data [OF src s1(1)]
    have "\<forall>m \<in> set ?data. json_plain (JObject m)"
      "\<forall>m \<in> set ?data. map_of m ''serialNo'' = Some (JString (data_serial m))"
      using fd by (auto simp: data_serial_def)
    moreover have "remote w1 = receiver_remote R st" using fw(2) rm by (simp add: same_env_def)
    ultimately obtain w2 where up: "sqlserver_upload_batch L e ?data w1 =
        (Ok \<lparr>accepted_serial_nos = map data_serial ?data, failed_serial_nos = []\<rparr>, w2)"
      and st: "stored_once R st (sent w1) (sent w2) ''sqlserver-yunfu-tbl_weightInfo''
        (database_name (sq_source e)) (table_name (sq_source e)) (\<lambda>js. js = map JObject ?data)"
      using wire.upload_accepted [OF wr refl nc _ _ _ _ keys fits [OF s1(1)]] False by blast
    have ser: "map data_serial ?data = map sw_serial_no rs" using fd(2) by (simp add: data_serial_def)
    let ?resp = "\<lparr>accepted_serial_nos = map sw_serial_no rs, failed_serial_nos = []\<rparr>"
    have acc: "accepted_serials (map sw_serial_no rs) ?resp = map sw_serial_no rs"
      by (simp add: accepted_serials_def)
    have same: "same_source w1 w2" using sqlserver_upload_batch_same [OF up] .
    have q2: "sql_quiet L w2" "weight_rows s1 = world_rows w2"
      using q1 same s1(2) by (simp_all add: sql_quiet_def same_source_def world_rows_def)
    obtain w3 where m: "mark_and_report L e (map sw_serial_no rs) ?resp w2 =
        (Ok (sqlserver_outcome (sq_source e) (map sw_serial_no rs) ?resp), w3)"
      and p: "length (filter row_pending (world_rows w3)) \<le>
        length (filter row_pending (weight_rows (source_of w))) - unat ?n"
      using sql_engine.whole_batch_marked [OF eng q2(1) s1(1) q2(2) acc on] by blast
    have "delivered_rows L R st e rs w (sqlserver_outcome (sq_source e) (map sw_serial_no rs) ?resp) w3"
      using st p acc s1(2) mark_and_report_sent [OF m]
      by (simp add: delivered_rows_def sqlserver_outcome_def pending_rows_def world_rows_def)
    then show ?thesis
      using sync_once_answered [OF f False row_upload.retry_first [OF up [unfolded ser]]] m s1(1) by auto
  qed
qed

section \<open>A wire for the witness\<close>

instance json_number :: countable
  by countable_datatype

instance json :: countable
  by countable_datatype

text \<open>Values as decimal numbers between two marks.\<close>

definition wire_print :: "json \<Rightarrow> string" where
  "wire_print j = ''x'' @ show_nat (to_nat j) @ ''x''"

definition wire_parse :: "string \<Rightarrow> (json, string) result" where
  "wire_parse s =
     (case parse_nat (butlast (tl s)) of Some n \<Rightarrow> Ok (from_nat n) | None \<Rightarrow> Err ''not a number'')"

lemma wire_parse_print [simp]: "wire_parse (wire_print j) = Ok j"
proof -
  have "butlast (tl (wire_print j)) = show_nat (to_nat j)" by (simp add: wire_print_def)
  then show ?thesis by (simp add: wire_parse_def)
qed

lemma white_space_x: "\<forall>w \<in> set white_space. w \<noteq> [] \<and> CHR ''x'' \<notin> set w"
  by code_simp

lemma trim_wire_print: "trim (wire_print j) \<noteq> []"
proof -
  have "leading white_space (wire_print j) = None"
    unfolding leading_None_iff
  proof (intro ballI notI)
    fix w assume w: "w \<in> set white_space" and p: "w \<noteq> [] \<and> has_prefix w (wire_print j)"
    obtain c v where cv: "w = c # v" using p by (cases w) auto
    with p have "c = CHR ''x''" using has_prefix_hd [of c v "CHR ''x''"] by (simp add: wire_print_def)
    then show False using w cv white_space_x by (metis list.set_intros(1))
  qed
  then have s: "trim_start (wire_print j) = wire_print j" by (simp add: trim_start_def trim_with_fixed)
  have "leading (map rev white_space) (rev (wire_print j)) = None"
    unfolding leading_None_iff
  proof (intro ballI notI)
    fix w assume w: "w \<in> set (map rev white_space)" and p: "w \<noteq> [] \<and> has_prefix w (rev (wire_print j))"
    obtain c v where cv: "w = c # v" using p by (cases w) auto
    with p have "c = CHR ''x''" using has_prefix_hd [of c v "CHR ''x''"] by (simp add: wire_print_def)
    then show False using w cv white_space_x by (metis (no_types, lifting) image_iff list.set_intros(1) list.set_map set_rev)
  qed
  then have "trim_end (wire_print j) = wire_print j"
    unfolding trim_end_def by (metis rev_rev_ident trim_with_fixed)
  then have "trim (wire_print j) = wire_print j" using s by (simp add: trim_def)
  then show ?thesis by (simp add: wire_print_def)
qed

definition wire_lib :: http_lib where
  "wire_lib =
     \<lparr>to_vec = (\<lambda>j. Ok (wire_print j)), from_str = wire_parse, gz_write = Ok, gz_finish = Ok,
      status_display = show_nat, ser_time = (\<lambda>_. []), compression = False\<rparr>"

definition demo_receiver :: "nat \<Rightarrow> receiver" where
  "demo_receiver limit =
     \<lparr>rcv_lib = demo_server_lib,
      rcv_extract = (\<lambda>rq. case rq_body rq of
          Ok t \<Rightarrow> (case wire_parse t of
              Ok j \<Rightarrow> Ok j | Err m \<Rightarrow> Err \<lparr>rs_status = 400, rs_body = Ok m\<rparr>)
        | Err m \<Rightarrow> Err \<lparr>rs_status = 400, rs_body = Ok m\<rparr>),
      rcv_id = of_nat, rcv_now = int, rcv_print = (\<lambda>j. Ok (wire_print j)), rcv_limit = limit\<rparr>"

interpretation demo_wire: wire wire_lib "demo_receiver limit"
  by unfold_locales (auto simp: wire_lib_def demo_receiver_def trim_wire_print)

end
