(* ===== verification/Local_Engine.thy ===== *)
theory Local_Engine
  imports Local_Db Upload_Http
begin

text \<open>
  The synchronisation engine of the local cache (src/sync/engine.rs): the upload of a batch,
  the cycle \<open>sync_once\<close> with its retries and write-backs, and the refinement of a cycle to
  updates of the cache map. \<open>sync_once\<close> is an option: \<open>None\<close> is a cycle that never ends, and
  it is shown never to be the result.
\<close>

section \<open>Data\<close>

record 'm local_libs =
  lib_codec :: codec
  lib_uom :: "'m uom"
  lib_http :: http_lib
  lib_order :: "weighing_model list \<Rightarrow> weighing_model list"

record sync_engine =
  engine_api :: api_config
  engine_sync :: sync_config

record upload_record =
  up_id :: uuid
  up_ticket_no :: string
  up_scale_no :: string
  up_plate_no :: "string option"
  up_weight_kg :: f64
  up_weight_lb :: f64
  up_original_unit :: string
  up_measured_at :: datetime

record batch_upload_request =
  bu_source :: string
  bu_uploaded_at :: datetime
  bu_records :: "upload_record list"

record batch_upload_response =
  accepted_ids :: "uuid list"
  failed_ids :: "uuid list"

section \<open>Serialisation\<close>

text \<open>serde_json prints a float that is not finite as \<open>null\<close>.\<close>

definition json_f64 :: "f64 \<Rightarrow> json" where
  "json_f64 x = (if is_finite x then JNumber (JFloat x) else JNull)"

definition upload_record_from :: "'m uom \<Rightarrow> weighing_record \<Rightarrow> upload_record" where
  "upload_record_from uom r =
     \<lparr>up_id = rec_id r, up_ticket_no = rec_ticket_no r, up_scale_no = rec_scale_no r,
      up_plate_no = rec_plate_no r, up_weight_kg = rec_weight_kg r,
      up_weight_lb = weight_lb uom r,
      up_original_unit = weight_unit_as_str (rec_original_unit r),
      up_measured_at = rec_measured_at r\<rparr>"

definition upload_record_json :: "codec \<Rightarrow> http_lib \<Rightarrow> upload_record \<Rightarrow> json" where
  "upload_record_json cx lib r =
     json_object
       [(''id'', JString (uuid_to_string cx (up_id r))),
        (''ticket_no'', JString (up_ticket_no r)),
        (''scale_no'', JString (up_scale_no r)),
        (''plate_no'', case up_plate_no r of Some p \<Rightarrow> JString p | None \<Rightarrow> JNull),
        (''weight_kg'', json_f64 (up_weight_kg r)),
        (''weight_lb'', json_f64 (up_weight_lb r)),
        (''original_unit'', JString (up_original_unit r)),
        (''measured_at'', JString (ser_time lib (up_measured_at r)))]"

definition batch_request_json :: "codec \<Rightarrow> http_lib \<Rightarrow> batch_upload_request \<Rightarrow> json" where
  "batch_request_json cx lib p =
     json_object
       [(''source'', JString (bu_source p)),
        (''uploaded_at'', JString (ser_time lib (bu_uploaded_at p))),
        (''records'', JArray (map (upload_record_json cx lib) (bu_records p)))]"

definition de_uuid :: "codec \<Rightarrow> json \<Rightarrow> (uuid, string) result" where
  "de_uuid cx j = and_then (de_string j) (uuid_parse_str cx)"

definition batch_response_de :: "codec \<Rightarrow> json \<Rightarrow> (batch_upload_response, string) result" where
  "batch_response_de cx j =
     and_then (de_two_vecs (de_uuid cx) ''accepted_ids'' ''failed_ids'' j)
       (\<lambda>(a, f). Ok \<lparr>accepted_ids = a, failed_ids = f\<rparr>)"

section \<open>The engine\<close>

text \<open>\<open>build_client\<close> is reqwest's client builder with the given timeout.\<close>

definition sync_engine_new ::
  "(duration \<Rightarrow> (unit, string) result) \<Rightarrow> api_config \<Rightarrow> sync_config \<Rightarrow> (sync_engine, anyhow) result"
where
  "sync_engine_new build_client a s =
     and_then (context_err ''failed to build HTTP client'' (map_err Msg (build_client (timeout a))))
       (\<lambda>_. Ok \<lparr>engine_api = a, engine_sync = s\<rparr>)"

text \<open>What a response means for the batch it answers.\<close>

definition read_reply ::
  "'m local_libs \<Rightarrow> weighing_record list \<Rightarrow> http_response \<Rightarrow>
   (batch_upload_response, upload_error) result" where
  "read_reply L records response =
     (if rs_status response = 204
      then Ok \<lparr>accepted_ids = map rec_id records, failed_ids = []\<rparr>
      else if \<not> is_success (rs_status response)
      then Err (from_status (status_display (lib_http L)) (rs_status response)
        (case rs_body response of Ok body \<Rightarrow> body | Err _ \<Rightarrow> []))
      else map_err Permanent (context_err ''failed to decode upload response''
        (map_err Msg (and_then (rs_body response) (\<lambda>body.
          and_then (from_str (lib_http L) body) (batch_response_de (lib_codec L)))))))"

definition upload_batch ::
  "'m local_libs \<Rightarrow> sync_engine \<Rightarrow> weighing_record list \<Rightarrow> sqlite world \<Rightarrow>
   (batch_upload_response, upload_error) result \<times> sqlite world" where
  "upload_batch L e records w =
     (let lib = lib_http L;
          payload = \<lparr>bu_source = ''weighing-data-sync'', bu_uploaded_at = utc_now w,
            bu_records = map (upload_record_from (lib_uom L)) records\<rparr>;
          request = http_post (endpoint (engine_api e));
          request = (case api_api_key (engine_api e) of
              Some api_key \<Rightarrow> bearer_auth api_key request | None \<Rightarrow> request)
      in case build_payload_request lib ''failed to serialize upload payload''
           ''failed to gzip upload payload'' ''failed to finalize gzip payload''
           request (batch_request_json (lib_codec L) lib payload) of
           Err x \<Rightarrow> (Err (Permanent x), w)
         | Ok rq \<Rightarrow>
             (case http_send rq w of
                (Err m, w1) \<Rightarrow> (Err (Transient (Ctx ''failed to send upload request'' (Msg m))), w1)
              | (Ok response, w1) \<Rightarrow>
                  (read_reply L records response, w1)))"

text \<open>The write-backs after an upload that was answered.\<close>

definition write_back ::
  "'m local_libs \<Rightarrow> weighing_record list \<Rightarrow> batch_upload_response \<Rightarrow> sqlite world \<Rightarrow>
   (sync_outcome, anyhow) result \<times> sqlite world" where
  "write_back L records response w =
     (let acc = (if accepted_ids response = [] \<and> failed_ids response = []
            then map rec_id records else accepted_ids response)
      in try_then
           (if acc \<noteq> [] then on_source (mark_synced (lib_codec L) (utc_now w) acc) w else (Ok (), w))
           (\<lambda>_ w1.
         try_then
           (if failed_ids response \<noteq> []
            then on_source (mark_failed (lib_codec L) (utc_now w1) (failed_ids response)
              ''remote endpoint rejected record'') w1
            else (Ok (), w1))
           (\<lambda>_ w2.
             (Ok \<lparr>fetched = of_nat (length records), synced = of_nat (length acc),
                failed = of_nat (length (failed_ids response)), marked_uploaded = None,
                no_data = False\<rparr>, w2))))"

definition sync_once ::
  "'m local_libs \<Rightarrow> sync_engine \<Rightarrow> sqlite world \<Rightarrow>
   ((sync_outcome, anyhow) result \<times> sqlite world) option" where
  "sync_once L e w =
     (case on_source (fetch_pending (lib_codec L) (lib_order L) (batch_size (engine_sync e))) w of
        (Err x, w1) \<Rightarrow> Some (Err x, w1)
      | (Ok records, w1) \<Rightarrow>
          if records = [] then Some (Ok outcome_no_data, w1)
          else
            let record_ids = map rec_id records
            in case retry_transient clock sleep (retry_initial_delay (engine_sync e))
                 (retry_max_delay (engine_sync e)) (retry_max_elapsed (engine_sync e))
                 (upload_batch L e records) log_retry w1 of
                 None \<Rightarrow> None
               | Some (Err error, w2) \<Rightarrow>
                   Some (try_then
                     (on_source (mark_failed (lib_codec L) (utc_now w2) record_ids
                        (display error)) w2)
                     (\<lambda>_ w3. (Err (Ctx ''batch upload failed (permanent error or retry budget exhausted)''
                        error), w3)))
               | Some (Ok response, w2) \<Rightarrow> Some (write_back L records response w2))"

section \<open>Lemmas\<close>

lemma upload_batch_same: "upload_batch L e rs w = (x, w') \<Longrightarrow> same_source w w'"
  by (auto simp: upload_batch_def Let_def dest: http_send_same
      split: result.splits prod.splits)

interpretation batch_upload: http_upload "upload_batch L e rs"
  by unfold_locales (rule upload_batch_same)


lemma upload_batch_Ok:
  assumes "upload_batch L e rs w = (Ok v, w')"
  shows "\<exists>rp. remote w (sent w') = Ok rp \<and> read_reply L rs rp = Ok v"
  using assms
  by (auto simp: upload_batch_def http_send_def Let_def split: result.splits prod.splits)

section \<open>Specification: a cycle on the cache map\<close>

text \<open>The batch of at most \<open>n\<close> records that are still to be uploaded.\<close>

definition pending_batch ::
  "nat \<Rightarrow> (uuid \<Rightarrow> weighing_record option) \<Rightarrow> weighing_record list \<Rightarrow> bool" where
  "pending_batch n M rs \<longleftrightarrow>
     rs \<noteq> [] \<and> distinct (map rec_id rs) \<and> length rs = min n (card (backlog_of M)) \<and>
     (\<forall>r \<in> set rs. M (rec_id r) = Some r \<and> rec_status r \<noteq> Synced)"

definition accepted_of :: "weighing_record list \<Rightarrow> batch_upload_response \<Rightarrow> uuid list" where
  "accepted_of rs response =
     (if accepted_ids response = [] \<and> failed_ids response = [] then map rec_id rs
      else accepted_ids response)"

definition outcome_of :: "weighing_record list \<Rightarrow> batch_upload_response \<Rightarrow> sync_outcome" where
  "outcome_of rs response =
     \<lparr>fetched = of_nat (length rs), synced = of_nat (length (accepted_of rs response)),
      failed = of_nat (length (failed_ids response)), marked_uploaded = None, no_data = False\<rparr>"

text \<open>
  \<open>cache_cycle answered n M r M'\<close>: a cycle with batch size \<open>n\<close> may take the cache from \<open>M\<close> to
  \<open>M'\<close> and end with \<open>r\<close>, where \<open>answered rs response\<close> says that the endpoint answered the
  upload of \<open>rs\<close> with \<open>response\<close>.
\<close>

inductive cache_cycle ::
  "(weighing_record list \<Rightarrow> batch_upload_response \<Rightarrow> bool) \<Rightarrow> nat \<Rightarrow>
   (uuid \<Rightarrow> weighing_record option) \<Rightarrow> (sync_outcome, anyhow) result \<Rightarrow>
   (uuid \<Rightarrow> weighing_record option) \<Rightarrow> bool"
  for answered n M where
  statement_failed: "cache_cycle answered n M (Err x) M"
| idle: "n = 0 \<or> backlog_of M = {} \<Longrightarrow> cache_cycle answered n M (Ok outcome_no_data) M"
| upload_failed: "pending_batch n M rs \<Longrightarrow>
     cache_cycle answered n M
       (Err (Ctx ''batch upload failed (permanent error or retry budget exhausted)'' x))
       (cache_update (map rec_id rs) (rec_failed t (display x)) M)"
| answered: "pending_batch n M rs \<Longrightarrow> answered rs response \<Longrightarrow>
     cache_cycle answered n M (Ok (outcome_of rs response))
       (cache_update (failed_ids response) (rec_failed t2 ''remote endpoint rejected record'')
         (cache_update (accepted_of rs response) (rec_synced t1) M))"
| half_marked: "pending_batch n M rs \<Longrightarrow> answered rs response \<Longrightarrow>
     cache_cycle answered n M (Err x)
       (cache_update (accepted_of rs response) (rec_synced t1) M)"

inductive_cases cache_cycle_OkE: "cache_cycle answered n M (Ok out) M'"

text \<open>The update each record went through.\<close>

definition cycle_mark :: "weighing_record \<Rightarrow> weighing_record \<Rightarrow> bool" where
  "cycle_mark r r' \<longleftrightarrow>
     same_measurement r' r \<and>
     (r' = r \<or>
      rec_status r' = Synced \<and> rec_retry_count r' = rec_retry_count r \<and> rec_last_error r' = None \<or>
      rec_status r' = Failed \<and> rec_retry_count r' = rec_retry_count r + 1 \<and> rec_last_error r' \<noteq> None)"

lemma cycle_mark_refl [simp]: "cycle_mark r r"
  by (simp add: cycle_mark_def)

lemma cycle_mark_simps [simp]:
  "cycle_mark r (rec_synced t r)" "cycle_mark r (rec_failed t m r)"
  "cycle_mark r (rec_failed t m (rec_synced t' r))"
  using same_measurement_trans [of "rec_failed t m (rec_synced t' r)" "rec_synced t' r" r]
  by (simp_all add: cycle_mark_def)

lemma cache_cycle_marks:
  "cache_cycle answered n M x M' \<Longrightarrow> rel_option cycle_mark (M u) (M' u)"
proof (induction rule: cache_cycle.induct)
qed (auto simp: cache_update_def rel_option_iff split: option.splits)

lemma cache_cycle_synced:
  assumes "cache_cycle answered n M x M'" and "M' u = Some r'" and "rec_status r' = Synced"
    and "M u \<noteq> Some r'"
  shows "\<exists>rs response. pending_batch n M rs \<and> answered rs response \<and>
    u \<in> set (accepted_of rs response) \<and> (is_ok x \<longrightarrow> u \<notin> set (failed_ids response))"
  using assms
  by (induction rule: cache_cycle.induct) (auto simp: cache_update_def split: if_splits)

section \<open>The engine implements the specification\<close>

definition wall_ok :: "'s world \<Rightarrow> bool" where
  "wall_ok w \<longleftrightarrow> (\<forall>t. rfc3339_range (wall w t))"

definition world_ok :: "codec \<Rightarrow> sqlite world \<Rightarrow> bool" where
  "world_ok cx w \<longleftrightarrow> wall_ok w \<and> db_wf cx (source_of w)"

definition world_cache :: "codec \<Rightarrow> sqlite world \<Rightarrow> uuid \<Rightarrow> weighing_record option" where
  "world_cache cx w = cache_map cx (source_of w)"

text \<open>The endpoint's last answer in the world \<open>w'\<close>, read as the answer to the batch.\<close>

definition answered_in ::
  "'m local_libs \<Rightarrow> sqlite world \<Rightarrow> weighing_record list \<Rightarrow> batch_upload_response \<Rightarrow> bool" where
  "answered_in L w' rs response \<longleftrightarrow>
     (\<exists>rp. remote w' (sent w') = Ok rp \<and> read_reply L rs rp = Ok response)"

lemma world_ok_utc: "world_ok cx w \<Longrightarrow> rfc3339_range (utc_now w)"
  by (simp add: world_ok_def wall_ok_def utc_now_def)

lemma world_ok_env:
  "world_ok cx w \<Longrightarrow> same_source w w' \<Longrightarrow> world_ok cx w' \<and> world_cache cx w' = world_cache cx w"
  by (simp add: world_ok_def wall_ok_def world_cache_def same_source_def same_env_def)

lemma answered_in_source [simp]: "answered_in L (w\<lparr>source_of := s\<rparr>) = answered_in L w"
  by (simp add: answered_in_def fun_eq_iff)

locale local_engine = local_store "lib_codec L" "lib_order L" for L :: "'m local_libs"
begin

lemma fetch_in_world:
  assumes "world_ok (lib_codec L) w"
    and "on_source (fetch_pending (lib_codec L) (lib_order L) n) w = (x, w1)"
  shows "world_ok (lib_codec L) w1" and "world_cache (lib_codec L) w1 = world_cache (lib_codec L) w"
    and "sent w1 = sent w" and "x = Ok rs \<Longrightarrow> rs \<noteq> [] \<Longrightarrow>
      pending_batch (unat n) (world_cache (lib_codec L) w) rs"
    and "x = Ok [] \<Longrightarrow> unat n = 0 \<or> backlog_of (world_cache (lib_codec L) w) = {}"
proof -
  obtain s where s: "fetch_pending (lib_codec L) (lib_order L) n (source_of w) = (x, s)"
    and w1: "w1 = w\<lparr>source_of := s\<rparr>"
    using assms(2) by (auto simp: on_source_iff)
  have wf: "db_wf (lib_codec L) (source_of w)" using assms(1) by (simp add: world_ok_def)
  note fr = store.fetch_frame [OF wf s]
  show "world_ok (lib_codec L) w1" "world_cache (lib_codec L) w1 = world_cache (lib_codec L) w"
    "sent w1 = sent w"
    using fr assms(1) w1 by (simp_all add: world_ok_def wall_ok_def world_cache_def)
  show "pending_batch (unat n) (world_cache (lib_codec L) w) rs" if "x = Ok rs" "rs \<noteq> []"
    using that s store.fetch_sound [OF wf] store.fetch_distinct [OF wf] store.fetch_length [OF wf]
    by (auto simp: pending_batch_def world_cache_def)
  show "unat n = 0 \<or> backlog_of (world_cache (lib_codec L) w) = {}" if "x = Ok []"
    using that s store.fetch_empty [OF wf] by (auto simp: world_cache_def unat_gt_0)
qed

text \<open>A mark, run in the world, with the guard against an empty list before it.\<close>

lemma mark_synced_in_world:
  assumes "world_ok (lib_codec L) w"
    and "(if ids \<noteq> [] then on_source (mark_synced (lib_codec L) (utc_now w) ids) w else (Ok (), w))
      = (x, w1)"
  shows "world_ok (lib_codec L) w1" and "world_cache (lib_codec L) w1 =
    (case x of Ok _ \<Rightarrow> cache_update ids (rec_synced (utc_now w)) (world_cache (lib_codec L) w)
     | Err _ \<Rightarrow> world_cache (lib_codec L) w)" and "answered_in L w1 = answered_in L w"
proof -
  have wf: "db_wf (lib_codec L) (source_of w)" using assms(1) by (simp add: world_ok_def)
  obtain s where s: "mark_synced (lib_codec L) (utc_now w) ids (source_of w) = (x, s)"
    and w1: "w1 = w\<lparr>source_of := s\<rparr>"
    using assms(2) by (auto simp: on_source_iff mark_synced_def split: if_splits)
  show "world_ok (lib_codec L) w1" "world_cache (lib_codec L) w1 =
      (case x of Ok _ \<Rightarrow> cache_update ids (rec_synced (utc_now w)) (world_cache (lib_codec L) w)
       | Err _ \<Rightarrow> world_cache (lib_codec L) w)"
    using mark_synced_outcome [OF wf world_ok_utc [OF assms(1)] s] assms(1) w1
    by (simp_all add: world_ok_def wall_ok_def world_cache_def split: result.splits)
  show "answered_in L w1 = answered_in L w" by (simp add: w1)
qed

lemma mark_failed_in_world:
  assumes "world_ok (lib_codec L) w"
    and "(if ids \<noteq> [] then on_source (mark_failed (lib_codec L) (utc_now w) ids msg) w else (Ok (), w))
      = (x, w1)"
  shows "world_ok (lib_codec L) w1" and "world_cache (lib_codec L) w1 =
    (case x of Ok _ \<Rightarrow> cache_update ids (rec_failed (utc_now w) msg) (world_cache (lib_codec L) w)
     | Err _ \<Rightarrow> world_cache (lib_codec L) w)" and "answered_in L w1 = answered_in L w"
proof -
  have wf: "db_wf (lib_codec L) (source_of w)" using assms(1) by (simp add: world_ok_def)
  obtain s where s: "mark_failed (lib_codec L) (utc_now w) ids msg (source_of w) = (x, s)"
    and w1: "w1 = w\<lparr>source_of := s\<rparr>"
    using assms(2) by (auto simp: on_source_iff mark_failed_def split: if_splits)
  show "world_ok (lib_codec L) w1" "world_cache (lib_codec L) w1 =
      (case x of Ok _ \<Rightarrow> cache_update ids (rec_failed (utc_now w) msg) (world_cache (lib_codec L) w)
       | Err _ \<Rightarrow> world_cache (lib_codec L) w)"
    using mark_failed_outcome [OF wf world_ok_utc [OF assms(1)] s] assms(1) w1
    by (simp_all add: world_ok_def wall_ok_def world_cache_def split: result.splits)
  show "answered_in L w1 = answered_in L w" by (simp add: w1)
qed

lemma write_back_refines:
  assumes w: "world_ok (lib_codec L) w" and b: "pending_batch n (world_cache (lib_codec L) w) rs"
    and a: "answered_in L w rs response" and wb: "write_back L rs response w = (x, w')"
  shows "world_ok (lib_codec L) w' \<and>
    cache_cycle (answered_in L w') n (world_cache (lib_codec L) w) x (world_cache (lib_codec L) w')"
proof -
  let ?acc = "accepted_of rs response"
  obtain x1 w1 where 1: "(if ?acc \<noteq> [] then on_source (mark_synced (lib_codec L) (utc_now w) ?acc) w
      else (Ok (), w)) = (x1, w1)" by fastforce
  obtain x2 w2 where 2: "(if failed_ids response \<noteq> [] then on_source (mark_failed (lib_codec L)
      (utc_now w1) (failed_ids response) ''remote endpoint rejected record'') w1 else (Ok (), w1))
      = (x2, w2)" by fastforce
  note s1 = mark_synced_in_world [OF w 1]
  note s2 = mark_failed_in_world [OF s1(1) 2]
  have wb': "write_back L rs response w =
      (case x1 of Err y \<Rightarrow> (Err y, w1) | Ok _ \<Rightarrow>
        (case x2 of Err y \<Rightarrow> (Err y, w2) | Ok _ \<Rightarrow> (Ok (outcome_of rs response), w2)))"
    unfolding write_back_def accepted_of_def [symmetric] Let_def 1
    by (cases x1; cases x2) (simp_all add: 2 outcome_of_def)
  show ?thesis
  proof (cases x1)
    case (Err y)
    with wb' wb s1 show ?thesis by (auto intro: cache_cycle.statement_failed)
  next
    case ok1: (Ok v)
    show ?thesis
    proof (cases x2)
      case (Err y)
      with wb' wb s1 s2 ok1 a show ?thesis
        using cache_cycle.half_marked [OF b, of "answered_in L w'" response y "utc_now w"] by auto
    next
      case (Ok v)
      with wb' wb s1 s2 ok1 a show ?thesis
        using cache_cycle.answered [OF b, of "answered_in L w'" response "utc_now w1" "utc_now w"]
        by auto
    qed
  qed
qed

lemma sync_once_refines:
  assumes w: "world_ok (lib_codec L) w" and run: "sync_once L e w = Some (x, w')"
  shows "world_ok (lib_codec L) w' \<and>
    cache_cycle (answered_in L w') (unat (batch_size (engine_sync e)))
      (world_cache (lib_codec L) w) x (world_cache (lib_codec L) w')"
proof -
  let ?n = "batch_size (engine_sync e)"
  obtain y w1 where f: "on_source (fetch_pending (lib_codec L) (lib_order L) ?n) w = (y, w1)"
    by fastforce
  note fw = fetch_in_world [OF w f]
  show ?thesis
  proof (cases "\<exists>rs. y = Ok rs \<and> rs \<noteq> []")
    case False
    then show ?thesis using run f fw
      by (cases y) (auto simp: sync_once_def intro: cache_cycle.statement_failed cache_cycle.idle)
  next
    case True
    then obtain rs where rs: "y = Ok rs" "rs \<noteq> []" by blast
    have b: "pending_batch (unat ?n) (world_cache (lib_codec L) w1) rs"
      using fw(4) [OF rs] fw(2) by simp
    obtain z w2 where r: "retry_transient clock sleep (retry_initial_delay (engine_sync e))
        (retry_max_delay (engine_sync e)) (retry_max_elapsed (engine_sync e))
        (upload_batch L e rs) log_retry w1 = Some (z, w2)" and same: "same_source w1 w2"
      using batch_upload.retry_returns by blast
    note w2 = world_ok_env [OF fw(1) same]
    show ?thesis
    proof (cases z)
      case (Ok response)
      then obtain w0 where "same_source w1 w0" "upload_batch L e rs w0 = (Ok response, w2)"
        using r batch_upload.retry_Ok by blast
      then have "answered_in L w2 rs response"
        using upload_batch_Ok [of L e rs w0 response w2] upload_batch_same [of L e rs w0 _ w2]
        by (auto simp: answered_in_def same_source_def same_env_def)
      moreover have "write_back L rs response w2 = (x, w')"
        using run f rs r Ok by (simp add: sync_once_def)
      ultimately show ?thesis
        using write_back_refines [of w2 "unat ?n" rs response x w'] w2 b fw(2) by simp
    next
      case (Err error)
      obtain x3 w3 where m: "on_source (mark_failed (lib_codec L) (utc_now w2) (map rec_id rs)
          (display error)) w2 = (x3, w3)" by fastforce
      then have m': "(if map rec_id rs \<noteq> [] then on_source (mark_failed (lib_codec L) (utc_now w2)
          (map rec_id rs) (display error)) w2 else (Ok (), w2)) = (x3, w3)"
        using rs by simp
      note s3 = mark_failed_in_world [OF conjunct1 [OF w2] m']
      have "(x, w') = (case x3 of Err y \<Rightarrow> (Err y, w3) | Ok _ \<Rightarrow>
          (Err (Ctx ''batch upload failed (permanent error or retry budget exhausted)'' error), w3))"
        using run f rs r Err m by (cases x3) (simp_all add: sync_once_def)
      then show ?thesis
        using s3 w2 b fw(2) cache_cycle.upload_failed [of "unat ?n" "world_cache (lib_codec L) w" rs]
        by (cases x3) (auto intro: cache_cycle.statement_failed)
    qed
  qed
qed

end

text \<open>
  A quiet world: no statement fails and payloads serialise. \<open>accepts_all\<close> is an endpoint that
  accepts every batch.
\<close>

definition quiet :: "'m local_libs \<Rightarrow> sqlite world \<Rightarrow> bool" where
  "quiet L w \<longleftrightarrow>
     world_ok (lib_codec L) w \<and> (\<forall>k. sql_fault (source_of w) k = None) \<and> serialises (lib_http L)"

definition accepts_all :: "'m local_libs \<Rightarrow> sqlite world \<Rightarrow> bool" where
  "accepts_all L w \<longleftrightarrow>
     (\<forall>h rs. \<exists>rp response. remote w h = Ok rp \<and> read_reply L rs rp = Ok response \<and>
        accepted_of rs response = map rec_id rs \<and> failed_ids response = [])"

definition after_cycle :: "'m local_libs \<Rightarrow> sync_engine \<Rightarrow> sqlite world \<Rightarrow> sqlite world" where
  "after_cycle L e w = (case sync_once L e w of Some (_, w') \<Rightarrow> w' | None \<Rightarrow> w)"

definition backlog_size :: "'m local_libs \<Rightarrow> sqlite world \<Rightarrow> nat" where
  "backlog_size L w = card (backlog_of (world_cache (lib_codec L) w))"

lemma upload_batch_sends:
  assumes "serialises (lib_http L)"
  shows "\<exists>rq w'. sent w' = sent w @ [rq] \<and> same_source w w' \<and> upload_batch L e rs w =
    (case remote w (sent w @ [rq]) of
       Err m \<Rightarrow> (Err (Transient (Ctx ''failed to send upload request'' (Msg m))), w')
     | Ok rp \<Rightarrow> (read_reply L rs rp, w'))"
proof -
  let ?key = "\<lambda>rq. case api_api_key (engine_api e) of Some k \<Rightarrow> bearer_auth k rq | None \<Rightarrow> rq"
  obtain rq b where rq: "build_payload_request (lib_http L) ''failed to serialize upload payload''
      ''failed to gzip upload payload'' ''failed to finalize gzip payload''
      (?key (http_post (endpoint (engine_api e))))
      (batch_request_json (lib_codec L) (lib_http L)
        \<lparr>bu_source = ''weighing-data-sync'', bu_uploaded_at = utc_now w,
         bu_records = map (upload_record_from (lib_uom L)) rs\<rparr>) = Ok rq" "rq_body rq = Ok b"
    using build_payload_request_ok [OF assms] by metis
  let ?w = "w\<lparr>sent := sent w @ [rq], clock := clock w + latency w (length (sent w))\<rparr>"
  have s: "http_send rq w = (remote w (sent w @ [rq]), ?w)"
    using rq(2) by (simp add: http_send_def Let_def)
  then have "same_source w ?w" by (rule http_send_same)
  moreover have "upload_batch L e rs w =
    (case remote w (sent w @ [rq]) of
       Err m \<Rightarrow> (Err (Transient (Ctx ''failed to send upload request'' (Msg m))), ?w)
     | Ok rp \<Rightarrow> (read_reply L rs rp, ?w))"
    unfolding upload_batch_def Let_def rq(1) using s by (simp split: result.splits)
  ultimately show ?thesis by (intro exI [of _ rq] exI [of _ ?w]) simp
qed

lemma upload_batch_accepted:
  assumes "serialises (lib_http L)" and "accepts_all L w"
  shows "\<exists>response w'. upload_batch L e rs w = (Ok response, w') \<and> same_source w w' \<and>
    accepted_of rs response = map rec_id rs \<and> failed_ids response = []"
proof -
  obtain rq w' where u: "same_source w w'" "upload_batch L e rs w =
    (case remote w (sent w @ [rq]) of
       Err m \<Rightarrow> (Err (Transient (Ctx ''failed to send upload request'' (Msg m))), w')
     | Ok rp \<Rightarrow> (read_reply L rs rp, w'))"
    using upload_batch_sends [OF assms(1)] by metis
  obtain rp response where "remote w (sent w @ [rq]) = Ok rp" "read_reply L rs rp = Ok response"
    "accepted_of rs response = map rec_id rs" "failed_ids response = []"
    using assms(2) unfolding accepts_all_def by metis
  with u show ?thesis by simp
qed

lemma upload_batch_unreachable:
  assumes "serialises (lib_http L)" and "unreachable w"
  shows "\<exists>m w'. upload_batch L e rs w =
    (Err (Transient (Ctx ''failed to send upload request'' (Msg m))), w')"
proof -
  obtain rq w' where u: "upload_batch L e rs w =
    (case remote w (sent w @ [rq]) of
       Err m \<Rightarrow> (Err (Transient (Ctx ''failed to send upload request'' (Msg m))), w')
     | Ok rp \<Rightarrow> (read_reply L rs rp, w'))"
    using upload_batch_sends [OF assms(1)] by metis
  have "\<not> is_ok (remote w (sent w @ [rq]))" using assms(2) by (simp add: unreachable_def)
  with u show ?thesis by (cases "remote w (sent w @ [rq])") simp_all
qed

definition refusal_message :: "'m local_libs \<Rightarrow> status_code \<Rightarrow> string \<Rightarrow> string" where
  "refusal_message L s body =
     ''remote upload failed with status '' @ status_display (lib_http L) s @ '': '' @ body"

lemma permanent_reply:
  assumes "status_is_permanent s"
  shows "read_reply L rs \<lparr>rs_status = s, rs_body = Ok body\<rparr> =
    Err (Permanent (Msg (refusal_message L s body)))"
proof -
  have "s \<noteq> 204 \<and> \<not> is_success s"
    using assms by (auto simp: status_is_permanent_def is_client_error_def is_success_def split: if_splits)
  with assms show ?thesis by (simp add: read_reply_def from_status_def Let_def refusal_message_def)
qed

lemma retry_unreachable:
  assumes "serialises (lib_http L)" and "unreachable w1"
    and r: "retry_transient clock sleep i md me (upload_batch L e rs) log_retry w1 = Some (z, w2)"
  shows "\<exists>m. z = Err (Ctx ''failed to send upload request'' (Msg m))"
proof -
  have down: "\<exists>m w'. upload_batch L e rs w0 =
      (Err (Transient (Ctx ''failed to send upload request'' (Msg m))), w')"
    if "same_source w1 w0" for w0
    using that assms(2) upload_batch_unreachable [OF assms(1), of w0 e rs]
    by (simp add: unreachable_def same_source_def same_env_def)
  show ?thesis
  proof (cases z)
    case (Ok v)
    then obtain w0 where "same_source w1 w0" "upload_batch L e rs w0 = (Ok v, w2)"
      using r batch_upload.retry_Ok by blast
    with down [of w0] show ?thesis by simp
  next
    case (Err x)
    then obtain w0 where "same_source w1 w0"
      "upload_batch L e rs w0 = (Err (Permanent x), w2) \<or> upload_batch L e rs w0 = (Err (Transient x), w2)"
      using r batch_upload.retry_Err by blast
    with down [of w0] Err show ?thesis by auto
  qed
qed

lemma pending_batch_drop:
  assumes "pending_batch n M rs" and "finite (backlog_of M)"
  shows "card (backlog_of (cache_update (map rec_id rs) (rec_synced t) M)) = card (backlog_of M) - n"
proof -
  have "set (map rec_id rs) \<subseteq> backlog_of M"
    using assms(1) by (fastforce simp: pending_batch_def backlog_of_def)
  moreover have "card (set (map rec_id rs)) = min n (card (backlog_of M))"
    using assms(1) by (simp add: pending_batch_def distinct_card flip: set_map)
  ultimately show ?thesis by (simp add: backlog_synced card_Diff_subset)
qed

text \<open>Without failing statements the marks succeed.\<close>

lemma mark_no_fault:
  assumes "\<forall>k. sql_fault s k = None"
  shows "\<exists>s'. mark_synced cx now ids s = (Ok (), s') \<and> sql_fault s' = sql_fault s"
    and "\<exists>s'. mark_failed cx now ids msg s = (Ok (), s') \<and> sql_fault s' = sql_fault s"
  using assms by (simp_all add: mark_synced_def mark_failed_def sql_exec_run update_where_id_in_def)

context local_engine
begin

lemma quiet_fetch:
  assumes "quiet L w"
  shows "\<exists>rs w1. on_source (fetch_pending (lib_codec L) (lib_order L) n) w = (Ok rs, w1) \<and>
    quiet L w1 \<and> same_env w w1 \<and> world_cache (lib_codec L) w1 = world_cache (lib_codec L) w"
proof -
  have "db_wf (lib_codec L) (source_of w)" "sql_fault (source_of w) (sql_n (source_of w)) = None"
    using assms by (simp_all add: quiet_def world_ok_def)
  then obtain rs where "fetch_pending (lib_codec L) (lib_order L) n (source_of w) =
      (Ok rs, (source_of w)\<lparr>sql_n := Suc (sql_n (source_of w))\<rparr>)"
    using fetch_total by blast
  then show ?thesis
    using assms by (auto simp: on_source_eq quiet_def world_ok_def wall_ok_def world_cache_def)
qed

text \<open>The write-back of a batch that was accepted as a whole.\<close>

lemma accepted_write_back:
  assumes q: "quiet L w" and b: "pending_batch n (world_cache (lib_codec L) w) rs"
    and r: "accepted_of rs response = map rec_id rs" "failed_ids response = []"
  shows "\<exists>w' t. write_back L rs response w = (Ok (outcome_of rs response), w') \<and> quiet L w' \<and>
    same_env w w' \<and> sent w' = sent w \<and> backlog_size L w' = backlog_size L w - n \<and>
    world_cache (lib_codec L) w' = cache_update (map rec_id rs) (rec_synced t) (world_cache (lib_codec L) w)"
proof -
  have ok: "world_ok (lib_codec L) w" using q by (simp add: quiet_def)
  have ne: "rs \<noteq> []" using b by (simp add: pending_batch_def)
  obtain s' where m: "mark_synced (lib_codec L) (utc_now w) (map rec_id rs) (source_of w) =
      (Ok (), s')" and sf: "sql_fault s' = sql_fault (source_of w)"
    using mark_no_fault(1) q unfolding quiet_def by metis
  let ?w = "w\<lparr>source_of := s'\<rparr>"
  have mm: "(if map rec_id rs \<noteq> [] then on_source (mark_synced (lib_codec L) (utc_now w)
      (map rec_id rs)) w else (Ok (), w)) = (Ok (), ?w)"
    using m ne by (simp add: on_source_eq)
  note s3 = mark_synced_in_world [OF ok mm]
  have "write_back L rs response w = (Ok (outcome_of rs response), ?w)"
    unfolding write_back_def accepted_of_def [symmetric] Let_def
    using m r ne by (simp add: on_source_eq outcome_of_def)
  moreover have "quiet L ?w" using s3(1) q sf by (simp add: quiet_def)
  moreover have "finite (backlog_of (world_cache (lib_codec L) w))"
    using ok backlog_card(1) by (simp add: world_ok_def world_cache_def)
  then have "backlog_size L ?w = backlog_size L w - n"
    using pending_batch_drop [OF b] s3(2) by (simp add: backlog_size_def)
  ultimately show ?thesis using s3(2) by (intro exI [of _ ?w] exI [of _ "utc_now w"]) simp
qed

text \<open>A cycle whose upload is accepted as a whole.\<close>

lemma accepted_upload_cycle:
  assumes q: "quiet L w"
    and f: "on_source (fetch_pending (lib_codec L) (lib_order L) (batch_size (engine_sync e))) w = (Ok rs, w1)"
    and ne: "rs \<noteq> []" and u: "upload_batch L e rs w1 = (Ok response, w2)"
    and r: "accepted_of rs response = map rec_id rs" "failed_ids response = []"
  shows "\<exists>w' t. sync_once L e w = Some (Ok (outcome_of rs response), w') \<and> quiet L w' \<and>
    same_env w w' \<and> sent w' = sent w2 \<and>
    backlog_size L w' = backlog_size L w - unat (batch_size (engine_sync e)) \<and>
    world_cache (lib_codec L) w' = cache_update (map rec_id rs) (rec_synced t) (world_cache (lib_codec L) w)"
proof -
  have ok: "world_ok (lib_codec L) w" using q by (simp add: quiet_def)
  note fw = fetch_in_world [OF ok f]
  have e1: "same_env w w1" using f by (auto simp: on_source_iff)
  have q1: "quiet L w1" using quiet_fetch [OF q] f by (metis prod.inject)
  have same: "same_source w1 w2" using upload_batch_same [OF u] .
  have q2: "quiet L w2" "world_cache (lib_codec L) w2 = world_cache (lib_codec L) w"
    using same q1 fw(2) world_ok_env [of "lib_codec L" w1 w2]
    by (simp_all add: quiet_def same_source_def same_env_def)
  have b: "pending_batch (unat (batch_size (engine_sync e))) (world_cache (lib_codec L) w2) rs"
    using fw(4) ne q2(2) by simp
  obtain w3 t where w3: "write_back L rs response w2 = (Ok (outcome_of rs response), w3)" "quiet L w3"
    "same_env w2 w3" "sent w3 = sent w2"
    "backlog_size L w3 = backlog_size L w2 - unat (batch_size (engine_sync e))"
    "world_cache (lib_codec L) w3 = cache_update (map rec_id rs) (rec_synced t) (world_cache (lib_codec L) w2)"
    using accepted_write_back [OF q2(1) b r] by blast
  have "sync_once L e w = Some (Ok (outcome_of rs response), w3)"
    using f ne batch_upload.retry_first [OF u] w3(1) by (simp add: sync_once_def)
  moreover have "same_env w w3"
    using e1 same w3(3) same_env_trans unfolding same_source_def by blast
  ultimately show ?thesis using w3 q2(2) by (auto simp: backlog_size_def)
qed

text \<open>A cycle against an endpoint that accepts everything.\<close>

lemma accepted_cycle:
  assumes q: "quiet L w" and a: "accepts_all L w"
  shows "\<exists>out w'. sync_once L e w = Some (Ok out, w') \<and> quiet L w' \<and> accepts_all L w' \<and>
    backlog_size L w' = backlog_size L w - unat (batch_size (engine_sync e))"
proof -
  let ?n = "batch_size (engine_sync e)"
  obtain rs w1 where f: "on_source (fetch_pending (lib_codec L) (lib_order L) ?n) w = (Ok rs, w1)"
    and q1: "quiet L w1" and e1: "same_env w w1"
    and c1: "world_cache (lib_codec L) w1 = world_cache (lib_codec L) w"
    using quiet_fetch [OF q] by blast
  have ok: "world_ok (lib_codec L) w" using q by (simp add: quiet_def)
  note fw = fetch_in_world [OF ok f]
  have a1: "accepts_all L w1" using a e1 by (simp add: accepts_all_def same_env_def)
  show ?thesis
  proof (cases "rs = []")
    case True
    then have "unat ?n = 0 \<or> backlog_size L w = 0"
      using fw(5) by (auto simp: backlog_size_def)
    with True f q1 a1 c1 show ?thesis by (auto simp: sync_once_def backlog_size_def)
  next
    case False
    obtain response w2 where u: "upload_batch L e rs w1 = (Ok response, w2)"
      and r: "accepted_of rs response = map rec_id rs" "failed_ids response = []"
      using upload_batch_accepted a1 q1 by (metis quiet_def)
    obtain w3 where w3: "sync_once L e w = Some (Ok (outcome_of rs response), w3)" "quiet L w3"
      "same_env w w3" "backlog_size L w3 = backlog_size L w - unat ?n"
      using accepted_upload_cycle [OF q f False u r] by blast
    have "accepts_all L w3" using a w3(3) by (simp add: accepts_all_def same_env_def)
    then show ?thesis using w3 by blast
  qed
qed

text \<open>A cycle while the endpoint cannot be reached.\<close>

lemma unreachable_cycle:
  assumes q: "quiet L w" and a: "unreachable w"
    and n: "batch_size (engine_sync e) \<noteq> 0" and bl: "backlog_of (world_cache (lib_codec L) w) \<noteq> {}"
  shows "\<exists>x w' rs t. sync_once L e w = Some (Err x, w') \<and> quiet L w' \<and>
    pending_batch (unat (batch_size (engine_sync e))) (world_cache (lib_codec L) w) rs \<and>
    world_cache (lib_codec L) w' =
      cache_update (map rec_id rs) (rec_failed t ''failed to send upload request'')
        (world_cache (lib_codec L) w)"
proof -
  let ?n = "batch_size (engine_sync e)"
  obtain rs w1 where f: "on_source (fetch_pending (lib_codec L) (lib_order L) ?n) w = (Ok rs, w1)"
    and q1: "quiet L w1" and e1: "same_env w w1"
    and c1: "world_cache (lib_codec L) w1 = world_cache (lib_codec L) w"
    using quiet_fetch [OF q] by blast
  have ok: "world_ok (lib_codec L) w" using q by (simp add: quiet_def)
  note fw = fetch_in_world [OF ok f]
  have ne: "rs \<noteq> []" using fw(5) n bl by (auto simp: unat_eq_zero)
  then have b: "pending_batch (unat ?n) (world_cache (lib_codec L) w) rs" using fw(4) by simp
  obtain z w2 where r: "retry_transient clock sleep (retry_initial_delay (engine_sync e))
      (retry_max_delay (engine_sync e)) (retry_max_elapsed (engine_sync e))
      (upload_batch L e rs) log_retry w1 = Some (z, w2)" and same: "same_source w1 w2"
    using batch_upload.retry_returns by blast
  have "unreachable w1" using a e1 by (simp add: unreachable_def same_env_def)
  then obtain m where z: "z = Err (Ctx ''failed to send upload request'' (Msg m))"
    using retry_unreachable [OF _ _ r] q1 by (auto simp: quiet_def)
  have q2: "quiet L w2" "world_cache (lib_codec L) w2 = world_cache (lib_codec L) w"
    using same q1 c1 world_ok_env [of "lib_codec L" w1 w2]
    by (simp_all add: quiet_def same_source_def same_env_def)
  then have ok2: "world_ok (lib_codec L) w2" by (simp add: quiet_def)
  obtain s' where mk: "mark_failed (lib_codec L) (utc_now w2) (map rec_id rs)
      ''failed to send upload request'' (source_of w2) = (Ok (), s')"
    and sf: "sql_fault s' = sql_fault (source_of w2)"
    using mark_no_fault(2) q2(1) unfolding quiet_def by metis
  let ?w3 = "w2\<lparr>source_of := s'\<rparr>"
  have mm: "(if map rec_id rs \<noteq> [] then on_source (mark_failed (lib_codec L) (utc_now w2)
      (map rec_id rs) ''failed to send upload request'') w2 else (Ok (), w2)) = (Ok (), ?w3)"
    using mk ne by (simp add: on_source_eq)
  note s3 = mark_failed_in_world [OF ok2 mm]
  have "sync_once L e w = Some (Err (Ctx ''batch upload failed (permanent error or retry budget exhausted)''
      (Ctx ''failed to send upload request'' (Msg m))), ?w3)"
    using f ne r z mm by (simp add: sync_once_def)
  moreover have "quiet L ?w3" using s3(1) q2(1) sf by (simp add: quiet_def)
  ultimately show ?thesis using b s3(2) q2(2) by auto
qed

text \<open>A cycle that is refused for good.\<close>

lemma permanent_cycle:
  assumes q: "quiet L w" and n: "batch_size (engine_sync e) \<noteq> 0"
    and bl: "backlog_of (world_cache (lib_codec L) w) \<noteq> {}"
    and rep: "\<And>h. remote w h = Ok \<lparr>rs_status = s, rs_body = Ok body\<rparr>"
    and perm: "status_is_permanent s"
  shows "\<exists>x w' rq rs t. sync_once L e w = Some (Err x, w') \<and> sent w' = sent w @ [rq] \<and>
    pending_batch (unat (batch_size (engine_sync e))) (world_cache (lib_codec L) w) rs \<and>
    world_cache (lib_codec L) w' = cache_update (map rec_id rs)
      (rec_failed t (refusal_message L s body))
      (world_cache (lib_codec L) w)"
proof -
  let ?n = "batch_size (engine_sync e)"
  let ?msg = "refusal_message L s body"
  obtain rs w1 where f: "on_source (fetch_pending (lib_codec L) (lib_order L) ?n) w = (Ok rs, w1)"
    and q1: "quiet L w1" and e1: "same_env w w1"
    and c1: "world_cache (lib_codec L) w1 = world_cache (lib_codec L) w"
    using quiet_fetch [OF q] by blast
  have ok: "world_ok (lib_codec L) w" using q by (simp add: quiet_def)
  note fw = fetch_in_world [OF ok f]
  have ne: "rs \<noteq> []" using fw(5) n bl by (auto simp: unat_eq_zero)
  obtain rq w2 where s2: "sent w2 = sent w @ [rq]" "same_source w1 w2"
    and u: "upload_batch L e rs w1 = (Err (Permanent (Msg ?msg)), w2)"
  proof -
    have "serialises (lib_http L)" using q by (simp add: quiet_def)
    moreover have "remote w1 h = Ok \<lparr>rs_status = s, rs_body = Ok body\<rparr>" for h
      using rep e1 by (simp add: same_env_def)
    ultimately show ?thesis
      using upload_batch_sends [of L w1 e rs] permanent_reply [OF perm, of L rs body] fw(3) that by auto
  qed
  have r: "retry_transient clock sleep (retry_initial_delay (engine_sync e))
      (retry_max_delay (engine_sync e)) (retry_max_elapsed (engine_sync e))
      (upload_batch L e rs) log_retry w1 = Some (Err (Msg ?msg), w2)"
    using batch_upload.retry_permanent [OF u] .
  have q2: "quiet L w2" "world_cache (lib_codec L) w2 = world_cache (lib_codec L) w"
    using s2(2) q1 c1 world_ok_env [of "lib_codec L" w1 w2]
    by (simp_all add: quiet_def same_source_def same_env_def)
  obtain s' where mk: "mark_failed (lib_codec L) (utc_now w2) (map rec_id rs) ?msg (source_of w2) = (Ok (), s')"
    using mark_no_fault(2) q2(1) unfolding quiet_def by metis
  let ?w3 = "w2\<lparr>source_of := s'\<rparr>"
  have mm: "(if map rec_id rs \<noteq> [] then on_source (mark_failed (lib_codec L) (utc_now w2)
      (map rec_id rs) ?msg) w2 else (Ok (), w2)) = (Ok (), ?w3)"
    using mk ne by (simp add: on_source_eq)
  have "sync_once L e w = Some (Err (Ctx ''batch upload failed (permanent error or retry budget exhausted)''
      (Msg ?msg)), ?w3)"
    using f ne r mm by (simp add: sync_once_def)
  moreover have "world_ok (lib_codec L) w2" using q2(1) by (simp add: quiet_def)
  note s3 = mark_failed_in_world(2) [OF this mm]
  ultimately show ?thesis using fw(4) [OF refl ne] s3 q2(2) s2(1) by auto
qed

end

lemma sync_once_returns: "\<exists>x w'. sync_once L e w = Some (x, w')"
proof -
  obtain y w1 where f: "on_source (fetch_pending (lib_codec L) (lib_order L)
      (batch_size (engine_sync e))) w = (y, w1)" by fastforce
  have r: "\<exists>z w2. retry_transient clock sleep (retry_initial_delay (engine_sync e))
      (retry_max_delay (engine_sync e)) (retry_max_elapsed (engine_sync e))
      (upload_batch L e rs) log_retry w1 = Some (z, w2)" for rs
    using batch_upload.retry_returns by blast
  show ?thesis
  proof (cases y)
    case (Ok rs)
    obtain z w2 where "retry_transient clock sleep (retry_initial_delay (engine_sync e))
      (retry_max_delay (engine_sync e)) (retry_max_elapsed (engine_sync e))
      (upload_batch L e rs) log_retry w1 = Some (z, w2)" using r by blast
    then show ?thesis using f Ok unfolding sync_once_def
      by (cases z) (simp_all add: Let_def)
  next
    case (Err m)
    then show ?thesis using f by (simp add: sync_once_def)
  qed
qed

sublocale local_engine \<subseteq> drain: batch_drain "\<lambda>w. quiet L w \<and> accepts_all L w"
    "after_cycle L e" "backlog_size L" "unat (batch_size (engine_sync e))" for e
proof
  fix w assume "quiet L w \<and> accepts_all L w"
  then obtain out w' where "sync_once L e w = Some (Ok out, w')" "quiet L w'" "accepts_all L w'"
    "backlog_size L w' = backlog_size L w - unat (batch_size (engine_sync e))"
    using accepted_cycle by blast
  then show "quiet L (after_cycle L e w) \<and> accepts_all L (after_cycle L e w)"
    and "backlog_size L (after_cycle L e w) \<le> backlog_size L w - unat (batch_size (engine_sync e))"
    by (simp_all add: after_cycle_def)
qed

context local_engine
begin

lemma drained_by_cycles:
  "quiet L w \<Longrightarrow> accepts_all L w \<Longrightarrow>
     backlog_size L w \<le> k * unat (batch_size (engine_sync e)) \<Longrightarrow>
     backlog_size L ((after_cycle L e ^^ k) w) = 0"
  by (rule drain.drained) simp_all

end

lemma batch_failed_backlog:
  "pending_batch n M rs \<Longrightarrow>
     backlog_of (cache_update (map rec_id rs) (rec_failed t msg) M) = backlog_of M"
  by (fastforce simp: pending_batch_def backlog_of_def cache_update_def split: if_splits)

section \<open>Properties\<close>

text \<open>Libraries and worlds for the witnesses.\<close>

definition demo_http :: http_lib where
  "demo_http =
     \<lparr>to_vec = (\<lambda>_. Ok ''{}''), from_str = (\<lambda>_. Err ''unsupported''), gz_write = Ok, gz_finish = Ok,
      status_display = show_nat, ser_time = show_int, compression = False\<rparr>"

definition demo_libs :: "f64 local_libs" where
  "demo_libs = \<lparr>lib_codec = decimal_codec, lib_uom = kilo_uom, lib_http = demo_http,
     lib_order = sort_key row_measured_at\<rparr>"

definition demo_engine :: sync_engine where
  "demo_engine =
     \<lparr>engine_api = \<lparr>endpoint = ''http://cloud'', api_api_key = None, timeout_seconds = 30\<rparr>,
      engine_sync = \<lparr>sync_source = ''local'', batch_size = 1, cron = [], sync_on_start = True,
        retry_initial_delay_ms = 1, retry_max_delay_ms = 1, retry_max_elapsed_seconds = 0\<rparr>\<rparr>"

definition demo_world :: "(http_response, string) result \<Rightarrow> sqlite world" where
  "demo_world reply =
     \<lparr>clock = 0, wall = (\<lambda>_. 7), latency = (\<lambda>_. 1), oversleep = (\<lambda>_. 1), remote = (\<lambda>_. reply),
      sent = [], retry_log = [], source_of = demo_db\<rparr>"

definition no_content :: http_response where
  "no_content = \<lparr>rs_status = 204, rs_body = Ok []\<rparr>"

interpretation demo_cycle: local_engine demo_libs
  by (intro local_engine.intro) (simp add: demo_libs_def local_store_sorted [OF decimal.codec_laws_axioms])

lemma demo_libs_laws:
  "codec_laws (lib_codec demo_libs)" "asc_ordering row_measured_at (lib_order demo_libs)"
  by (simp_all add: demo_libs_def decimal.codec_laws_axioms stable_order.asc_ordering_axioms)

lemma demo_world_quiet: "quiet demo_libs (demo_world reply)"
  by (simp add: quiet_def demo_libs_def demo_world_def world_ok_def wall_ok_def demo_db_wf
      serialises_def demo_http_def rfc3339_range_def) (simp add: demo_db_def)

lemma demo_world_ok: "world_ok (lib_codec demo_libs) (demo_world reply)"
  using demo_world_quiet by (simp add: quiet_def)

lemma demo_world_accepts: "accepts_all demo_libs (demo_world (Ok no_content))"
  by (simp add: accepts_all_def demo_world_def no_content_def read_reply_def accepted_of_def)

lemma demo_backlog: "backlog_size demo_libs (demo_world reply) = 2"
proof -
  have "length (filter is_pending_row (weighing_records demo_db)) = 2"
    by (simp add: demo_db_def is_pending_row_def record_to_model_def demo_record_def)
  then show ?thesis
    using sorted_store.backlog_card(2) [OF demo_db_wf]
    by (simp add: backlog_size_def world_cache_def demo_libs_def demo_world_def)
qed

lemma local_engine_laws:
  "codec_laws (lib_codec L) \<Longrightarrow> asc_ordering row_measured_at (lib_order L) \<Longrightarrow> local_engine L"
  by (intro local_engine.intro local_store.intro)

text \<open>
  C4: a cycle of the local engine implements \<open>cache_cycle\<close>. It changes the cache in one of
  four ways: not at all (nothing to upload, or a statement failed), the whole batch marked
  failed with the displayed error, accepted records marked synced and then rejected ones
  marked failed, or only the first of the two marks because the second statement failed.
  The batch is a largest one of pending records within the batch size, the marks are those of
  the endpoint's last answer, and the cache stays well formed.
\<close>

theorem local_sync_once_refines_spec:
  assumes "codec_laws (lib_codec L)" and "asc_ordering row_measured_at (lib_order L)"
    and "world_ok (lib_codec L) w" and "sync_once L e w = Some (x, w')"
  shows "world_ok (lib_codec L) w' \<and>
    cache_cycle (answered_in L w') (unat (batch_size (engine_sync e)))
      (world_cache (lib_codec L) w) x (world_cache (lib_codec L) w')"
  using local_engine.sync_once_refines [OF local_engine_laws [OF assms(1,2)] assms(3,4)] .

theorem local_sync_once_refines_spec_witness:
  "\<exists>x w'. sync_once demo_libs demo_engine (demo_world (Ok no_content)) = Some (x, w') \<and>
     world_ok (lib_codec demo_libs) w'"
proof -
  obtain x w' where "sync_once demo_libs demo_engine (demo_world (Ok no_content)) = Some (x, w')"
    using sync_once_returns by blast
  then show ?thesis
    using local_sync_once_refines_spec [OF demo_libs_laws demo_world_ok] by blast
qed

text \<open>
  No weighing is lost or altered by a cycle. After it the cache holds the same
  identifiers; every record keeps its measured data and is either untouched, or synced with
  its error cleared, or failed with one more retry counted and a message stored.
\<close>

theorem local_sync_once_keeps_records:
  assumes "codec_laws (lib_codec L)" and "asc_ordering row_measured_at (lib_order L)"
    and "world_ok (lib_codec L) w" and "sync_once L e w = Some (x, w')"
  shows "rel_option cycle_mark (world_cache (lib_codec L) w u) (world_cache (lib_codec L) w' u)"
  using cache_cycle_marks
    local_engine.sync_once_refines [OF local_engine_laws [OF assms(1,2)] assms(3,4)] by blast

theorem local_sync_once_keeps_records_witness:
  "\<exists>x w'. sync_once demo_libs demo_engine (demo_world (Err ''down'')) = Some (x, w') \<and>
     (world_cache decimal_codec (demo_world (Err ''down'')) 1 = None \<longleftrightarrow>
      world_cache decimal_codec w' 1 = None)"
proof -
  obtain x w' where run: "sync_once demo_libs demo_engine (demo_world (Err ''down'')) = Some (x, w')"
    using sync_once_returns by blast
  then have "rel_option cycle_mark (world_cache decimal_codec (demo_world (Err ''down'')) 1)
      (world_cache decimal_codec w' 1)"
    using local_sync_once_keeps_records [OF demo_libs_laws demo_world_ok]
    by (simp add: demo_libs_def)
  with run show ?thesis by (auto simp: option.rel_sel)
qed

text \<open>
  A record becomes synced only when the endpoint acknowledged it. If a cycle leaves a
  record synced that it did not find so, the endpoint's last answer was a success for the
  uploaded batch and names the record as accepted, or names no record at all (or is 204 No
  Content) and the record is one of the batch; and if the cycle reports success, the answer
  does not name the record as failed.
\<close>

theorem local_sync_once_synced_only_if_acknowledged:
  assumes "codec_laws (lib_codec L)" and "asc_ordering row_measured_at (lib_order L)"
    and "world_ok (lib_codec L) w" and "sync_once L e w = Some (x, w')"
    and "world_cache (lib_codec L) w' u = Some r'" and "rec_status r' = Synced"
    and "world_cache (lib_codec L) w u \<noteq> Some r'"
  shows "\<exists>rs rp response.
    pending_batch (unat (batch_size (engine_sync e))) (world_cache (lib_codec L) w) rs \<and>
    remote w' (sent w') = Ok rp \<and> read_reply L rs rp = Ok response \<and>
    u \<in> set (accepted_of rs response) \<and> (is_ok x \<longrightarrow> u \<notin> set (failed_ids response))"
  using local_engine.sync_once_refines [OF local_engine_laws [OF assms(1,2)] assms(3,4)]
    cache_cycle_synced [where M' = "world_cache (lib_codec L) w'" and u = u] assms(5-7)
  unfolding answered_in_def by blast

lemma demo_batch: "unat (batch_size (engine_sync demo_engine)) = 1"
  by (simp add: demo_engine_def)

lemma demo_newly_synced:
  "\<exists>x w' u r'. sync_once demo_libs demo_engine (demo_world (Ok no_content)) = Some (x, w') \<and>
     world_cache (lib_codec demo_libs) w' u = Some r' \<and> rec_status r' = Synced \<and>
     world_cache (lib_codec demo_libs) (demo_world (Ok no_content)) u \<noteq> Some r'"
proof -
  let ?w = "demo_world (Ok no_content)" and ?M = "world_cache (lib_codec demo_libs)"
  obtain out w' where run: "sync_once demo_libs demo_engine ?w = Some (Ok out, w')"
    and b: "backlog_size demo_libs w' = backlog_size demo_libs ?w - 1"
    using demo_cycle.accepted_cycle [OF demo_world_quiet demo_world_accepts, of demo_engine]
    unfolding demo_batch by blast
  have fin: "finite (backlog_of (?M w'))"
    using b demo_backlog by (intro card_ge_0_finite) (simp add: backlog_size_def)
  have "\<not> backlog_of (?M ?w) \<subseteq> backlog_of (?M w')"
  proof
    assume "backlog_of (?M ?w) \<subseteq> backlog_of (?M w')"
    from card_mono [OF fin this] b demo_backlog [of "Ok no_content"] show False
      unfolding backlog_size_def by linarith
  qed
  then obtain u r where r: "?M ?w u = Some r" "rec_status r \<noteq> Synced" "u \<notin> backlog_of (?M w')"
    by (auto simp: backlog_of_def)
  have "rel_option cycle_mark (?M ?w u) (?M w' u)"
    using cache_cycle_marks demo_cycle.sync_once_refines [OF demo_world_ok run] by blast
  then obtain r' where "?M w' u = Some r'" using r(1) by (auto simp: option_rel_Some1)
  moreover have "rec_status r' = Synced" using calculation r(3) by (auto simp: backlog_of_def)
  ultimately show ?thesis using run r(1,2) by (metis option.inject)
qed

theorem local_sync_once_synced_only_if_acknowledged_witness:
  "\<exists>x w' u rs rp response.
     sync_once demo_libs demo_engine (demo_world (Ok no_content)) = Some (x, w') \<and>
     remote w' (sent w') = Ok rp \<and> read_reply demo_libs rs rp = Ok response \<and>
     u \<in> set (accepted_of rs response)"
proof -
  obtain x w' u r' where
    run: "sync_once demo_libs demo_engine (demo_world (Ok no_content)) = Some (x, w')"
    and r': "world_cache (lib_codec demo_libs) w' u = Some r'" "rec_status r' = Synced"
      "world_cache (lib_codec demo_libs) (demo_world (Ok no_content)) u \<noteq> Some r'"
    using demo_newly_synced by blast
  show ?thesis
    using local_sync_once_synced_only_if_acknowledged [OF demo_libs_laws demo_world_ok run r'] run
    by blast
qed



text \<open>
  C16: an outage costs nothing but a retry. While the endpoint cannot be reached, a cycle ends
  with an error, marks exactly its batch as failed with the send error as message, and every
  record that was to be uploaded still is.
\<close>

theorem local_outage_keeps_backlog:
  assumes "codec_laws (lib_codec L)" and "asc_ordering row_measured_at (lib_order L)"
    and "quiet L w" and "unreachable w" and "batch_size (engine_sync e) \<noteq> 0"
    and "backlog_of (world_cache (lib_codec L) w) \<noteq> {}"
  shows "\<exists>x w' rs t. sync_once L e w = Some (Err x, w') \<and>
    pending_batch (unat (batch_size (engine_sync e))) (world_cache (lib_codec L) w) rs \<and>
    world_cache (lib_codec L) w' =
      cache_update (map rec_id rs) (rec_failed t ''failed to send upload request'')
        (world_cache (lib_codec L) w) \<and>
    backlog_of (world_cache (lib_codec L) w') = backlog_of (world_cache (lib_codec L) w)"
  using local_engine.unreachable_cycle [OF local_engine_laws [OF assms(1,2)] assms(3-6)]
    batch_failed_backlog by metis

theorem local_outage_keeps_backlog_witness:
  "\<exists>x w'. sync_once demo_libs demo_engine (demo_world (Err ''down'')) = Some (Err x, w') \<and>
     backlog_of (world_cache decimal_codec w') =
       backlog_of (world_cache decimal_codec (demo_world (Err ''down'')))"
proof -
  have "unreachable (demo_world (Err ''down''))" by (simp add: unreachable_def demo_world_def)
  moreover have "batch_size (engine_sync demo_engine) \<noteq> 0" by (simp add: demo_engine_def)
  moreover have "backlog_of (world_cache (lib_codec demo_libs) (demo_world (Err ''down''))) \<noteq> {}"
    using demo_backlog [of "Err ''down''"] by (auto simp: backlog_size_def)
  moreover have "lib_codec demo_libs = decimal_codec" by (simp add: demo_libs_def)
  ultimately show ?thesis
    using local_outage_keeps_backlog [OF demo_libs_laws demo_world_quiet] by metis
qed

text \<open>
  A permanent refusal ends the cycle at once. When the endpoint answers with a client error
  other than 408 and 429, the cycle sends exactly one request, ends with an error and marks
  exactly its batch as failed with the status and the body as message; nothing is retried
  within the cycle and nothing leaves the backlog.
\<close>

theorem local_permanent_status_one_request:
  assumes "codec_laws (lib_codec L)" and "asc_ordering row_measured_at (lib_order L)"
    and "quiet L w" and "batch_size (engine_sync e) \<noteq> 0"
    and "backlog_of (world_cache (lib_codec L) w) \<noteq> {}"
    and "\<And>h. remote w h = Ok \<lparr>rs_status = s, rs_body = Ok body\<rparr>"
    and "400 \<le> s" and "s < 500" and "s \<noteq> 408" and "s \<noteq> 429"
  shows "\<exists>x w' rq rs t. sync_once L e w = Some (Err x, w') \<and> sent w' = sent w @ [rq] \<and>
    pending_batch (unat (batch_size (engine_sync e))) (world_cache (lib_codec L) w) rs \<and>
    world_cache (lib_codec L) w' = cache_update (map rec_id rs)
      (rec_failed t (refusal_message L s body))
      (world_cache (lib_codec L) w) \<and>
    backlog_of (world_cache (lib_codec L) w') = backlog_of (world_cache (lib_codec L) w)"
proof -
  have "status_is_permanent s"
    using assms(7-10) by (simp add: status_is_permanent_def is_client_error_def)
  then show ?thesis
    using local_engine.permanent_cycle [OF local_engine_laws [OF assms(1,2)] assms(3-6)]
      batch_failed_backlog by metis
qed

theorem local_permanent_status_one_request_witness:
  "\<exists>x w' rq. sync_once demo_libs demo_engine (demo_world (Ok \<lparr>rs_status = 401, rs_body = Ok ''no''\<rparr>)) =
      Some (Err x, w') \<and> sent w' = [rq]"
proof -
  let ?w = "demo_world (Ok \<lparr>rs_status = 401, rs_body = Ok ''no''\<rparr>)"
  have b: "batch_size (engine_sync demo_engine) \<noteq> 0" by (simp add: demo_engine_def)
  have bl: "backlog_of (world_cache (lib_codec demo_libs) ?w) \<noteq> {}"
    using demo_backlog [of "Ok \<lparr>rs_status = 401, rs_body = Ok ''no''\<rparr>"] by (auto simp: backlog_size_def)
  have r: "remote ?w h = Ok \<lparr>rs_status = 401, rs_body = Ok ''no''\<rparr>" for h
    by (simp add: demo_world_def)
  have "sent ?w = []" by (simp add: demo_world_def)
  then show ?thesis
    using local_permanent_status_one_request [OF demo_libs_laws demo_world_quiet b bl r] by auto
qed

end
