(* ===== verification/Local_Receiver.thy ===== *)
theory Local_Receiver
  imports End_To_End Local_Engine
begin

text \<open>
  The local engine talking to the receive server of the same repository. The server reads the records
  of a payload by \<open>serialNo\<close>, which the records of the local engine do not have, so its
  acknowledgement names none of them; the engine, which looks for other fields still, takes an answer
  that names nothing as the acceptance of the whole batch. \<open>float_wire\<close> extends \<open>wire\<close> by payloads with
  floats, of which the other side may read a neighbouring value.
\<close>

section \<open>Values up to their floats\<close>

abbreviation json_wire :: "json \<Rightarrow> bool" where
  "json_wire \<equiv> json_over is_finite"

text \<open>The same value up to its floats.\<close>

inductive json_like :: "json \<Rightarrow> json \<Rightarrow> bool" where
  same: "json_like j j"
| float: "json_like (JNumber (JFloat x)) (JNumber (JFloat y))"
| array: "list_all2 json_like xs ys \<Longrightarrow> json_like (JArray xs) (JArray ys)"
| object: "list_all2 (rel_prod (=) json_like) m m' \<Longrightarrow> json_like (JObject m) (JObject m')"

inductive_cases json_like_stringE: "json_like (JString s) j"
inductive_cases json_like_arrayE: "json_like (JArray xs) j"
inductive_cases json_like_objectE: "json_like (JObject m) j"

locale float_wire = wire lib R for lib :: http_lib and R :: receiver +
  assumes print_floats: "json_wire j \<Longrightarrow> \<exists>t. to_vec lib j = Ok t"
    and extract_floats: "json_wire j \<Longrightarrow> to_vec lib j = Ok t \<Longrightarrow> rq_body rq = Ok t \<Longrightarrow>
      map_of (rq_headers rq) ''content-type'' = Some ''application/json'' \<Longrightarrow>
      map_of (rq_headers rq) ''content-encoding'' = None \<Longrightarrow> length t \<le> rcv_limit R \<Longrightarrow>
      \<exists>j'. rcv_extract R rq = Ok j' \<and> json_like j j'"

lemma json_like_refl_all: "list_all2 json_like xs xs"
  by (simp add: list_all2_same json_like.same)

lemma json_like_get:
  assumes "json_like (JObject m) j"
  shows "\<exists>m'. j = JObject m' \<and> map fst m' = map fst m \<and> rel_option json_like (map_of m k) (map_of m' k)"
proof -
  have "\<exists>m'. j = JObject m' \<and> list_all2 (rel_prod (=) json_like) m m'"
    using assms
    by (auto elim!: json_like_objectE simp: list_all2_same json_like.same rel_prod_sel)
  then obtain m' where m': "j = JObject m'" "list_all2 (rel_prod (=) json_like) m m'" by blast
  from m'(2) have "map fst m' = map fst m \<and> rel_option json_like (map_of m k) (map_of m' k)"
    by (induction rule: list_all2_induct) (auto simp: rel_prod_sel)
  then show ?thesis using m'(1) by blast
qed

lemma json_like_array:
  assumes "json_like (JArray xs) j"
  shows "\<exists>ys. j = JArray ys \<and> list_all2 json_like xs ys"
  using assms by (cases rule: json_like_arrayE) (auto intro: json_like_refl_all)

lemma json_like_string [simp]: "json_like (JString s) j \<longleftrightarrow> j = JString s"
  by (auto elim: json_like_stringE intro: json_like.same)

section \<open>The payload of the local engine at the receiver\<close>

definition batch_json :: "'m local_libs \<Rightarrow> weighing_record list \<Rightarrow> datetime \<Rightarrow> json" where
  "batch_json L rs t =
     batch_request_json (lib_codec L) (lib_http L)
       \<lparr>bu_source = ''weighing-data-sync'', bu_uploaded_at = t,
        bu_records = map (upload_record_from (lib_uom L)) rs\<rparr>"

definition record_json :: "'m local_libs \<Rightarrow> weighing_record \<Rightarrow> json" where
  "record_json L r = upload_record_json (lib_codec L) (lib_http L) (upload_record_from (lib_uom L) r)"

text \<open>The body stays within the receiver's limit.\<close>

definition batch_fits :: "'m local_libs \<Rightarrow> receiver \<Rightarrow> weighing_record list \<Rightarrow> bool" where
  "batch_fits L R rs \<longleftrightarrow>
     (\<forall>t text. to_vec (lib_http L) (batch_json L rs t) = Ok text \<longrightarrow> length text \<le> rcv_limit R)"

lemma json_f64_wire: "json_wire (json_f64 x)"
  by (simp add: json_f64_def)

lemma batch_json_wire: "json_wire (batch_json L rs t)"
proof -
  have "json_wire (upload_record_json cx lib r)" for cx lib r
    unfolding upload_record_json_def using json_f64_wire
    by (intro json_object_over) (auto split: option.splits)
  then show ?thesis
    unfolding batch_json_def batch_request_json_def by (intro json_object_over) auto
qed

lemma json_object_get: "\<exists>m. json_object fs = JObject m \<and> map_of m = map_of (rev fs)"
  by (simp add: json_object_def map_of_json_fields map_new_def)

lemma record_without_serial:
  assumes "json_like (record_json L r) j"
  shows "record_serial j = None"
proof -
  have "\<exists>m. record_json L r = JObject m \<and> map_of m ''serialNo'' = None \<and> map_of m ''serial_no'' = None"
    unfolding record_json_def upload_record_json_def
    by (simp add: json_object_def map_of_json_fields map_new_def)
  then obtain m where m: "record_json L r = JObject m"
    and none: "map_of m ''serialNo'' = None" "map_of m ''serial_no'' = None" by blast
  note like = assms [unfolded m]
  show ?thesis
    using json_like_get [OF like, of "''serialNo''"] json_like_get [OF like, of "''serial_no''"] none
    by (auto simp: record_serial_def)
qed

lemma batch_received:
  assumes "json_like (batch_json L rs t) j"
  shows "list_all2 json_like (map (record_json L) rs) (payload_records j)"
    and "payload_text j ''source'' = ''weighing-data-sync''"
    and "payload_text j ''database'' = ''unknown''" and "payload_text j ''table'' = ''unknown''"
proof -
  have "\<exists>m. batch_json L rs t = JObject m \<and> map_of m ''source'' = Some (JString ''weighing-data-sync'') \<and>
      map_of m ''records'' = Some (JArray (map (record_json L) rs)) \<and>
      map_of m ''database'' = None \<and> map_of m ''table'' = None"
    unfolding batch_json_def batch_request_json_def
    by (simp add: json_object_def map_of_json_fields map_new_def record_json_def)
  then obtain m where m: "batch_json L rs t = JObject m"
    and f: "map_of m ''source'' = Some (JString ''weighing-data-sync'')"
      "map_of m ''records'' = Some (JArray (map (record_json L) rs))"
      "map_of m ''database'' = None" "map_of m ''table'' = None" by blast
  note like = json_like_get [OF assms [unfolded m]]
  show "payload_text j ''source'' = ''weighing-data-sync''"
    using like [of "''source''"] f(1) by (auto simp: payload_text_def option_rel_Some1)
  show "payload_text j ''database'' = ''unknown''" "payload_text j ''table'' = ''unknown''"
    using like [of "''database''"] like [of "''table''"] f(3, 4) by (auto simp: payload_text_def)
  obtain m' v where v: "j = JObject m'" "map_of m' ''records'' = Some v"
    "json_like (JArray (map (record_json L) rs)) v"
    using like [of "''records''"] f(2) by (auto simp: option_rel_Some1)
  from json_like_array [OF v(3)] show "list_all2 json_like (map (record_json L) rs) (payload_records j)"
    using v(1, 2) by (auto simp: payload_records_def)
qed

lemma records_without_serials:
  "list_all2 json_like (map (record_json L) rs) js \<Longrightarrow> List.map_filter record_serial js = []"
  by (induction rs arbitrary: js)
    (auto simp: list_all2_Cons1 map_filter_simps dest: record_without_serial)

text \<open>The acknowledgement names none of the fields the local engine reads.\<close>

lemma put_response_no_ids:
  "batch_response_de cx (put_response_json cx' r) = Ok \<lparr>accepted_ids = [], failed_ids = []\<rparr>"
proof -
  have "de_two_vecs (de_uuid cx) ''accepted_ids'' ''failed_ids'' (put_response_json cx' r) = Ok ([], [])"
    unfolding put_response_json_def de_two_vecs_def de_field_object
    by simp (simp add: json_object_def)
  then show ?thesis by (simp add: batch_response_de_def)
qed

section \<open>The exchange\<close>

context float_wire
begin

lemma batch_accepted:
  assumes L: "lib_http L = lib" "\<not> compression lib" and w: "remote w = receiver_remote R st"
    and ne: "rs \<noteq> []" and keys: "keys_agree R st (api_api_key (engine_api e))" and fits: "batch_fits L R rs"
  shows "\<exists>w'. upload_batch L e rs w = (Ok \<lparr>accepted_ids = [], failed_ids = []\<rparr>, w') \<and>
    stored_once R st (sent w) (sent w') ''weighing-data-sync'' ''unknown'' ''unknown''
      (list_all2 json_like (map (record_json L) rs))"
proof -
  let ?j = "batch_json L rs (utc_now w)"
  let ?rq = "upload_request lib (engine_api e) ?j"
  obtain tx where tx: "to_vec lib ?j = Ok tx" using print_floats [OF batch_json_wire] by blast
  have "length tx \<le> rcv_limit R" using fits tx L by (auto simp: batch_fits_def)
  then obtain j' where ex: "rcv_extract R ?rq = Ok j'" and like: "json_like ?j j'"
    using extract_floats [OF batch_json_wire tx, of ?rq] tx upload_request_headers by metis
  note got = batch_received [OF like]
  have ne': "payload_records j' \<noteq> []" using got(1) ne by (auto dest: list_all2_lengthD)
  obtain body r where a: "remote w (sent w @ [?rq]) = Ok \<lparr>rs_status = 200, rs_body = Ok body\<rparr>"
    "from_str lib body = Ok (put_response_json (srv_codec (rcv_lib R)) r)"
    using receiver_answers [OF ex ne' keys, of "sent w"] w by auto
  have "read_reply L rs \<lparr>rs_status = 200, rs_body = Ok body\<rparr> = Ok \<lparr>accepted_ids = [], failed_ids = []\<rparr>"
    using a(2) L(1) put_response_no_ids by (simp add: read_reply_def is_success_def)
  then have "\<exists>w'. upload_batch L e rs w = (Ok \<lparr>accepted_ids = [], failed_ids = []\<rparr>, w') \<and>
      sent w' = sent w @ [?rq]"
    unfolding upload_batch_def Let_def L(1) build_upload_request [OF L(2)]
    using a(1) tx unfolding batch_json_def L(1) by (simp add: http_send_def upload_request_headers Let_def)
  moreover have "stored_once R st (sent w) (sent w @ [?rq]) ''weighing-data-sync'' ''unknown'' ''unknown''
      (list_all2 json_like (map (record_json L) rs))"
    by (rule stored_onceI [where j = j', OF ex ne' client_authorised [OF keys]]) (rule got)+
  ultimately show ?thesis by metis
qed

end

text \<open>What one cycle against the receiver comes to.\<close>

definition delivered_records ::
  "'m local_libs \<Rightarrow> receiver \<Rightarrow> app_state \<Rightarrow> weighing_record list \<Rightarrow> sqlite world \<Rightarrow> sync_outcome \<Rightarrow>
   sqlite world \<Rightarrow> bool" where
  "delivered_records L R st rs w out w' \<longleftrightarrow>
     synced out = fetched out \<and> failed out = 0 \<and>
     (\<exists>t. world_cache (lib_codec L) w' =
        cache_update (map rec_id rs) (rec_synced t) (world_cache (lib_codec L) w)) \<and>
     (rs = [] \<and> sent w' = sent w \<or>
      stored_once R st (sent w) (sent w') ''weighing-data-sync'' ''unknown'' ''unknown''
        (list_all2 json_like (map (record_json L) rs)))"

lemma local_receiver_cycle:
  assumes eng: "local_engine L" and wr: "float_wire (lib_http L) R" and nc: "\<not> compression (lib_http L)"
    and q: "quiet L w" and rm: "remote w = receiver_remote R st"
    and keys: "keys_agree R st (api_api_key (engine_api e))"
    and fits: "\<And>rs s'. fetch_pending (lib_codec L) (lib_order L) (batch_size (engine_sync e))
      (source_of w) = (Ok rs, s') \<Longrightarrow> batch_fits L R rs"
  shows "\<exists>rs s' out w'. fetch_pending (lib_codec L) (lib_order L) (batch_size (engine_sync e))
      (source_of w) = (Ok rs, s') \<and> sync_once L e w = Some (Ok out, w') \<and>
    delivered_records L R st rs w out w'"
proof -
  obtain rs w1 where f: "on_source (fetch_pending (lib_codec L) (lib_order L)
      (batch_size (engine_sync e))) w = (Ok rs, w1)"
    and c1: "world_cache (lib_codec L) w1 = world_cache (lib_codec L) w"
    using local_engine.quiet_fetch [OF eng q] by blast
  obtain s1 where s1: "fetch_pending (lib_codec L) (lib_order L) (batch_size (engine_sync e))
      (source_of w) = (Ok rs, s1)" "w1 = w\<lparr>source_of := s1\<rparr>"
    using f by (auto simp: on_source_iff)
  show ?thesis
  proof (cases "rs = []")
    case True
    then have "delivered_records L R st rs w outcome_no_data w1"
      using c1 s1(2) by (simp add: delivered_records_def outcome_no_data_def cache_update_def)
    moreover have "sync_once L e w = Some (Ok outcome_no_data, w1)" using f True by (simp add: sync_once_def)
    ultimately show ?thesis using s1(1) by blast
  next
    case False
    have "remote w1 = receiver_remote R st" using s1(2) rm by simp
    then obtain w2 where u: "upload_batch L e rs w1 = (Ok \<lparr>accepted_ids = [], failed_ids = []\<rparr>, w2)"
      and st: "stored_once R st (sent w1) (sent w2) ''weighing-data-sync'' ''unknown'' ''unknown''
        (list_all2 json_like (map (record_json L) rs))"
      using float_wire.batch_accepted [OF wr refl nc _ False keys fits [OF s1(1)]] by blast
    have acc: "accepted_of rs \<lparr>accepted_ids = [], failed_ids = []\<rparr> = map rec_id rs"
      by (simp add: accepted_of_def)
    obtain w3 t where w3: "sync_once L e w =
        Some (Ok (outcome_of rs \<lparr>accepted_ids = [], failed_ids = []\<rparr>), w3)" "sent w3 = sent w2"
      "world_cache (lib_codec L) w3 = cache_update (map rec_id rs) (rec_synced t) (world_cache (lib_codec L) w)"
      using local_engine.accepted_upload_cycle [OF eng q f False u acc] by auto
    then have "delivered_records L R st rs w (outcome_of rs \<lparr>accepted_ids = [], failed_ids = []\<rparr>) w3"
      using st acc s1(2) by (auto simp: delivered_records_def outcome_of_def)
    then show ?thesis using w3(1) s1(1) by blast
  qed
qed

section \<open>Property\<close>

text \<open>An engine and a receiver for the witness.\<close>

interpretation demo_float_wire: float_wire wire_lib "demo_receiver limit"
  by unfold_locales (auto simp: wire_lib_def demo_receiver_def intro: json_like.same)

definition demo_local_libs :: "f64 local_libs" where
  "demo_local_libs = demo_libs\<lparr>lib_http := wire_lib\<rparr>"

definition demo_pair_state :: app_state where
  "demo_pair_state = \<lparr>state_api_key = Some ''k'', state_db = Some demo_db\<rparr>"

definition demo_local_engine :: sync_engine where
  "demo_local_engine = demo_engine\<lparr>engine_api :=
     \<lparr>endpoint = ''http://receiver'', api_api_key = Some ''k'', timeout_seconds = 30\<rparr>\<rparr>"

definition demo_local_world :: "nat \<Rightarrow> sqlite world" where
  "demo_local_world limit =
     (demo_world (Err []))\<lparr>remote := receiver_remote (demo_receiver limit) demo_pair_state\<rparr>"

lemma demo_pair_keys: "keys_agree (demo_receiver limit) demo_pair_state (Some ''k'')"
proof -
  have "trim ''k'' = ''k''" by code_simp
  then show ?thesis by (simp add: keys_agree_def demo_pair_state_def demo_receiver_def demo_server_lib_def)
qed

lemma demo_local_quiet: "quiet demo_local_libs (demo_local_world limit)"
  using demo_world_quiet [of "Err []"]
  by (simp add: quiet_def demo_local_libs_def demo_local_world_def world_ok_def wall_ok_def serialises_def
      wire_lib_def)

text \<open>
  C8: the local engine and the receive server of this repository work together. When the engine
  uploads to the receive server without compression, the two keys agree (or the server has none), the
  body of the batch is within the server's limit and no statement of the cache fails, one cycle
  succeeds: exactly the records of the fetched batch become synced, nothing is rejected, and one
  request was sent, which the server, if its database takes it, stores as one row whose payload holds
  the records of the batch (its floats as the server reads them). That the server acknowledges serial
  numbers and the engine waits for identifiers does no harm, because neither list is then filled.
\<close>

theorem local_to_receiver:
  assumes "codec_laws (lib_codec L)" and "asc_ordering row_measured_at (lib_order L)"
    and "float_wire (lib_http L) R" and "\<not> compression (lib_http L)"
    and "quiet L w" and "remote w = receiver_remote R st"
    and "keys_agree R st (api_api_key (engine_api e))"
    and "\<And>rs s'. fetch_pending (lib_codec L) (lib_order L) (batch_size (engine_sync e))
      (source_of w) = (Ok rs, s') \<Longrightarrow> batch_fits L R rs"
  shows "\<exists>rs s' out w'. fetch_pending (lib_codec L) (lib_order L) (batch_size (engine_sync e))
      (source_of w) = (Ok rs, s') \<and> sync_once L e w = Some (Ok out, w') \<and>
    delivered_records L R st rs w out w'"
  using local_receiver_cycle [OF local_engine_laws [OF assms(1, 2)] assms(3-8)] .

theorem local_to_receiver_witness:
  "\<exists>limit rs out w'. sync_once demo_local_libs demo_local_engine (demo_local_world limit) = Some (Ok out, w') \<and>
     rs \<noteq> [] \<and> delivered_records demo_local_libs (demo_receiver limit) demo_pair_state rs
       (demo_local_world limit) out w' \<and>
     persists (demo_receiver limit) (length (sent (demo_local_world limit)))
       (receiver_after (demo_receiver limit) demo_pair_state (sent (demo_local_world limit)))"
proof -
  have lib: "lib_http demo_local_libs = wire_lib" "lib_codec demo_local_libs = decimal_codec"
    "lib_order demo_local_libs = lib_order demo_libs" "lib_codec demo_libs = decimal_codec"
    by (simp_all add: demo_local_libs_def demo_libs_def)
  note laws = demo_libs_laws [unfolded lib(4), folded lib(2, 3)]
  have nc: "\<not> compression (lib_http demo_local_libs)" by (simp add: lib wire_lib_def)
  have rm: "remote (demo_local_world k) = receiver_remote (demo_receiver k) demo_pair_state" for k
    by (simp add: demo_local_world_def)
  have keys: "keys_agree (demo_receiver k) demo_pair_state (api_api_key (engine_api demo_local_engine))" for k
    using demo_pair_keys by (simp add: demo_local_engine_def)
  have src: "source_of (demo_local_world k) = demo_db" for k by (simp add: demo_local_world_def demo_world_def)
  let ?fetch = "fetch_pending (lib_codec demo_local_libs) (lib_order demo_local_libs)
      (batch_size (engine_sync demo_local_engine)) demo_db"
  obtain rs s where f: "?fetch = (Ok rs, s)"
    using local_engine.quiet_fetch [OF local_engine_laws [OF laws] demo_local_quiet [of 0],
        of "batch_size (engine_sync demo_local_engine)"] src [of 0]
    by (auto simp: on_source_iff)
  let ?k = "length (wire_print (batch_json demo_local_libs rs 0))"
  have t0: "batch_json demo_local_libs rs t = batch_json demo_local_libs rs 0" for t
    by (simp add: batch_json_def batch_request_json_def lib wire_lib_def)
  have "to_vec wire_lib j = Ok (wire_print j)" "rcv_limit (demo_receiver ?k) = ?k" for j
    by (simp_all add: wire_lib_def demo_receiver_def)
  then have fits: "batch_fits demo_local_libs (demo_receiver ?k) rs"
    unfolding batch_fits_def lib by (metis order_refl result.inject(1) t0)
  have "persists (demo_receiver ?k) (length (sent (demo_local_world ?k)))
      (receiver_after (demo_receiver ?k) demo_pair_state (sent (demo_local_world ?k)))"
    by (simp add: persists_def receiver_after_def demo_local_world_def demo_world_def demo_pair_state_def
        demo_db_def demo_receiver_def demo_server_lib_def)
  moreover have "rs \<noteq> []"
  proof
    assume "rs = []"
    then have f0: "?fetch = (Ok [], s)" using f by simp
    have ok: "world_ok (lib_codec demo_local_libs) (demo_local_world 0)"
      using demo_local_quiet by (simp add: quiet_def)
    have "on_source (fetch_pending (lib_codec demo_local_libs) (lib_order demo_local_libs)
        (batch_size (engine_sync demo_local_engine))) (demo_local_world 0) =
        (Ok [], (demo_local_world 0)\<lparr>source_of := s\<rparr>)" using f0 by (simp add: on_source_def src)
    note e = local_engine.fetch_in_world(5) [OF local_engine_laws [OF laws] ok this refl]
    have "backlog_size demo_libs (demo_local_world 0) = 2"
      using demo_backlog [of "Err []"] by (simp add: backlog_size_def demo_local_world_def world_cache_def)
    then have "backlog_of (world_cache decimal_codec (demo_local_world 0)) \<noteq> {}"
      by (auto simp: backlog_size_def lib)
    then show False using e by (simp add: lib demo_local_engine_def demo_engine_def)
  qed
  ultimately show ?thesis
    using local_to_receiver [OF laws demo_float_wire.float_wire_axioms [folded lib(1)] nc demo_local_quiet rm keys,
        of ?k] fits f by (simp add: src) blast
qed

end
