(* ===== verification/Websocket_Client.thy ===== *)
theory Websocket_Client
  imports Upload_Http
begin

text \<open>
  The WebSocket client (src/client/websocket.rs): its settings, the handshake request, the
  buffer sizes, the exchange of one batch for one acknowledgement, and the reading of the
  acknowledgement.

  The peer is a parameter: how connecting and sending go, and an arbitrary infinite sequence of
  what successive reads yield. \<open>read_ack\<close> is a partial function; \<open>None\<close> is a wait that never
  ends.
\<close>

section \<open>Settings\<close>

record websocket_client =
  ws_endpoint :: string
  ws_api_key :: "string option"
  connect_timeout :: duration
  ack_timeout :: duration
  max_message_bytes :: usize
  write_buffer_bytes :: usize

definition DEFAULT_CONNECT_TIMEOUT :: duration where
  "DEFAULT_CONNECT_TIMEOUT = duration_from_secs 10"

definition DEFAULT_ACK_TIMEOUT :: duration where
  "DEFAULT_ACK_TIMEOUT = duration_from_secs 30"

definition DEFAULT_MAX_MESSAGE_BYTES :: usize where
  "DEFAULT_MAX_MESSAGE_BYTES = 16 * 1024 * 1024"

definition DEFAULT_WRITE_BUFFER_BYTES :: usize where
  "DEFAULT_WRITE_BUFFER_BYTES = 128 * 1024"

definition websocket_client_new :: "string \<Rightarrow> websocket_client" where
  "websocket_client_new ep =
     \<lparr>ws_endpoint = ep, ws_api_key = None, connect_timeout = DEFAULT_CONNECT_TIMEOUT,
      ack_timeout = DEFAULT_ACK_TIMEOUT, max_message_bytes = DEFAULT_MAX_MESSAGE_BYTES,
      write_buffer_bytes = DEFAULT_WRITE_BUFFER_BYTES\<rparr>"

definition with_api_key :: "string \<Rightarrow> websocket_client \<Rightarrow> websocket_client" where
  "with_api_key k c = c\<lparr>ws_api_key := Some k\<rparr>"

definition with_timeouts :: "duration \<Rightarrow> duration \<Rightarrow> websocket_client \<Rightarrow> websocket_client" where
  "with_timeouts ct at c = c\<lparr>connect_timeout := ct, ack_timeout := at\<rparr>"

definition with_max_message_bytes :: "usize \<Rightarrow> websocket_client \<Rightarrow> websocket_client" where
  "with_max_message_bytes n c = c\<lparr>max_message_bytes := n\<rparr>"

definition with_write_buffer_bytes :: "usize \<Rightarrow> websocket_client \<Rightarrow> websocket_client" where
  "with_write_buffer_bytes n c = c\<lparr>write_buffer_bytes := n\<rparr>"

section \<open>The acknowledgement\<close>

record websocket_ack =
  ack_accepted :: bool
  ack_received :: "usize option"
  ack_message :: "string option"

record ack_envelope =
  env_accepted :: "bool option"
  env_ok :: "bool option"
  env_success :: "bool option"
  env_status :: "string option"
  env_received :: "usize option"
  env_message :: "string option"
  env_failed :: "usize option"
  env_failed_ids :: "json list"

text \<open>serde's \<open>Option\<close> takes \<open>null\<close> for \<open>None\<close>.\<close>

definition de_option :: "(json \<Rightarrow> ('a, string) result) \<Rightarrow> json \<Rightarrow> ('a option, string) result" where
  "de_option conv j = (case j of JNull \<Rightarrow> Ok None | _ \<Rightarrow> and_then (conv j) (\<lambda>v. Ok (Some v)))"

definition de_bool :: "json \<Rightarrow> (bool, string) result" where
  "de_bool j = (case j of JBool b \<Rightarrow> Ok b | _ \<Rightarrow> Err ''invalid type, expected a boolean'')"

definition de_usize :: "json \<Rightarrow> (usize, string) result" where
  "de_usize j =
     (case j of
        JNumber (JInt i) \<Rightarrow>
          (if 0 \<le> i \<and> i < 2 ^ 64 then Ok (of_int i) else Err ''invalid value, expected usize'')
      | _ \<Rightarrow> Err ''invalid type, expected usize'')"

definition ack_envelope_de :: "json \<Rightarrow> (ack_envelope, string) result" where
  "ack_envelope_de j =
     and_then (de_field (de_option de_bool) None ''accepted'' 0 j) (\<lambda>a.
     and_then (de_field (de_option de_bool) None ''ok'' 1 j) (\<lambda>k.
     and_then (de_field (de_option de_bool) None ''success'' 2 j) (\<lambda>s.
     and_then (de_field (de_option de_string) None ''status'' 3 j) (\<lambda>st.
     and_then (de_field (de_option de_usize) None ''received'' 4 j) (\<lambda>r.
     and_then (de_field (de_option de_string) None ''message'' 5 j) (\<lambda>m.
     and_then (de_field (de_option de_usize) None ''failed'' 6 j) (\<lambda>f.
     and_then (de_field (de_vec Ok) [] ''failed_ids'' 7 j) (\<lambda>ids.
       Ok \<lparr>env_accepted = a, env_ok = k, env_success = s, env_status = st, env_received = r,
           env_message = m, env_failed = f, env_failed_ids = ids\<rparr>))))))))"

definition status_is_success :: "string option \<Rightarrow> bool option" where
  "status_is_success status =
     (case status of
        None \<Rightarrow> None
      | Some raw \<Rightarrow>
          let s = trim raw
          in if eq_ignore_ascii_case s ''ok'' \<or> eq_ignore_ascii_case s ''ack'' \<or>
                eq_ignore_ascii_case s ''accepted'' \<or> eq_ignore_ascii_case s ''success'' \<or>
                eq_ignore_ascii_case s ''succeeded''
             then Some True
             else if eq_ignore_ascii_case s ''error'' \<or> eq_ignore_ascii_case s ''failed'' \<or>
                eq_ignore_ascii_case s ''rejected''
             then Some False
             else None)"

definition ack_from_status ::
  "string \<Rightarrow> usize option \<Rightarrow> string option \<Rightarrow> (websocket_ack, anyhow) result" where
  "ack_from_status status received message =
     (case status_is_success (Some status) of
        Some True \<Rightarrow> Ok \<lparr>ack_accepted = True, ack_received = received, ack_message = message\<rparr>
      | Some False \<Rightarrow> Err (Msg (''websocket endpoint rejected batch with status '' @ status))
      | None \<Rightarrow> Err (Msg (''unsupported websocket ack status '' @ status)))"

definition or_opt :: "'a option \<Rightarrow> 'a option \<Rightarrow> 'a option" where
  "or_opt x y = (case x of Some v \<Rightarrow> Some v | None \<Rightarrow> y)"

definition ack_from_envelope :: "ack_envelope \<Rightarrow> (websocket_ack, anyhow) result" where
  "ack_from_envelope e =
     (if (case env_failed e of Some n \<Rightarrow> n | None \<Rightarrow> 0) > 0 \<or> env_failed_ids e \<noteq> []
      then Err (Msg (''websocket endpoint rejected '' @
        show_nat (unat (case env_failed e of Some n \<Rightarrow> n | None \<Rightarrow> of_nat (length (env_failed_ids e)))) @
        '' records''))
      else
        let accepted = or_opt (or_opt (or_opt (env_accepted e) (env_ok e)) (env_success e))
              (status_is_success (env_status e))
        in case accepted of
             Some True \<Rightarrow>
               Ok \<lparr>ack_accepted = True, ack_received = env_received e, ack_message = env_message e\<rparr>
           | Some False \<Rightarrow>
               Err (Msg (case env_message e of
                 Some m \<Rightarrow> m | None \<Rightarrow> ''websocket endpoint rejected batch''))
           | None \<Rightarrow>
               Err (Msg ''websocket ack must contain accepted/ok/success or a success status''))"

text \<open>\<open>from_slice\<close> is serde_json's parser and \<open>value_display\<close> the \<open>Display\<close> of a value.\<close>

definition parse_ack_payload ::
  "(string \<Rightarrow> (json, string) result) \<Rightarrow> (json \<Rightarrow> string) \<Rightarrow> string \<Rightarrow> (websocket_ack, anyhow) result" where
  "parse_ack_payload from_slice value_display payload =
     and_then (context_err ''failed to decode websocket ack'' (map_err Msg (from_slice payload)))
       (\<lambda>value. case value of
          JBool b \<Rightarrow>
            (if b then Ok \<lparr>ack_accepted = True, ack_received = None, ack_message = None\<rparr>
             else Err (Msg ''websocket endpoint rejected batch''))
        | JString status \<Rightarrow> ack_from_status status None None
        | JObject _ \<Rightarrow>
            and_then (context_err ''failed to parse websocket ack''
                (map_err Msg (ack_envelope_de value))) ack_from_envelope
        | other \<Rightarrow> Err (Msg (''unsupported websocket ack payload: '' @ value_display other)))"

definition validate_ack_record_count :: "websocket_ack \<Rightarrow> usize \<Rightarrow> (unit, anyhow) result" where
  "validate_ack_record_count ack expected =
     (case ack_received ack of
        Some received \<Rightarrow>
          (if received = expected then Ok ()
           else Err (Msg (''websocket ack received count '' @ show_nat (unat received) @
             '' does not match sent count '' @ show_nat (unat expected))))
      | None \<Rightarrow> Ok ())"

section \<open>The exchange\<close>

datatype ws_message =
    WText string
  | WBinary string
  | WPing string
  | WPong string
  | WClose "string option"
  | WFrame string

text \<open>An operation under \<open>tokio::time::timeout\<close>.\<close>

datatype 'a timed = Elapsed | Done 'a

record ws_peer =
  ws_connect :: "(unit, string) result timed"
  ws_send_batch :: "(unit, string) result timed"
  ws_next :: "nat \<Rightarrow> (ws_message, string) result option timed"
  ws_send_pong :: "nat \<Rightarrow> (unit, string) result timed"

record ws_lib =
  ws_into_request :: "string \<Rightarrow> (unit, string) result"
  ws_parse_header :: "string \<Rightarrow> (string, string) result"
  ws_to_vec :: "json \<Rightarrow> (string, string) result"
  ws_from_slice :: "string \<Rightarrow> (json, string) result"
  ws_display :: "json \<Rightarrow> string"
  ws_ser_time :: "datetime \<Rightarrow> string"

definition websocket_request_json :: "ws_lib \<Rightarrow> datetime \<Rightarrow> json list \<Rightarrow> json" where
  "websocket_request_json lib now records =
     json_object
       [(''source'', JString ''weighing-data-sync''),
        (''uploaded_at'', JString (ws_ser_time lib now)),
        (''records'', JArray records)]"

definition build_request :: "ws_lib \<Rightarrow> websocket_client \<Rightarrow> ((string \<times> string) list, anyhow) result" where
  "build_request lib c =
     and_then (context_err (''invalid websocket endpoint '' @ ws_endpoint c)
         (map_err Msg (ws_into_request lib (ws_endpoint c)))) (\<lambda>_.
     and_then (map_err Msg (ws_parse_header lib ''application/json'')) (\<lambda>ct.
       case ws_api_key c of
         None \<Rightarrow> Ok [(''content-type'', ct)]
       | Some k \<Rightarrow>
           and_then (map_err Msg (ws_parse_header lib (''Bearer '' @ k))) (\<lambda>v.
             Ok [(''content-type'', ct), (''authorization'', v)])))"

record ws_config =
  write_buffer_size :: usize
  max_write_buffer_size :: usize
  max_message_size :: "usize option"
  max_frame_size :: "usize option"

definition checked_add :: "usize \<Rightarrow> usize \<Rightarrow> usize option" where
  "checked_add a b = (if unat a + unat b < 2 ^ 64 then Some (a + b) else None)"

definition saturating_add :: "usize \<Rightarrow> usize \<Rightarrow> usize" where
  "saturating_add a b = (if unat a + unat b < 2 ^ 64 then a + b else - 1)"

definition websocket_config :: "websocket_client \<Rightarrow> (ws_config, anyhow) result" where
  "websocket_config c =
     and_then (ok_or_else (checked_add (write_buffer_bytes c) (max (max_message_bytes c) 1))
         (Msg ''websocket write buffer and max message size are too large'')) (\<lambda>sz.
       let sz = max sz (saturating_add (write_buffer_bytes c) 1)
       in Ok \<lparr>write_buffer_size = write_buffer_bytes c, max_write_buffer_size = sz,
              max_message_size = Some (max_message_bytes c),
              max_frame_size = Some (max_message_bytes c)\<rparr>)"

text \<open>\<open>timeout(...).await.context(t)?.context(c)?\<close>.\<close>

definition timed_result ::
  "string \<Rightarrow> string \<Rightarrow> ('a, string) result timed \<Rightarrow> ('a, anyhow) result" where
  "timed_result t c r =
     (case r of
        Elapsed \<Rightarrow> Err (Ctx t (Msg ''deadline has elapsed''))
      | Done x \<Rightarrow> context_err c (map_err Msg x))"

text \<open>\<open>n\<close> counts the reads; the second component of the result is what was sent.\<close>

partial_function (option) read_ack ::
  "ws_lib \<Rightarrow> ws_peer \<Rightarrow> nat \<Rightarrow> ((websocket_ack, anyhow) result \<times> ws_message list) option" where
  "read_ack lib peer n =
     (case ws_next peer n of
        Elapsed \<Rightarrow> Some (Err (Ctx ''websocket ack timed out'' (Msg ''deadline has elapsed'')), [])
      | Done None \<Rightarrow> Some (Err (Msg ''websocket closed before ack''), [])
      | Done (Some (Err m)) \<Rightarrow> Some (Err (Ctx ''failed to read websocket ack'' (Msg m)), [])
      | Done (Some (Ok frame)) \<Rightarrow>
          (case frame of
             WText t \<Rightarrow> Some (parse_ack_payload (ws_from_slice lib) (ws_display lib) t, [])
           | WBinary b \<Rightarrow> Some (parse_ack_payload (ws_from_slice lib) (ws_display lib) b, [])
           | WPing payload \<Rightarrow>
               (case timed_result ''websocket pong timed out'' ''failed to send websocket pong''
                   (ws_send_pong peer n) of
                  Err e \<Rightarrow> Some (Err e, [])
                | Ok _ \<Rightarrow>
                    Option.bind (read_ack lib peer (Suc n)) (\<lambda>x. Some (fst x, WPong payload # snd x)))
           | WPong _ \<Rightarrow> read_ack lib peer (Suc n)
           | WClose reason \<Rightarrow>
               Some (Err (Msg (case reason of
                   Some r \<Rightarrow> (if r \<noteq> [] then r else ''remote closed websocket before ack'')
                 | None \<Rightarrow> ''remote closed websocket before ack'')), [])
           | WFrame _ \<Rightarrow> read_ack lib peer (Suc n)))"

definition push_batch_with_ack ::
  "ws_lib \<Rightarrow> ws_peer \<Rightarrow> websocket_client \<Rightarrow> datetime \<Rightarrow> json list \<Rightarrow>
   ((websocket_ack, anyhow) result \<times> ws_message list) option" where
  "push_batch_with_ack lib peer c now records =
     (case context_err ''failed to serialize websocket batch''
         (map_err Msg (ws_to_vec lib (websocket_request_json lib now records))) of
        Err e \<Rightarrow> Some (Err e, [])
      | Ok payload \<Rightarrow>
          if \<not> length payload \<le> unat (max_message_bytes c)
          then Some (Err (Msg (''websocket batch payload is '' @ show_nat (length payload) @
            '' bytes, exceeding configured max '' @ show_nat (unat (max_message_bytes c)) @ '' bytes'')), [])
          else case and_then (build_request lib c) (\<lambda>_.
               and_then (websocket_config c) (\<lambda>_.
               timed_result ''websocket connect timed out'' ''failed to connect websocket endpoint''
                 (ws_connect peer))) of
            Err e \<Rightarrow> Some (Err e, [])
          | Ok _ \<Rightarrow>
              (case timed_result ''websocket send timed out'' ''failed to send websocket batch''
                  (ws_send_batch peer) of
                 Err e \<Rightarrow> Some (Err e, [])
               | Ok _ \<Rightarrow>
                   map_option (\<lambda>(ack, out).
                     (and_then ack (\<lambda>a.
                        and_then (validate_ack_record_count a (of_nat (length records))) (\<lambda>_. Ok a)),
                      [WBinary payload] @ out @ [WClose None])) (read_ack lib peer 0)))"

definition push_batch ::
  "ws_lib \<Rightarrow> ws_peer \<Rightarrow> websocket_client \<Rightarrow> datetime \<Rightarrow> json list \<Rightarrow>
   ((unit, anyhow) result \<times> ws_message list) option" where
  "push_batch lib peer c now records =
     map_option (\<lambda>(r, out). (and_then r (\<lambda>_. Ok ()), out)) (push_batch_with_ack lib peer c now records)"

section \<open>The wait for an acknowledgement\<close>

text \<open>
  The specification of the wait: it goes over pongs, raw frames and answered pings and ends at
  the first read that is anything else, whose verdict is the result; what it sends is one pong per
  ping read before that, in order. It is undefined when every read is skipped.
\<close>

definition ws_skips :: "ws_peer \<Rightarrow> nat \<Rightarrow> bool" where
  "ws_skips peer n =
     (case ws_next peer n of
        Done (Some (Ok f)) \<Rightarrow>
          (case f of
             WPing _ \<Rightarrow> ws_send_pong peer n = Done (Ok ())
           | WPong _ \<Rightarrow> True
           | WFrame _ \<Rightarrow> True
           | _ \<Rightarrow> False)
      | _ \<Rightarrow> False)"

definition ws_reply :: "ws_peer \<Rightarrow> nat \<Rightarrow> ws_message list" where
  "ws_reply peer n = (case ws_next peer n of Done (Some (Ok (WPing p))) \<Rightarrow> [WPong p] | _ \<Rightarrow> [])"

definition ws_verdict :: "ws_lib \<Rightarrow> ws_peer \<Rightarrow> nat \<Rightarrow> (websocket_ack, anyhow) result" where
  "ws_verdict lib peer n =
     (case ws_next peer n of
        Elapsed \<Rightarrow> Err (Ctx ''websocket ack timed out'' (Msg ''deadline has elapsed''))
      | Done None \<Rightarrow> Err (Msg ''websocket closed before ack'')
      | Done (Some (Err m)) \<Rightarrow> Err (Ctx ''failed to read websocket ack'' (Msg m))
      | Done (Some (Ok f)) \<Rightarrow>
          (case f of
             WText t \<Rightarrow> parse_ack_payload (ws_from_slice lib) (ws_display lib) t
           | WBinary t \<Rightarrow> parse_ack_payload (ws_from_slice lib) (ws_display lib) t
           | WClose (Some (c # cs)) \<Rightarrow> Err (Msg (c # cs))
           | WClose _ \<Rightarrow> Err (Msg ''remote closed websocket before ack'')
           | _ \<Rightarrow> Err (case ws_send_pong peer n of
                 Elapsed \<Rightarrow> Ctx ''websocket pong timed out'' (Msg ''deadline has elapsed'')
               | Done (Err m) \<Rightarrow> Ctx ''failed to send websocket pong'' (Msg m)
               | Done (Ok _) \<Rightarrow> Msg [])))"

lemmas ws_wait_splits =
  timed.splits option.splits result.splits ws_message.splits list.splits if_splits

lemma read_ack_skip:
  assumes "ws_skips peer n"
  shows "read_ack lib peer n =
    Option.bind (read_ack lib peer (Suc n)) (\<lambda>x. Some (fst x, ws_reply peer n @ snd x))"
  using assms
  by (auto simp: ws_skips_def ws_reply_def timed_result_def read_ack.simps [of lib peer n]
      split: timed.splits option.splits result.splits ws_message.splits)

lemma read_ack_stop:
  assumes "\<not> ws_skips peer n"
  shows "read_ack lib peer n = Some (ws_verdict lib peer n, [])"
  using assms
  by (auto simp: ws_skips_def ws_verdict_def timed_result_def read_ack.simps [of lib peer n]
      split: ws_wait_splits)

lemma read_ack_ends:
  assumes "\<And>i. n \<le> i \<Longrightarrow> i < k \<Longrightarrow> ws_skips peer i" and "\<not> ws_skips peer k" and "n \<le> k"
  shows "read_ack lib peer n = Some (ws_verdict lib peer k, concat (map (ws_reply peer) [n..<k]))"
  using assms
proof (induction "k - n" arbitrary: n)
  case 0
  then show ?case by (simp add: read_ack_stop)
next
  case (Suc d)
  have "read_ack lib peer (Suc n) =
      Some (ws_verdict lib peer k, concat (map (ws_reply peer) [Suc n..<k]))"
    using Suc.hyps(2) Suc.prems by (intro Suc.hyps(1)) auto
  moreover have "[n..<k] = n # [Suc n..<k]"
    using Suc.hyps(2) by (simp add: upt_conv_Cons)
  ultimately show ?case
    using Suc.hyps(2) Suc.prems by (simp add: read_ack_skip)
qed

lemma read_ack_Some:
  assumes "read_ack lib peer n = Some y"
  shows "\<exists>k \<ge> n. \<not> ws_skips peer k"
  using _ assms
proof (rule read_ack.raw_induct [where P = "\<lambda>lib peer n y. \<exists>k \<ge> n. \<not> ws_skips peer k"], goal_cases)
  case (1 f lib peer n y)
  show ?case
  proof (cases "ws_skips peer n")
    case True
    then obtain m where m: "ws_next peer n = Done (Some (Ok m))"
      by (auto simp: ws_skips_def split: timed.splits option.splits result.splits)
    have "\<exists>z. f lib peer (Suc n) = Some z"
      using 1(2) True
      by (cases m) (auto simp: m ws_skips_def timed_result_def bind_eq_Some_conv)
    then show ?thesis using 1(1) Suc_leD by blast
  qed auto
qed

text \<open>
  C24: the loop that waits for an acknowledgement computes its specification: with the first read
  that is not an answered ping, a pong or a raw frame it ends with the verdict on that read, having
  sent one pong per earlier ping, in order; and when there is no such read it never ends, although
  each single read is under the acknowledgement timeout.
\<close>

theorem read_ack_spec:
  "read_ack lib peer 0 =
     (if \<exists>k. \<not> ws_skips peer k
      then let k = LEAST k. \<not> ws_skips peer k
        in Some (ws_verdict lib peer k, concat (map (ws_reply peer) [0..<k]))
      else None)"
proof (cases "\<exists>k. \<not> ws_skips peer k")
  case True
  define k where "k = (LEAST k. \<not> ws_skips peer k)"
  have "\<not> ws_skips peer k" unfolding k_def using True by (metis LeastI)
  moreover have "ws_skips peer i" if "i < k" for i
    using not_less_Least that unfolding k_def by blast
  ultimately have "read_ack lib peer 0 =
      Some (ws_verdict lib peer k, concat (map (ws_reply peer) [0..<k]))"
    by (intro read_ack_ends) auto
  then show ?thesis using True by (simp only: if_True Let_def k_def)
next
  case False
  then show ?thesis using read_ack_Some [of lib peer 0] by (metis not_None_eq)
qed

section \<open>What counts as an acknowledgement\<close>

text \<open>
  A reply acknowledges a batch of \<open>n\<close> records when it is \<open>true\<close>, a success status, or an object
  that reports no failed record, whose first given verdict among \<open>accepted\<close>, \<open>ok\<close>, \<open>success\<close> and
  the status is positive, and whose record count, if given, is \<open>n\<close>.
\<close>

fun first_given :: "'a option list \<Rightarrow> 'a option" where
  "first_given [] = None"
| "first_given (Some x # xs) = Some x"
| "first_given (None # xs) = first_given xs"

definition envelope_acknowledges :: "ack_envelope \<Rightarrow> usize \<Rightarrow> bool" where
  "envelope_acknowledges e n \<longleftrightarrow>
     env_failed e \<in> {None, Some 0} \<and> env_failed_ids e = [] \<and>
     first_given [env_accepted e, env_ok e, env_success e, status_is_success (env_status e)] = Some True \<and>
     env_received e \<in> {None, Some n}"

definition acknowledges :: "json \<Rightarrow> usize \<Rightarrow> bool" where
  "acknowledges j n =
     (case j of
        JBool b \<Rightarrow> b
      | JString s \<Rightarrow> status_is_success (Some s) = Some True
      | JObject _ \<Rightarrow> (case ack_envelope_de j of Ok e \<Rightarrow> envelope_acknowledges e n | Err _ \<Rightarrow> False)
      | _ \<Rightarrow> False)"

lemma first_given_or_opt: "first_given [a, b, c, d] = or_opt (or_opt (or_opt a b) c) d"
  by (cases a; cases b; cases c; cases d) (simp_all add: or_opt_def)

lemma validate_count_ok_iff:
  "validate_ack_record_count ack n = Ok () \<longleftrightarrow> ack_received ack \<in> {None, Some n}"
  by (cases "ack_received ack") (simp_all add: validate_ack_record_count_def)

lemma ack_from_envelope_ok_iff:
  "(\<exists>ack. ack_from_envelope e = Ok ack \<and> validate_ack_record_count ack n = Ok ()) \<longleftrightarrow>
   envelope_acknowledges e n"
proof (cases "env_failed e \<in> {None, Some 0} \<and> env_failed_ids e = []")
  case True
  then have "\<not> ((case env_failed e of Some n \<Rightarrow> n | None \<Rightarrow> 0) > 0 \<or> env_failed_ids e \<noteq> [])" by auto
  then show ?thesis using True
    unfolding ack_from_envelope_def envelope_acknowledges_def Let_def first_given_or_opt
    by (cases "or_opt (or_opt (or_opt (env_accepted e) (env_ok e)) (env_success e))
        (status_is_success (env_status e))"; cases "env_received e")
      (auto simp: validate_count_ok_iff split: bool.splits)
next
  case False
  then have "(case env_failed e of Some n \<Rightarrow> n | None \<Rightarrow> 0) > 0 \<or> env_failed_ids e \<noteq> []"
    by (cases "env_failed e") (auto simp: word_neq_0_conv)
  then show ?thesis using False
    unfolding ack_from_envelope_def envelope_acknowledges_def by auto
qed

lemma ack_from_status_ok_iff:
  "(\<exists>ack. ack_from_status s None None = Ok ack \<and> validate_ack_record_count ack n = Ok ()) \<longleftrightarrow>
   status_is_success (Some s) = Some True"
  by (cases "status_is_success (Some s)")
    (auto simp: ack_from_status_def validate_count_ok_iff split: bool.splits)

lemma parse_ack_ok_iff:
  "(\<exists>ack. parse_ack_payload from_slice disp t = Ok ack \<and> validate_ack_record_count ack n = Ok ()) \<longleftrightarrow>
   (\<exists>j. from_slice t = Ok j \<and> acknowledges j n)"
proof (cases "from_slice t")
  case (Ok j)
  show ?thesis
  proof (cases j)
    case (JObject kvs)
    then show ?thesis using Ok ack_from_envelope_ok_iff
      by (cases "ack_envelope_de j") (auto simp: parse_ack_payload_def acknowledges_def)
  next
    case (JString s)
    then show ?thesis using Ok ack_from_status_ok_iff [of s n]
      by (simp add: parse_ack_payload_def acknowledges_def)
  qed (use Ok in \<open>auto simp: parse_ack_payload_def acknowledges_def validate_count_ok_iff\<close>)
qed (simp add: parse_ack_payload_def)

section \<open>Buffer sizes\<close>

lemma unat_max_word: "unat (max a b) = max (unat a) (unat b)" for a b :: usize
  by (simp add: max_def word_le_nat_alt)

lemma websocket_config_fits:
  assumes "unat (write_buffer_bytes c) + max (unat (max_message_bytes c)) 1 < 2 ^ 64"
  shows "\<exists>cfg. websocket_config c = Ok cfg \<and> write_buffer_size cfg = write_buffer_bytes c \<and>
    unat (max_write_buffer_size cfg) = unat (write_buffer_bytes c) + max (unat (max_message_bytes c)) 1 \<and>
    max_message_size cfg = Some (max_message_bytes c) \<and> max_frame_size cfg = Some (max_message_bytes c)"
proof -
  define w m where "w = write_buffer_bytes c" and "m = max (max_message_bytes c) 1"
  have m: "unat m = max (unat (max_message_bytes c)) 1" by (simp add: m_def unat_max_word)
  have "unat w + unat m < 2 ^ 64" using assms by (simp add: w_def m)
  moreover have "unat w + 1 \<le> unat w + unat m" by (simp add: m)
  ultimately have s: "unat (w + m) = unat w + unat m" "unat (w + 1) = unat w + 1"
      "checked_add w m = Some (w + m)" "saturating_add w 1 = w + 1"
    by (auto simp: unat_word_ariths checked_add_def saturating_add_def)
  then have "unat (max (w + m) (w + 1)) = unat w + unat m" by (simp add: unat_max_word m)
  then show ?thesis using s(3, 4) by (simp add: websocket_config_def Let_def m flip: w_def m_def)
qed

lemma websocket_config_ok_sum:
  assumes "websocket_config c = Ok cfg"
  shows "unat (write_buffer_bytes c) + max (unat (max_message_bytes c)) 1 < 2 ^ 64"
  using assms
  by (auto simp: websocket_config_def result_simps checked_add_def unat_max_word split: if_splits)

section \<open>The exchange of a batch\<close>

definition ws_reads_text :: "ws_peer \<Rightarrow> nat \<Rightarrow> string \<Rightarrow> bool" where
  "ws_reads_text peer k t \<longleftrightarrow>
     ws_next peer k \<in> {Done (Some (Ok (WText t))), Done (Some (Ok (WBinary t)))}"

lemma ws_verdict_ok_iff:
  assumes "\<not> ws_skips peer k"
  shows "ws_verdict lib peer k = Ok ack \<longleftrightarrow>
    (\<exists>t. ws_reads_text peer k t \<and>
      parse_ack_payload (ws_from_slice lib) (ws_display lib) t = Ok ack)"
  using assms by (auto simp: ws_skips_def ws_verdict_def ws_reads_text_def split: ws_wait_splits)

lemma ws_reads_text_not_skipped: "ws_reads_text peer k t \<Longrightarrow> \<not> ws_skips peer k"
  by (auto simp: ws_reads_text_def ws_skips_def)

lemma read_ack_ok_iff:
  "read_ack lib peer 0 = Some (Ok ack, out) \<longleftrightarrow>
   (\<exists>k t. (\<forall>i < k. ws_skips peer i) \<and> ws_reads_text peer k t \<and>
      parse_ack_payload (ws_from_slice lib) (ws_display lib) t = Ok ack \<and>
      out = concat (map (ws_reply peer) [0..<k]))" (is "?L \<longleftrightarrow> ?R")
proof
  assume ?L
  then have "\<exists>k. \<not> ws_skips peer k" using read_ack_Some by blast
  then obtain k where k: "\<not> ws_skips peer k" "\<forall>i < k. ws_skips peer i"
    using exists_least_iff [of "\<lambda>k. \<not> ws_skips peer k"] by blast
  then have "read_ack lib peer 0 = Some (ws_verdict lib peer k, concat (map (ws_reply peer) [0..<k]))"
    by (intro read_ack_ends) auto
  with \<open>?L\<close> have "ws_verdict lib peer k = Ok ack" "out = concat (map (ws_reply peer) [0..<k])" by auto
  then show ?R using k ws_verdict_ok_iff [OF k(1)] by blast
next
  assume ?R
  then obtain k t where k: "\<forall>i < k. ws_skips peer i" "ws_reads_text peer k t"
    "parse_ack_payload (ws_from_slice lib) (ws_display lib) t = Ok ack"
    "out = concat (map (ws_reply peer) [0..<k])" by blast
  then have "\<not> ws_skips peer k" by (simp add: ws_reads_text_not_skipped)
  moreover from this have "ws_verdict lib peer k = Ok ack" using k ws_verdict_ok_iff by blast
  ultimately show ?L using k(1, 4) read_ack_ends [of 0 k peer lib] by simp
qed

lemma timed_result_ok_iff: "timed_result t c r = Ok v \<longleftrightarrow> r = Done (Ok v)"
  by (cases r) (auto simp: timed_result_def result_simps)

lemma timed_result_done [simp]: "timed_result t c (Done (Ok v)) = Ok v"
  by (simp add: timed_result_def)

text \<open>
  C23: pushing a batch succeeds exactly when the serialised batch fits the configured message size,
  the request and the buffer sizes are valid, connecting and sending go through, and the first read
  that is not an answered ping, a pong or a raw frame acknowledges all the records of this batch;
  what went out is the batch, once, one pong per ping, and the closing frame.
\<close>

theorem push_batch_ok_iff:
  "push_batch lib peer c now records = Some (Ok (), out) \<longleftrightarrow>
   (\<exists>payload k t j.
      ws_to_vec lib (websocket_request_json lib now records) = Ok payload \<and>
      length payload \<le> unat (max_message_bytes c) \<and>
      is_ok (build_request lib c) \<and> is_ok (websocket_config c) \<and>
      ws_connect peer = Done (Ok ()) \<and> ws_send_batch peer = Done (Ok ()) \<and>
      (\<forall>i < k. ws_skips peer i) \<and> ws_reads_text peer k t \<and> ws_from_slice lib t = Ok j \<and>
      acknowledges j (of_nat (length records)) \<and>
      out = WBinary payload # concat (map (ws_reply peer) [0..<k]) @ [WClose None])"
  (is "?L \<longleftrightarrow> ?R")
proof -
  have "?L \<longleftrightarrow> (\<exists>ack. push_batch_with_ack lib peer c now records = Some (Ok ack, out))"
    by (auto simp: push_batch_def result_simps)
  also have "\<dots> \<longleftrightarrow> (\<exists>payload ack o'.
      ws_to_vec lib (websocket_request_json lib now records) = Ok payload \<and>
      length payload \<le> unat (max_message_bytes c) \<and>
      is_ok (build_request lib c) \<and> is_ok (websocket_config c) \<and>
      ws_connect peer = Done (Ok ()) \<and> ws_send_batch peer = Done (Ok ()) \<and>
      read_ack lib peer 0 = Some (Ok ack, o') \<and>
      validate_ack_record_count ack (of_nat (length records)) = Ok () \<and>
      out = WBinary payload # o' @ [WClose None])"
    by (auto simp: push_batch_with_ack_def result_simps timed_result_ok_iff
        split: result.splits if_splits)
  also have "\<dots> \<longleftrightarrow> ?R"
    unfolding read_ack_ok_iff using parse_ack_ok_iff by blast
  finally show ?thesis .
qed

text \<open>A peer that pings and then accepts, for the witness.\<close>

definition demo_ws_lib :: ws_lib where
  "demo_ws_lib =
     \<lparr>ws_into_request = (\<lambda>_. Ok ()), ws_parse_header = Ok, ws_to_vec = (\<lambda>_. Ok ''{}''),
      ws_from_slice = (\<lambda>_. Ok (JBool True)), ws_display = (\<lambda>_. []), ws_ser_time = show_int\<rparr>"

definition demo_ws_peer :: ws_peer where
  "demo_ws_peer =
     \<lparr>ws_connect = Done (Ok ()), ws_send_batch = Done (Ok ()),
      ws_next = (\<lambda>n. Done (Some (Ok (if n = 0 then WPing ''p'' else WText ''true'')))),
      ws_send_pong = (\<lambda>_. Done (Ok ()))\<rparr>"

theorem push_batch_ok_iff_witness:
  "push_batch demo_ws_lib demo_ws_peer (websocket_client_new ''wss://h/'') 7 [JNull] =
     Some (Ok (), [WBinary ''{}'', WPong ''p'', WClose None])"
proof -
  let ?c = "websocket_client_new ''wss://h/''"
  have 1: "ws_to_vec demo_ws_lib (websocket_request_json demo_ws_lib 7 [JNull]) = Ok ''{}''"
    "length ''{}'' \<le> unat (max_message_bytes ?c)" "is_ok (build_request demo_ws_lib ?c)"
    by (simp_all add: demo_ws_lib_def websocket_client_new_def DEFAULT_MAX_MESSAGE_BYTES_def
        build_request_def)
  have 2: "is_ok (websocket_config ?c)"
    using websocket_config_fits [of ?c]
    by (simp add: websocket_client_new_def DEFAULT_MAX_MESSAGE_BYTES_def
        DEFAULT_WRITE_BUFFER_BYTES_def is_ok_iff) blast
  have 3: "\<forall>i < Suc 0. ws_skips demo_ws_peer i" "ws_reads_text demo_ws_peer (Suc 0) ''true''"
    "ws_from_slice demo_ws_lib ''true'' = Ok (JBool True)" "ws_connect demo_ws_peer = Done (Ok ())"
    "ws_send_batch demo_ws_peer = Done (Ok ())"
    "concat (map (ws_reply demo_ws_peer) [0..<Suc 0]) = [WPong ''p'']"
    "acknowledges (JBool True) (of_nat (length [JNull]))"
    by (simp_all add: demo_ws_peer_def demo_ws_lib_def ws_skips_def ws_reads_text_def ws_reply_def
        acknowledges_def)
  show ?thesis
    unfolding push_batch_ok_iff
    by (rule exI [of _ "''{}''"], rule exI [of _ "Suc 0"], rule exI [of _ "''true''"],
        rule exI [of _ "JBool True"]) (use 1 2 3 in simp)
qed

text \<open>
  C34: the buffer sizes are accepted exactly when their sum fits a \<open>usize\<close>; they are then passed on
  unchanged, and the upper limit of the write buffer has room for one whole message beyond the
  flush threshold, so it is strictly above that threshold, as tungstenite requires of it.
\<close>

theorem websocket_config_bounds:
  "(is_ok (websocket_config c) \<longleftrightarrow>
     unat (write_buffer_bytes c) + max (unat (max_message_bytes c)) 1 < 2 ^ 64) \<and>
   (\<forall>cfg. websocket_config c = Ok cfg \<longrightarrow>
     write_buffer_size cfg = write_buffer_bytes c \<and>
     max_message_size cfg = Some (max_message_bytes c) \<and>
     max_frame_size cfg = Some (max_message_bytes c) \<and>
     unat (max_write_buffer_size cfg) =
       unat (write_buffer_size cfg) + max (unat (max_message_bytes c)) 1 \<and>
     write_buffer_size cfg < max_write_buffer_size cfg)"
proof (intro conjI allI impI)
  show "is_ok (websocket_config c) \<longleftrightarrow>
      unat (write_buffer_bytes c) + max (unat (max_message_bytes c)) 1 < 2 ^ 64"
    using websocket_config_fits [of c] websocket_config_ok_sum by (auto simp: is_ok_iff)
next
  fix cfg
  assume "websocket_config c = Ok cfg"
  then show "write_buffer_size cfg = write_buffer_bytes c"
      "max_message_size cfg = Some (max_message_bytes c)"
      "max_frame_size cfg = Some (max_message_bytes c)"
      "unat (max_write_buffer_size cfg) =
        unat (write_buffer_size cfg) + max (unat (max_message_bytes c)) 1"
      "write_buffer_size cfg < max_write_buffer_size cfg"
    using websocket_config_fits [OF websocket_config_ok_sum] by (auto simp: word_less_nat_alt)
qed

theorem websocket_config_bounds_witness:
  "\<not> is_ok (websocket_config (with_max_message_bytes 18446744073709551615 (websocket_client_new ''wss://h/''))) \<and>
   (\<exists>cfg. websocket_config (websocket_client_new ''wss://h/'') = Ok cfg \<and>
     write_buffer_size cfg < max_write_buffer_size cfg)"
proof -
  have "is_ok (websocket_config (websocket_client_new ''wss://h/''))"
    by (simp add: websocket_config_bounds websocket_client_new_def DEFAULT_MAX_MESSAGE_BYTES_def
        DEFAULT_WRITE_BUFFER_BYTES_def)
  moreover have "\<not> is_ok (websocket_config (with_max_message_bytes 18446744073709551615 (websocket_client_new ''wss://h/'')))"
    by (simp add: websocket_config_bounds websocket_client_new_def with_max_message_bytes_def
        DEFAULT_WRITE_BUFFER_BYTES_def)
  ultimately show ?thesis using websocket_config_bounds unfolding is_ok_iff by blast
qed

end
