(* ===== verification/Cycle_Steps.thy ===== *)
theory Cycle_Steps
  imports Local_Engine Sql_Server_Engine
begin

text \<open>
  The cycles of both engines as sequences of steps, one from each await of the code to the next: the
  fetch, every upload attempt with the sleep after it, and every statement of the write-back
  (\<open>SyncEngine::sync_once\<close>, \<open>SqlServerSyncEngine::sync_once\<close>, \<open>SqlServerSource::mark_uploaded\<close>,
  \<open>retry_transient\<close>). Between two steps other tasks may run and the process may end. Run without
  interruption the steps are \<open>sync_once\<close> and \<open>sqlserver_sync_once\<close>.
\<close>

section \<open>Running a step function\<close>

definition reaches :: "('a \<Rightarrow> 'a) \<Rightarrow> 'a \<Rightarrow> 'a \<Rightarrow> bool" where
  "reaches f x y \<longleftrightarrow> (\<exists>n. (f ^^ n) x = y)"

lemma reaches_refl [simp]: "reaches f x x"
  by (auto simp: reaches_def intro: exI [of _ 0])

lemma reaches_step: "reaches f (f x) y \<Longrightarrow> reaches f x y"
  unfolding reaches_def by (metis funpow_simps_right(2) o_apply)

lemma reaches_step_to: "f x = y \<Longrightarrow> reaches f y z \<Longrightarrow> reaches f x z"
  by (rule reaches_step) simp

lemma reaches_once: "f x = y \<Longrightarrow> reaches f x y"
  by (rule reaches_step) simp

lemma reaches_trans: "reaches f x y \<Longrightarrow> reaches f y z \<Longrightarrow> reaches f x z"
  unfolding reaches_def by (metis funpow_add o_apply)

text \<open>Two fixed points that are reached from the same state are the same.\<close>

lemma reaches_end_unique:
  assumes "reaches f x y" and "f y = y" and "reaches f x z" and "f z = z"
  shows "y = z"
proof -
  obtain m n where m: "(f ^^ m) x = y" and n: "(f ^^ n) x = z" using assms by (auto simp: reaches_def)
  have "(f ^^ k) y = y" "(f ^^ k) z = z" for k by (induction k) (simp_all add: assms)
  then have "(f ^^ (m + n)) x = y" "(f ^^ (m + n)) x = z"
    using m n by (metis add.commute funpow_add o_apply)+
  then show ?thesis by simp
qed

section \<open>One attempt of the retry loop\<close>

datatype 'a attempt = Returned "('a, anyhow) result" | Again duration

definition retry_attempt ::
  "('w \<Rightarrow> nat) \<Rightarrow> (duration \<Rightarrow> 'w \<Rightarrow> 'w) \<Rightarrow> ('w \<Rightarrow> ('a, upload_error) result \<times> 'w) \<Rightarrow>
   (anyhow \<Rightarrow> duration \<Rightarrow> 'w \<Rightarrow> 'w) \<Rightarrow> nat \<Rightarrow> duration \<Rightarrow> duration \<Rightarrow> duration \<Rightarrow> 'w \<Rightarrow>
   'a attempt \<times> 'w" where
  "retry_attempt now pause operation notify started_at max_delay max_elapsed delay w =
     (case operation w of
        (Ok v, w1) \<Rightarrow> (Returned (Ok v), w1)
      | (Err (Permanent e), w1) \<Rightarrow> (Returned (Err e), w1)
      | (Err (Transient e), w1) \<Rightarrow>
          (let elapsed = now w1 - started_at
           in if elapsed \<ge> max_elapsed then (Returned (Err e), w1)
              else let sleep_for = min delay (max_elapsed - elapsed)
                in (Again (next_delay max_delay delay), pause sleep_for (notify e sleep_for w1))))"

definition first_delay :: "sync_config \<Rightarrow> duration" where
  "first_delay c = max (retry_initial_delay c) MIN_RETRY_DELAY"

definition delay_cap :: "sync_config \<Rightarrow> duration" where
  "delay_cap c = max (retry_max_delay c) (first_delay c)"

section \<open>The local engine\<close>

datatype local_phase =
    L_Fetch
  | L_Upload "weighing_record list" nat duration
  | L_Mark_synced "weighing_record list" batch_upload_response
  | L_Mark_rejected "weighing_record list" batch_upload_response
  | L_Mark_failed "weighing_record list" anyhow
  | L_Done "(sync_outcome, anyhow) result"

fun local_step ::
  "'m local_libs \<Rightarrow> sync_engine \<Rightarrow> local_phase \<times> sqlite world \<Rightarrow> local_phase \<times> sqlite world" where
  "local_step L e (L_Fetch, w) =
     (case on_source (fetch_pending (lib_codec L) (lib_order L) (batch_size (engine_sync e))) w of
        (Err x, w1) \<Rightarrow> (L_Done (Err x), w1)
      | (Ok records, w1) \<Rightarrow>
          if records = [] then (L_Done (Ok outcome_no_data), w1)
          else (L_Upload records (clock w1) (first_delay (engine_sync e)), w1))"
| "local_step L e (L_Upload records started_at delay, w) =
     (case retry_attempt clock sleep (upload_batch L e records) log_retry started_at
         (delay_cap (engine_sync e)) (retry_max_elapsed (engine_sync e)) delay w of
        (Returned (Ok response), w1) \<Rightarrow> (L_Mark_synced records response, w1)
      | (Returned (Err error), w1) \<Rightarrow> (L_Mark_failed records error, w1)
      | (Again d, w1) \<Rightarrow> (L_Upload records started_at d, w1))"
| "local_step L e (L_Mark_synced records response, w) =
     (let acc = (if accepted_ids response = [] \<and> failed_ids response = []
            then map rec_id records else accepted_ids response)
      in case (if acc \<noteq> [] then on_source (mark_synced (lib_codec L) (utc_now w) acc) w else (Ok (), w)) of
           (Err x, w1) \<Rightarrow> (L_Done (Err x), w1)
         | (Ok _, w1) \<Rightarrow> (L_Mark_rejected records response, w1))"
| "local_step L e (L_Mark_rejected records response, w) =
     (let acc = (if accepted_ids response = [] \<and> failed_ids response = []
            then map rec_id records else accepted_ids response)
      in case (if failed_ids response \<noteq> []
            then on_source (mark_failed (lib_codec L) (utc_now w) (failed_ids response)
              ''remote endpoint rejected record'') w
            else (Ok (), w)) of
           (Err x, w1) \<Rightarrow> (L_Done (Err x), w1)
         | (Ok _, w1) \<Rightarrow>
             (L_Done (Ok \<lparr>fetched = of_nat (length records), synced = of_nat (length acc),
                failed = of_nat (length (failed_ids response)), marked_uploaded = None,
                no_data = False\<rparr>), w1))"
| "local_step L e (L_Mark_failed records error, w) =
     (case on_source (mark_failed (lib_codec L) (utc_now w) (map rec_id records) (display error)) w of
        (Err x, w1) \<Rightarrow> (L_Done (Err x), w1)
      | (Ok _, w1) \<Rightarrow>
          (L_Done (Err (Ctx ''batch upload failed (permanent error or retry budget exhausted)''
             error)), w1))"
| "local_step L e (L_Done x, w) = (L_Done x, w)"

section \<open>The SQL Server engine\<close>

text \<open>The serial numbers to mark, then the chunks still to be marked, with the outcome to report.\<close>

datatype sql_phase =
    S_Fetch
  | S_Upload "sqlserver_weight_record list" nat duration
  | S_Connect "string list" sync_outcome
  | S_Mark "string list list" sync_outcome
  | S_Done "(sync_outcome, anyhow) result"

fun sql_step ::
  "sql_libs \<Rightarrow> sqlserver_engine \<Rightarrow> sql_phase \<times> sql_server world \<Rightarrow> sql_phase \<times> sql_server world" where
  "sql_step L e (S_Fetch, w) =
     (case on_source (source_fetch_pending (sq_env L) (sq_source e) (batch_size (sq_sync e))) w of
        (Err x, w1) \<Rightarrow> (S_Done (Err x), w1)
      | (Ok records, w1) \<Rightarrow>
          if records = [] then (S_Done (Ok outcome_no_data), w1)
          else (S_Upload records (clock w1) (first_delay (sq_sync e)), w1))"
| "sql_step L e (S_Upload records started_at delay, w) =
     (case retry_attempt clock sleep (sqlserver_upload_batch L e (map sw_data records)) log_retry
         started_at (delay_cap (sq_sync e)) (retry_max_elapsed (sq_sync e)) delay w of
        (Returned (Ok response), w1) \<Rightarrow>
          let serial_nos = map sw_serial_no records;
              acc = (if accepted_serial_nos response = [] \<and> failed_serial_nos response = []
                then serial_nos else accepted_serial_nos response);
              out = \<lparr>fetched = of_nat (length serial_nos), synced = of_nat (length acc),
                failed = of_nat (length (failed_serial_nos response)),
                marked_uploaded = Some (mark_uploaded_enabled (sq_source e)), no_data = False\<rparr>
          in if acc = [] \<or> \<not> mark_uploaded_flag (src_cfg (sq_source e)) then (S_Done (Ok out), w1)
             else (S_Connect acc out, w1)
      | (Returned (Err error), w1) \<Rightarrow>
          (S_Done (Err (Ctx ''SQL Server upload failed (permanent error or retry budget exhausted)''
             error)), w1)
      | (Again d, w1) \<Rightarrow> (S_Upload records started_at d, w1))"
| "sql_step L e (S_Connect acc out, w) =
     (case on_source (tds_connect (sq_env L) (sq_source e)) w of
        (Err x, w1) \<Rightarrow> (S_Done (Err x), w1)
      | (Ok _, w1) \<Rightarrow> (S_Mark (chunks MARK_UPLOAD_CHUNK_SIZE acc) out, w1))"
| "sql_step L e (S_Mark [] out, w) = (S_Done (Ok out), w)"
| "sql_step L e (S_Mark (chunk # rest) out, w) =
     (case on_source (execute_mark (sq_env L)
         (mark_sql (table_ident (src_cfg (sq_source e))) (length chunk)) chunk) w of
        (Err x, w1) \<Rightarrow>
          (S_Done (Err (Ctx (''failed to mark '' @ show_nat (length chunk) @
             '' SQL Server rows as uploaded'') x)), w1)
      | (Ok _, w1) \<Rightarrow> (S_Mark rest out, w1))"
| "sql_step L e (S_Done x, w) = (S_Done x, w)"

section \<open>Uninterrupted steps are a cycle\<close>

lemma first_delay_pos: "0 < first_delay c" "0 < delay_cap c"
  by (simp_all add: first_delay_def delay_cap_def MIN_RETRY_DELAY_eq less_max_iff_disj)

text \<open>
  A step function whose state \<open>up d\<close> makes one attempt with the delay \<open>d\<close> runs through the whole
  retry loop and leaves it by \<open>ret\<close>.
\<close>

lemma retry_steps:
  assumes step: "\<And>d w. f (up d, w) = (case retry_attempt now pause op notify s md me d w of
      (Returned r, w1) \<Rightarrow> (ret r, w1) | (Again d1, w1) \<Rightarrow> (up d1, w1))"
    and exec: "retry_exec now pause op notify s md me d w ds r w'"
  shows "reaches f (up d, w) (ret r, w')"
  using exec
proof (induction rule: retry_exec.induct)
  case (again w e w1 t delay ds r w2)
  have "f (up delay, w) = (up (next_delay md delay), pause t (notify e t w1))"
    using again.hyps(1-3) by (simp add: step retry_attempt_def Let_def)
  from this again.IH show ?case by (rule reaches_step_to)
qed (rule reaches_step, simp add: step retry_attempt_def Let_def)+

text \<open>What follows the answer of the endpoint, as the phase it leads to.\<close>

definition local_answer :: "weighing_record list \<Rightarrow> (batch_upload_response, anyhow) result \<Rightarrow> local_phase" where
  "local_answer records r =
     (case r of Ok response \<Rightarrow> L_Mark_synced records response | Err x \<Rightarrow> L_Mark_failed records x)"

definition sql_answer ::
  "sqlserver_engine \<Rightarrow> sqlserver_weight_record list \<Rightarrow> (sqlserver_upload_response, anyhow) result \<Rightarrow>
   sql_phase" where
  "sql_answer e records r =
     (case r of
        Ok response \<Rightarrow>
          let serials = map sw_serial_no records; acc = accepted_serials serials response;
              out = sqlserver_outcome (sq_source e) serials response
          in if acc = [] \<or> \<not> mark_uploaded_enabled (sq_source e) then S_Done (Ok out)
             else S_Connect acc out
      | Err error \<Rightarrow>
          S_Done (Err (Ctx ''SQL Server upload failed (permanent error or retry budget exhausted)''
            error)))"

lemma local_upload_step:
  "local_step L e (L_Upload rs s d, w) =
     (case retry_attempt clock sleep (upload_batch L e rs) log_retry s (delay_cap (engine_sync e))
         (retry_max_elapsed (engine_sync e)) d w of
        (Returned r, w1) \<Rightarrow> (local_answer rs r, w1) | (Again d1, w1) \<Rightarrow> (L_Upload rs s d1, w1))"
  by (auto simp: local_answer_def split: attempt.splits result.splits prod.splits)

lemma sql_upload_step:
  "sql_step L e (S_Upload rs s d, w) =
     (case retry_attempt clock sleep (sqlserver_upload_batch L e (map sw_data rs)) log_retry s
         (delay_cap (sq_sync e)) (retry_max_elapsed (sq_sync e)) d w of
        (Returned r, w1) \<Rightarrow> (sql_answer e rs r, w1) | (Again d1, w1) \<Rightarrow> (S_Upload rs s d1, w1))"
  by (simp add: sql_answer_def Let_def accepted_serials_def sqlserver_outcome_def
      mark_uploaded_enabled_def split: attempt.splits result.splits prod.splits)

lemma local_upload_steps:
  assumes "retry_transient clock sleep (retry_initial_delay (engine_sync e))
      (retry_max_delay (engine_sync e)) (retry_max_elapsed (engine_sync e))
      (upload_batch L e rs) log_retry w = Some (r, w')"
  shows "reaches (local_step L e) (L_Upload rs (clock w) (first_delay (engine_sync e)), w)
    (local_answer rs r, w')"
  using assms batch_upload.retrying.transient_iff_exec
    retry_steps [where f = "local_step L e" and up = "L_Upload rs (clock w)" and ret = "local_answer rs",
      OF local_upload_step]
  unfolding first_delay_def delay_cap_def by blast

lemma sql_upload_steps:
  assumes "retry_transient clock sleep (retry_initial_delay (sq_sync e))
      (retry_max_delay (sq_sync e)) (retry_max_elapsed (sq_sync e))
      (sqlserver_upload_batch L e (map sw_data rs)) log_retry w = Some (r, w')"
  shows "reaches (sql_step L e) (S_Upload rs (clock w) (first_delay (sq_sync e)), w) (sql_answer e rs r, w')"
  using assms row_upload.retrying.transient_iff_exec
    retry_steps [where f = "sql_step L e" and up = "S_Upload rs (clock w)" and ret = "sql_answer e rs",
      OF sql_upload_step]
  unfolding first_delay_def delay_cap_def by blast

lemma local_write_back_steps:
  assumes "write_back L rs response w = (x, w')"
  shows "reaches (local_step L e) (L_Mark_synced rs response, w) (L_Done x, w')"
proof -
  let ?acc = "accepted_of rs response"
  obtain x1 w1 where 1: "(if ?acc \<noteq> [] then on_source (mark_synced (lib_codec L) (utc_now w) ?acc) w
      else (Ok (), w)) = (x1, w1)" by (metis surj_pair)
  obtain x2 w2 where 2: "(if failed_ids response \<noteq> [] then on_source (mark_failed (lib_codec L)
      (utc_now w1) (failed_ids response) ''remote endpoint rejected record'') w1 else (Ok (), w1))
      = (x2, w2)" by (metis surj_pair)
  have "(x, w') = (case x1 of Err y \<Rightarrow> (Err y, w1) | Ok _ \<Rightarrow>
        (case x2 of Err y \<Rightarrow> (Err y, w2) | Ok _ \<Rightarrow> (Ok (outcome_of rs response), w2)))"
    unfolding assms [symmetric] write_back_def accepted_of_def [symmetric] Let_def 1
    by (cases x1; cases x2) (simp_all add: 2 outcome_of_def)
  moreover have "local_step L e (L_Mark_synced rs response, w) =
      (case x1 of Err y \<Rightarrow> L_Done (Err y) | Ok _ \<Rightarrow> L_Mark_rejected rs response, w1)"
    unfolding local_step.simps accepted_of_def [symmetric] Let_def 1 by (cases x1) simp_all
  moreover have "local_step L e (L_Mark_rejected rs response, w1) =
      (case x2 of Err y \<Rightarrow> L_Done (Err y) | Ok _ \<Rightarrow> L_Done (Ok (outcome_of rs response)), w2)"
    unfolding local_step.simps accepted_of_def [symmetric] Let_def 2
    by (cases x2) (simp_all add: outcome_of_def)
  ultimately show ?thesis
    by (cases x1; cases x2)
      (auto simp del: local_step.simps intro: reaches_once reaches_step_to [OF _ reaches_once])
qed

lemma local_failed_steps:
  assumes "try_then (on_source (mark_failed (lib_codec L) (utc_now w) (map rec_id rs) (display error)) w)
      (\<lambda>_ w3. (Err (Ctx ''batch upload failed (permanent error or retry budget exhausted)'' error), w3))
    = (x, w')"
  shows "reaches (local_step L e) (L_Mark_failed rs error, w) (L_Done x, w')"
proof -
  obtain x1 w1 where "on_source (mark_failed (lib_codec L) (utc_now w) (map rec_id rs)
      (display error)) w = (x1, w1)" by (metis surj_pair)
  with assms show ?thesis by (cases x1) (simp_all add: reaches_once)
qed

lemma sync_once_steps:
  assumes "sync_once L e w = Some (x, w')"
  shows "reaches (local_step L e) (L_Fetch, w) (L_Done x, w')"
proof -
  obtain y w1 where f: "on_source (fetch_pending (lib_codec L) (lib_order L)
      (batch_size (engine_sync e))) w = (y, w1)" by (metis surj_pair)
  show ?thesis
  proof (cases "\<exists>rs. y = Ok rs \<and> rs \<noteq> []")
    case False
    then have "local_step L e (L_Fetch, w) = (L_Done x, w')"
      using assms f by (cases y) (auto simp: sync_once_def)
    then show ?thesis by (rule reaches_step_to) simp
  next
    case True
    then obtain rs where rs: "y = Ok rs" "rs \<noteq> []" by blast
    obtain z w2 where r: "retry_transient clock sleep (retry_initial_delay (engine_sync e))
        (retry_max_delay (engine_sync e)) (retry_max_elapsed (engine_sync e))
        (upload_batch L e rs) log_retry w1 = Some (z, w2)"
      using batch_upload.retry_returns by blast
    have "local_step L e (L_Fetch, w) = (L_Upload rs (clock w1) (first_delay (engine_sync e)), w1)"
      using f rs by simp
    moreover have "reaches (local_step L e) (local_answer rs z, w2) (L_Done x, w')"
    proof (cases z)
      case (Ok response)
      have "write_back L rs response w2 = (x, w')"
        using assms f rs r Ok by (simp add: sync_once_def)
      then show ?thesis using local_write_back_steps Ok by (simp add: local_answer_def)
    next
      case (Err error)
      show ?thesis
        unfolding local_answer_def Err result.case
        by (rule local_failed_steps) (use assms f rs r Err in \<open>simp add: sync_once_def\<close>)
    qed
    ultimately show ?thesis
      using reaches_trans [OF local_upload_steps [OF r]] reaches_step_to by metis
  qed
qed

lemma sync_once_iff_steps:
  "sync_once L e w = Some (x, w') \<longleftrightarrow> reaches (local_step L e) (L_Fetch, w) (L_Done x, w')"
proof
  assume r: "reaches (local_step L e) (L_Fetch, w) (L_Done x, w')"
  obtain x1 w1 where s: "sync_once L e w = Some (x1, w1)" using sync_once_returns by blast
  from reaches_end_unique [OF sync_once_steps [OF s] _ r] show "sync_once L e w = Some (x, w')"
    using s by simp
qed (rule sync_once_steps)

lemma mark_chunks_steps:
  assumes "mark_chunks (sq_env L) (table_ident (src_cfg (sq_source e))) cs (source_of w) = (y, s)"
  shows "reaches (sql_step L e) (S_Mark cs out, w)
    (S_Done (case y of Ok _ \<Rightarrow> Ok out | Err z \<Rightarrow> Err z), w\<lparr>source_of := s\<rparr>)"
  using assms
proof (induction cs arbitrary: w)
  case Nil
  then show ?case by (intro reaches_once) auto
next
  case (Cons c cs)
  obtain x1 s1 where e: "execute_mark (sq_env L) (mark_sql (table_ident (src_cfg (sq_source e)))
      (length c)) c (source_of w) = (x1, s1)" by (metis surj_pair)
  show ?case
  proof (cases x1)
    case (Err z)
    then show ?thesis using Cons.prems e by (intro reaches_once) (auto simp: on_source_def)
  next
    case (Ok v)
    have "reaches (sql_step L e) (S_Mark cs out, w\<lparr>source_of := s1\<rparr>)
      (S_Done (case y of Ok _ \<Rightarrow> Ok out | Err z \<Rightarrow> Err z), w\<lparr>source_of := s\<rparr>)"
      using Cons.IH [of "w\<lparr>source_of := s1\<rparr>"] Cons.prems e Ok by simp
    then show ?thesis by (rule reaches_step_to [rotated]) (simp add: e Ok on_source_def)
  qed
qed

lemma sql_report_steps:
  assumes "mark_and_report L e (map sw_serial_no rs) response w = (x, w')"
  shows "reaches (sql_step L e) (sql_answer e rs (Ok response), w) (S_Done x, w')"
proof -
  let ?acc = "accepted_serials (map sw_serial_no rs) response"
  let ?out = "sqlserver_outcome (sq_source e) (map sw_serial_no rs) response"
  obtain y s where m: "source_mark_uploaded (sq_env L) (sq_source e) ?acc (source_of w) = (y, s)"
    by (metis surj_pair)
  have x: "x = (case y of Ok _ \<Rightarrow> Ok ?out | Err z \<Rightarrow> Err z)" "w' = w\<lparr>source_of := s\<rparr>"
    using assms m by (cases y; simp add: mark_and_report_def on_source_def)+
  show ?thesis
  proof (cases "?acc = [] \<or> \<not> mark_uploaded_enabled (sq_source e)")
    case True
    then show ?thesis
      using m x by (auto simp: sql_answer_def Let_def source_mark_uploaded_def mark_uploaded_enabled_def)
  next
    case False
    obtain x1 s1 where c: "tds_connect (sq_env L) (sq_source e) (source_of w) = (x1, s1)"
      by (metis surj_pair)
    have a: "sql_answer e rs (Ok response) = S_Connect ?acc ?out"
      using False by (simp add: sql_answer_def Let_def)
    show ?thesis
    proof (cases x1)
      case (Err z)
      then have "y = Err z" "s = s1"
        using c m False by (auto simp: source_mark_uploaded_def mark_uploaded_enabled_def)
      then show ?thesis using Err a c x by (intro reaches_once) (simp add: on_source_def)
    next
      case (Ok v)
      have "mark_chunks (sq_env L) (table_ident (src_cfg (sq_source e)))
          (chunks MARK_UPLOAD_CHUNK_SIZE ?acc) (source_of (w\<lparr>source_of := s1\<rparr>)) = (y, s)"
        using Ok c m False by (simp add: source_mark_uploaded_def mark_uploaded_enabled_def)
      from mark_chunks_steps [OF this, where out = ?out]
      have "reaches (sql_step L e) (S_Mark (chunks MARK_UPLOAD_CHUNK_SIZE ?acc) ?out, w\<lparr>source_of := s1\<rparr>)
          (S_Done x, w')" by (simp add: x)
      then show ?thesis
        unfolding a by (rule reaches_step_to [rotated]) (simp add: Ok c on_source_def)
    qed
  qed
qed

lemma sqlserver_sync_once_steps:
  assumes "sqlserver_sync_once L e w = Some (x, w')"
  shows "reaches (sql_step L e) (S_Fetch, w) (S_Done x, w')"
proof -
  obtain y w1 where f: "on_source (source_fetch_pending (sq_env L) (sq_source e)
      (batch_size (sq_sync e))) w = (y, w1)" by (metis surj_pair)
  show ?thesis
  proof (cases "\<exists>rs. y = Ok rs \<and> rs \<noteq> []")
    case False
    then have "sql_step L e (S_Fetch, w) = (S_Done x, w')"
      using assms f sync_once_idle [of L e w] by (cases y) auto
    then show ?thesis by (rule reaches_step_to) simp
  next
    case True
    then obtain rs where rs: "y = Ok rs" "rs \<noteq> []" by blast
    note f' = f [unfolded rs(1)]
    obtain z w2 where r: "retry_transient clock sleep (retry_initial_delay (sq_sync e))
        (retry_max_delay (sq_sync e)) (retry_max_elapsed (sq_sync e))
        (sqlserver_upload_batch L e (map sw_data rs)) log_retry w1 = Some (z, w2)"
      using row_upload.retry_returns by blast
    have "sql_step L e (S_Fetch, w) = (S_Upload rs (clock w1) (first_delay (sq_sync e)), w1)"
      using f rs by simp
    moreover have "reaches (sql_step L e) (sql_answer e rs z, w2) (S_Done x, w')"
    proof (cases z)
      case (Ok response)
      then show ?thesis
        using sql_report_steps [of L e rs response w2 x w'] sync_once_answered [OF f' rs(2)] r assms by simp
    next
      case (Err error)
      then show ?thesis
        using sync_once_not_answered [OF f' rs(2)] r assms by (simp add: sql_answer_def)
    qed
    ultimately show ?thesis
      using reaches_trans [OF sql_upload_steps [OF r]] reaches_step_to by metis
  qed
qed

lemma sqlserver_sync_once_iff_steps:
  "sqlserver_sync_once L e w = Some (x, w') \<longleftrightarrow> reaches (sql_step L e) (S_Fetch, w) (S_Done x, w')"
proof
  assume r: "reaches (sql_step L e) (S_Fetch, w) (S_Done x, w')"
  obtain x1 w1 where s: "sqlserver_sync_once L e w = Some (x1, w1)"
    using sqlserver_sync_once_returns_aux by blast
  from reaches_end_unique [OF sqlserver_sync_once_steps [OF s] _ r]
  show "sqlserver_sync_once L e w = Some (x, w')" using s by simp
qed (rule sqlserver_sync_once_steps)

end
