(* ===== verification/Cycle_Safety.thy ===== *)
theory Cycle_Safety
  imports Cycle_Steps
begin

text \<open>
  What every single step of a cycle does to the stores, whatever other tasks do between the steps:
  no weighing is lost, a record becomes synced only when a request that was sent names it as
  accepted in its answer, and a row of the table is flagged only when its serial number was
  acknowledged. The contract \<open>cycle_task\<close> holds for the steps of both engines.
\<close>

section \<open>Acknowledgements\<close>

text \<open>The requests of the two engines, as \<open>upload_batch\<close> builds them.\<close>

definition batch_request ::
  "'m local_libs \<Rightarrow> sync_engine \<Rightarrow> weighing_record list \<Rightarrow> datetime \<Rightarrow> (http_request, anyhow) result" where
  "batch_request L e records now =
     build_payload_request (lib_http L) ''failed to serialize upload payload''
       ''failed to gzip upload payload'' ''failed to finalize gzip payload''
       (case api_api_key (engine_api e) of
          Some api_key \<Rightarrow> bearer_auth api_key (http_post (endpoint (engine_api e)))
        | None \<Rightarrow> http_post (endpoint (engine_api e)))
       (batch_request_json (lib_codec L) (lib_http L)
          \<lparr>bu_source = ''weighing-data-sync'', bu_uploaded_at = now,
           bu_records = map (upload_record_from (lib_uom L)) records\<rparr>)"

definition rows_request ::
  "sql_libs \<Rightarrow> sqlserver_engine \<Rightarrow> json_map list \<Rightarrow> datetime \<Rightarrow> (http_request, anyhow) result" where
  "rows_request L e records now =
     build_payload_request (sq_http L) ''failed to serialize SQL Server upload payload''
       ''failed to gzip SQL Server upload payload'' ''failed to finalize SQL Server gzip payload''
       (case api_api_key (sq_api e) of
          Some api_key \<Rightarrow> bearer_auth api_key (http_post (endpoint (sq_api e)))
        | None \<Rightarrow> http_post (endpoint (sq_api e)))
       (sqlserver_request_json (sq_http L)
          \<lparr>su_source = ''sqlserver-yunfu-tbl_weightInfo'', su_database = database_name (sq_source e),
           su_table = table_name (sq_source e), su_uploaded_at = now, su_records = records\<rparr>)"

text \<open>The request was sent at some time up to now and was answered with the response.\<close>

definition was_answered :: "'s world \<Rightarrow> http_request \<Rightarrow> http_response \<Rightarrow> bool" where
  "was_answered w rq rp \<longleftrightarrow>
     (\<exists>n < length (sent w). sent w ! n = rq \<and> remote w (take (Suc n) (sent w)) = Ok rp)"

text \<open>
  The endpoint acknowledged the record: an upload of a batch was answered with success, and the
  answer names the record as accepted, or names none and the record is one of the batch.
\<close>

definition acked :: "'m local_libs \<Rightarrow> 's world \<Rightarrow> uuid \<Rightarrow> bool" where
  "acked L w u \<longleftrightarrow>
     (\<exists>e rs now rq rp response. batch_request L e rs now = Ok rq \<and> was_answered w rq rp \<and>
        read_reply L rs rp = Ok response \<and> u \<in> set (accepted_of rs response))"

text \<open>The same for a serial number, by an engine that writes back.\<close>

definition acked_serial :: "sql_libs \<Rightarrow> 's world \<Rightarrow> string \<Rightarrow> bool" where
  "acked_serial L w s \<longleftrightarrow>
     (\<exists>e (rs :: sqlserver_weight_record list) now rq rp response.
        rows_request L e (map sw_data rs) now = Ok rq \<and> was_answered w rq rp \<and>
        sqlserver_read_reply (sq_http L) rp = Ok response \<and> mark_uploaded_enabled (sq_source e) \<and>
        (\<exists>a \<in> set (accepted_serials (map sw_serial_no rs) response). coll_eq (sq_env L) s a))"

lemma was_answered_mono:
  assumes "same_env w w'" and "was_answered w rq rp"
  shows "was_answered w' rq rp"
proof -
  obtain rqs where s: "sent w' = sent w @ rqs" and r: "remote w' = remote w"
    using assms(1) by (auto simp: same_env_def)
  obtain n where n: "n < length (sent w)" "sent w ! n = rq" "remote w (take (Suc n) (sent w)) = Ok rp"
    using assms(2) by (auto simp: was_answered_def)
  then show ?thesis
    unfolding was_answered_def s r by (intro exI [of _ n]) (simp add: nth_append)
qed

lemma acked_mono: "same_env w w' \<Longrightarrow> acked L w u \<Longrightarrow> acked L w' u"
  unfolding acked_def using was_answered_mono by blast

lemma acked_serial_mono: "same_env w w' \<Longrightarrow> acked_serial L w s \<Longrightarrow> acked_serial L w' s"
  unfolding acked_serial_def using was_answered_mono by blast

lemma http_send_answered: "http_send rq w = (Ok rp, w') \<Longrightarrow> was_answered w' rq rp"
  by (auto simp: http_send_def was_answered_def Let_def split: result.splits)

text \<open>An upload sends its request and reads the reply.\<close>

lemma upload_batch_request:
  "upload_batch L e rs w =
     (case batch_request L e rs (utc_now w) of
        Err x \<Rightarrow> (Err (Permanent x), w)
      | Ok rq \<Rightarrow>
          (case http_send rq w of
             (Err m, w1) \<Rightarrow> (Err (Transient (Ctx ''failed to send upload request'' (Msg m))), w1)
           | (Ok response, w1) \<Rightarrow> (read_reply L rs response, w1)))"
  unfolding upload_batch_def batch_request_def Let_def ..

lemma sqlserver_upload_batch_request:
  "sqlserver_upload_batch L e rs w =
     (case rows_request L e rs (utc_now w) of
        Err x \<Rightarrow> (Err (Permanent x), w)
      | Ok rq \<Rightarrow>
          (case http_send rq w of
             (Err m, w1) \<Rightarrow> (Err (Transient (Ctx ''failed to send SQL Server upload request'' (Msg m))), w1)
           | (Ok response, w1) \<Rightarrow> (sqlserver_read_reply (sq_http L) response, w1)))"
  unfolding sqlserver_upload_batch_eq rows_request_def Let_def ..

lemma upload_batch_acks:
  assumes "upload_batch L e rs w = (Ok response, w')" and "u \<in> set (accepted_of rs response)"
  shows "acked L w' u"
proof -
  obtain rq rp where "batch_request L e rs (utc_now w) = Ok rq" "http_send rq w = (Ok rp, w')"
    "read_reply L rs rp = Ok response"
    using assms(1) unfolding upload_batch_request by (auto split: result.splits prod.splits)
  then show ?thesis using http_send_answered assms(2) unfolding acked_def by blast
qed

lemma sqlserver_upload_batch_acks:
  fixes rs :: "sqlserver_weight_record list"
  assumes "sqlserver_upload_batch L e (map sw_data rs) w = (Ok response, w')"
    and "mark_uploaded_enabled (sq_source e)"
    and "a \<in> set (accepted_serials (map sw_serial_no rs) response)" and "coll_eq (sq_env L) s a"
  shows "acked_serial L w' s"
proof -
  obtain rq rp where "rows_request L e (map sw_data rs) (utc_now w) = Ok rq" "http_send rq w = (Ok rp, w')"
    "sqlserver_read_reply (sq_http L) rp = Ok response"
    using assms(1) unfolding sqlserver_upload_batch_request by (auto split: result.splits prod.splits)
  then show ?thesis using http_send_answered assms(2-4) unfolding acked_serial_def by blast
qed

section \<open>How the stores may change\<close>

definition cache_grows ::
  "(uuid \<Rightarrow> bool) \<Rightarrow> (uuid \<Rightarrow> weighing_record option) \<Rightarrow> (uuid \<Rightarrow> weighing_record option) \<Rightarrow> bool" where
  "cache_grows ack M M' \<longleftrightarrow>
     (\<forall>u r. M u = Some r \<longrightarrow> (\<exists>r'. M' u = Some r' \<and> cycle_mark\<^sup>*\<^sup>* r r')) \<and>
     (\<forall>u r'. M' u = Some r' \<and> rec_status r' = Synced \<longrightarrow>
       ack u \<or> (\<exists>r. M u = Some r \<and> rec_status r = Synced))"

definition rows_grow :: "(string \<Rightarrow> bool) \<Rightarrow> weight_info list \<Rightarrow> weight_info list \<Rightarrow> bool" where
  "rows_grow ack rows rows' \<longleftrightarrow>
     length rows \<le> length rows' \<and>
     (\<forall>i < length rows. rows' ! i = rows ! i \<or>
       rows' ! i = set_uploaded (rows ! i) \<and> ack (serial_no (rows ! i)))"

lemma cache_grows_refl [simp]: "cache_grows ack M M"
  by (auto simp: cache_grows_def)

lemma cache_grows_trans:
  assumes "cache_grows ack1 M1 M2" and "cache_grows ack2 M2 M3" and "\<And>u. ack1 u \<Longrightarrow> ack2 u"
  shows "cache_grows ack2 M1 M3"
proof -
  have "\<exists>r'. M3 u = Some r' \<and> cycle_mark\<^sup>*\<^sup>* r r'" if "M1 u = Some r" for u r
    using assms(1, 2) that unfolding cache_grows_def by (meson rtranclp_trans)
  moreover have "ack2 u \<or> (\<exists>r. M1 u = Some r \<and> rec_status r = Synced)"
    if "M3 u = Some r'" "rec_status r' = Synced" for u r'
    using assms that unfolding cache_grows_def by blast
  ultimately show ?thesis by (simp add: cache_grows_def)
qed

lemma cache_grows_synced:
  "(\<And>u. u \<in> set ids \<Longrightarrow> ack u) \<Longrightarrow> cache_grows ack M (cache_update ids (rec_synced t) M)"
  by (auto simp: cache_grows_def cache_update_def)

lemma cache_grows_failed: "cache_grows ack M (cache_update ids (rec_failed t m) M)"
  by (auto simp: cache_grows_def cache_update_def)

lemma rows_grow_refl [simp]: "rows_grow ack rows rows"
  by (simp add: rows_grow_def)

lemma rows_grow_trans:
  assumes "rows_grow ack1 r1 r2" and "rows_grow ack2 r2 r3" and "\<And>s. ack1 s \<Longrightarrow> ack2 s"
  shows "rows_grow ack2 r1 r3"
  unfolding rows_grow_def
proof (intro conjI allI impI)
  show "length r1 \<le> length r3" using assms by (simp add: rows_grow_def)
  fix i assume i: "i < length r1"
  then have "i < length r2" using assms(1) by (simp add: rows_grow_def)
  with i show "r3 ! i = r1 ! i \<or> r3 ! i = set_uploaded (r1 ! i) \<and> ack2 (serial_no (r1 ! i))"
    using assms unfolding rows_grow_def by (metis serial_no_set_uploaded set_uploaded_idem)
qed

lemma rows_grow_marked:
  assumes "\<And>s a. a \<in> set ids \<Longrightarrow> coll_eq env s a \<Longrightarrow> ack s"
  shows "rows_grow ack rows (mark_rows env ids rows)"
  using assms by (auto simp: rows_grow_def mark_rows_def serial_in_def list_ex_iff)

lemma rows_grow_append: "rows_grow ack rows (rows @ new)"
  by (simp add: rows_grow_def nth_append)

section \<open>The contract of a cycle in steps\<close>

text \<open>
  A task that runs in steps on a world other tasks change too. From an \<open>ok\<close> world every step leads
  to an \<open>ok\<close> world related by \<open>rel\<close>; \<open>inv\<close> is what the task knows of the world in a phase, and
  changes by \<open>rel\<close> keep it. From any world whatever, a task in a \<open>live\<close> phase stays in live phases
  and, left alone, comes to its result.
\<close>

locale cycle_task =
  fixes step :: "'p \<times> 'w \<Rightarrow> 'p \<times> 'w"
    and result_of :: "'p \<Rightarrow> 'r option"
    and live :: "'p \<Rightarrow> bool"
    and inv :: "'p \<Rightarrow> 'w \<Rightarrow> bool"
    and ok :: "'w \<Rightarrow> bool"
    and rel :: "'w \<Rightarrow> 'w \<Rightarrow> bool"
  assumes step_ok: "ok w \<Longrightarrow> inv p w \<Longrightarrow> step (p, w) = (p', w') \<Longrightarrow> ok w' \<and> rel w w' \<and> inv p' w'"
    and inv_stable: "inv p w \<Longrightarrow> rel w w' \<Longrightarrow> inv p w'"
    and live_step: "live p \<Longrightarrow> step (p, w) = (p', w') \<Longrightarrow> live p'"
    and ends: "live p \<Longrightarrow> \<exists>p' w'. reaches step (p, w) (p', w') \<and> result_of p' \<noteq> None"
begin

text \<open>A task whose steps are steps of \<open>R\<close> works until its first result and no longer.\<close>

lemma run_until_result:
  assumes "\<And>p w p' w'. result_of p = None \<Longrightarrow> step (p, w) = (p', w') \<Longrightarrow> R (put p, w) (put p', w')"
  shows "(\<forall>m < n. result_of (fst ((step ^^ m) (p, w))) = None) \<Longrightarrow> (step ^^ n) (p, w) = (p', w') \<Longrightarrow>
    R\<^sup>*\<^sup>* (put p, w) (put p', w')"
proof (induction n arbitrary: p' w')
  case (Suc n)
  obtain p1 w1 where s: "(step ^^ n) (p, w) = (p1, w1)" by (metis surj_pair)
  have "R\<^sup>*\<^sup>* (put p, w) (put p1, w1)" using Suc.IH [OF _ s] Suc.prems(1) by simp
  moreover have "R (put p1, w1) (put p', w')"
    using assms [of p1 w1 p' w'] Suc.prems s by (metis funpow.simps(2) fst_conv lessI o_apply)
  ultimately show ?case by (rule rtranclp.rtrancl_into_rtrancl)
qed simp

lemma run_with:
  assumes "live p"
    and "\<And>p w p' w'. result_of p = None \<Longrightarrow> step (p, w) = (p', w') \<Longrightarrow> R (put p, w) (put p', w')"
  shows "\<exists>p' w' x. R\<^sup>*\<^sup>* (put p, w) (put p', w') \<and> reaches step (p, w) (p', w') \<and> result_of p' = Some x"
proof -
  obtain n where n: "result_of (fst ((step ^^ n) (p, w))) \<noteq> None"
    using ends [OF assms(1)] unfolding reaches_def by (metis fst_conv)
  define k where "k = (LEAST n. result_of (fst ((step ^^ n) (p, w))) \<noteq> None)"
  obtain p' w' where k: "(step ^^ k) (p, w) = (p', w')" by (metis surj_pair)
  have "result_of (fst ((step ^^ k) (p, w))) \<noteq> None" unfolding k_def using n by (rule LeastI)
  moreover have "\<forall>m < k. result_of (fst ((step ^^ m) (p, w))) = None"
    using not_less_Least unfolding k_def by blast
  from run_until_result [where R = R and put = put, OF assms(2) this k] have "R\<^sup>*\<^sup>* (put p, w) (put p', w')" .
  ultimately show ?thesis using k unfolding reaches_def by auto
qed

end

text \<open>The relations between the worlds of the two engines.\<close>

definition local_rel :: "'m local_libs \<Rightarrow> sqlite world \<Rightarrow> sqlite world \<Rightarrow> bool" where
  "local_rel L w w' \<longleftrightarrow> same_env w w' \<and>
     cache_grows (acked L w') (world_cache (lib_codec L) w) (world_cache (lib_codec L) w')"

definition sql_rel :: "sql_libs \<Rightarrow> sql_server world \<Rightarrow> sql_server world \<Rightarrow> bool" where
  "sql_rel L w w' \<longleftrightarrow> same_env w w' \<and> rows_grow (acked_serial L w') (world_rows w) (world_rows w')"

text \<open>What a cycle knows: it marks only what was acknowledged, and its delays are positive.\<close>

fun local_inv :: "'m local_libs \<Rightarrow> local_phase \<Rightarrow> 's world \<Rightarrow> bool" where
  "local_inv L (L_Mark_synced records response) w =
     (\<forall>u \<in> set (accepted_of records response). acked L w u)"
| "local_inv L p w = True"

definition serials_acked :: "sql_libs \<Rightarrow> 's world \<Rightarrow> string list \<Rightarrow> bool" where
  "serials_acked L w ids \<longleftrightarrow> (\<forall>a \<in> set ids. \<forall>s. coll_eq (sq_env L) s a \<longrightarrow> acked_serial L w s)"

fun sql_inv :: "sql_libs \<Rightarrow> sql_phase \<Rightarrow> 's world \<Rightarrow> bool" where
  "sql_inv L (S_Connect acc out) w = serials_acked L w acc"
| "sql_inv L (S_Mark cs out) w = serials_acked L w (concat cs)"
| "sql_inv L p w = True"

fun local_live :: "local_phase \<Rightarrow> bool" where
  "local_live (L_Upload records started_at delay) = (0 < delay)"
| "local_live p = True"

fun sql_live :: "sql_phase \<Rightarrow> bool" where
  "sql_live (S_Upload records started_at delay) = (0 < delay)"
| "sql_live p = True"

fun local_result :: "local_phase \<Rightarrow> (sync_outcome, anyhow) result option" where
  "local_result (L_Done x) = Some x"
| "local_result p = None"

fun sql_result :: "sql_phase \<Rightarrow> (sync_outcome, anyhow) result option" where
  "sql_result (S_Done x) = Some x"
| "sql_result p = None"

lemma local_inv_stable: "local_inv L p w \<Longrightarrow> same_env w w' \<Longrightarrow> local_inv L p w'"
  by (cases p) (auto intro: acked_mono)

lemma serials_acked_mono: "same_env w w' \<Longrightarrow> serials_acked L w ids \<Longrightarrow> serials_acked L w' ids"
  unfolding serials_acked_def using acked_serial_mono by blast

lemma serials_acked_append [simp]:
  "serials_acked L w (a @ b) \<longleftrightarrow> serials_acked L w a \<and> serials_acked L w b"
  by (auto simp: serials_acked_def)

lemma sql_inv_stable: "sql_inv L p w \<Longrightarrow> same_env w w' \<Longrightarrow> sql_inv L p w'"
  by (cases p) (auto intro: serials_acked_mono)

lemma on_source_env: "on_source f w = (x, w') \<Longrightarrow> same_env w w'"
  by (auto simp: on_source_iff)

text \<open>One attempt of an upload.\<close>

lemma attempt_effect:
  assumes "http_upload up"
    and "retry_attempt clock sleep up log_retry s md me d w = (a, w1)"
  shows "same_source w w1" and "a = Returned (Ok v) \<Longrightarrow> up w = (Ok v, w1)"
    and "a = Again d1 \<Longrightarrow> d1 = next_delay md d"
proof -
  obtain x w0 where x: "up w = (x, w0)" by (metis surj_pair)
  have s: "same_source w w0" using http_upload.upload_same [OF assms(1) x] .
  have s1: "same_source w0 (sleep t (log_retry e t w0))" for t e
    using same_source_trans [OF log_retry_same sleep_same] .
  show "same_source w w1" "a = Returned (Ok v) \<Longrightarrow> up w = (Ok v, w1)"
    "a = Again d1 \<Longrightarrow> d1 = next_delay md d"
    using assms(2) x s same_source_trans [OF s s1]
    by (auto simp: retry_attempt_def Let_def split: result.splits upload_error.splits if_splits)
qed

section \<open>The local engine keeps the contract\<close>

lemma local_rel_refl [simp]: "local_rel L w w"
  by (simp add: local_rel_def)

lemma local_rel_source:
  "same_source w w' \<Longrightarrow> local_rel L w w'"
  by (simp add: local_rel_def same_source_def world_cache_def)

lemma local_rel_update:
  assumes "same_env w w'" and "world_cache (lib_codec L) w' = M"
    and "cache_grows (acked L w') (world_cache (lib_codec L) w) M"
  shows "local_rel L w w'"
  using assms by (simp add: local_rel_def)

context local_engine
begin

lemma mark_synced_step:
  assumes ok: "world_ok (lib_codec L) w" and inv: "local_inv L (L_Mark_synced rs response) w"
    and st: "local_step L e (L_Mark_synced rs response, w) = (p', w')"
  shows "world_ok (lib_codec L) w' \<and> local_rel L w w' \<and> local_inv L p' w'"
proof -
  let ?acc = "accepted_of rs response"
  obtain x w1 where m: "(if ?acc \<noteq> [] then on_source (mark_synced (lib_codec L) (utc_now w) ?acc) w
      else (Ok (), w)) = (x, w1)" by (metis surj_pair)
  have p: "w' = w1" "p' = (case x of Ok _ \<Rightarrow> L_Mark_rejected rs response | Err y \<Rightarrow> L_Done (Err y))"
    using st unfolding local_step.simps accepted_of_def [symmetric] Let_def m by (cases x; simp)+
  have e: "same_env w w1" using m on_source_env by (cases "?acc = []") auto
  note mw = mark_synced_in_world [OF ok m]
  have "acked L w1 u" if "u \<in> set ?acc" for u using inv that acked_mono [OF e, of L u] by simp
  then have "local_rel L w w1"
    using mw(2) e cache_grows_synced by (cases x) (auto simp: local_rel_def)
  then show ?thesis using mw(1) p by (cases x) simp_all
qed

lemma mark_rejected_step:
  assumes ok: "world_ok (lib_codec L) w"
    and st: "local_step L e (L_Mark_rejected rs response, w) = (p', w')"
  shows "world_ok (lib_codec L) w' \<and> local_rel L w w' \<and> local_inv L p' w'"
proof -
  let ?msg = "''remote endpoint rejected record''"
  obtain x w1 where m: "(if failed_ids response \<noteq> [] then on_source (mark_failed (lib_codec L)
      (utc_now w) (failed_ids response) ?msg) w else (Ok (), w)) = (x, w1)" by (metis surj_pair)
  have p: "w' = w1" "\<exists>y. p' = L_Done y"
    using st unfolding local_step.simps Let_def m by (cases x; auto)+
  have e: "same_env w w1" using m on_source_env by (cases "failed_ids response = []") auto
  note mw = mark_failed_in_world [OF ok m]
  have "local_rel L w w1"
    using mw(2) e cache_grows_failed by (cases x) (auto simp: local_rel_def)
  then show ?thesis using mw(1) p by auto
qed

lemma mark_failed_step:
  assumes ok: "world_ok (lib_codec L) w"
    and st: "local_step L e (L_Mark_failed rs error, w) = (p', w')"
  shows "world_ok (lib_codec L) w' \<and> local_rel L w w' \<and> local_inv L p' w'"
proof -
  let ?ids = "map rec_id rs"
  obtain x w1 where m: "on_source (mark_failed (lib_codec L) (utc_now w) ?ids (display error)) w = (x, w1)"
    by (metis surj_pair)
  have p: "w' = w1" "\<exists>y. p' = L_Done y" using st m by (cases x; auto)+
  have e: "same_env w w1" using m by (rule on_source_env)
  have m': "(if ?ids \<noteq> [] then on_source (mark_failed (lib_codec L) (utc_now w) ?ids (display error)) w
      else (Ok (), w)) = (x, w1)"
    using m by (auto simp: mark_failed_def on_source_def)
  note mw = mark_failed_in_world [OF ok m']
  have "local_rel L w w1"
    using mw(2) e cache_grows_failed by (cases x) (auto simp: local_rel_def)
  then show ?thesis using mw(1) p by auto
qed

lemma fetch_step:
  assumes ok: "world_ok (lib_codec L) w" and st: "local_step L e (L_Fetch, w) = (p', w')"
  shows "world_ok (lib_codec L) w' \<and> local_rel L w w' \<and> local_inv L p' w'"
proof -
  obtain x w1 where f: "on_source (fetch_pending (lib_codec L) (lib_order L)
      (batch_size (engine_sync e))) w = (x, w1)" by (metis surj_pair)
  have p: "w' = w1" "local_inv L p' w1"
    using st f by (cases x; auto split: if_splits)+
  show ?thesis
    using fetch_in_world(1, 2) [OF ok f] on_source_env [OF f] p by (simp add: local_rel_def)
qed

lemma upload_step:
  assumes ok: "world_ok (lib_codec L) w"
    and st: "local_step L e (L_Upload rs s d, w) = (p', w')"
  shows "world_ok (lib_codec L) w' \<and> local_rel L w w' \<and> local_inv L p' w'"
proof -
  obtain a w1 where a: "retry_attempt clock sleep (upload_batch L e rs) log_retry s
      (delay_cap (engine_sync e)) (retry_max_elapsed (engine_sync e)) d w = (a, w1)"
    by (metis surj_pair)
  note eff = attempt_effect [OF batch_upload.http_upload_axioms a]
  have p: "(p', w') = (case a of Returned r \<Rightarrow> (local_answer rs r, w1) | Again d1 \<Rightarrow> (L_Upload rs s d1, w1))"
    using st unfolding local_upload_step a by (cases a) simp_all
  have "local_inv L p' w1"
  proof (cases a)
    case (Again d1)
    then show ?thesis using p by simp
  next
    case (Returned r)
    then show ?thesis
      using p eff(2) upload_batch_acks by (cases r) (auto simp: local_answer_def)
  qed
  moreover have "w' = w1" using p by (cases a) simp_all
  ultimately show ?thesis using world_ok_env [OF ok eff(1)] local_rel_source [OF eff(1)] by simp
qed

lemma local_step_safe:
  assumes "world_ok (lib_codec L) w" and "local_inv L p w" and "local_step L e (p, w) = (p', w')"
  shows "world_ok (lib_codec L) w' \<and> local_rel L w w' \<and> local_inv L p' w'"
  using assms
proof (cases p)
  case L_Fetch
  then show ?thesis using fetch_step [OF assms(1)] assms(3) by blast
next
  case (L_Upload rs s d)
  then show ?thesis using upload_step [OF assms(1)] assms(3) by blast
next
  case (L_Mark_synced rs response)
  then show ?thesis using mark_synced_step [OF assms(1)] assms(2, 3) by blast
next
  case (L_Mark_rejected rs response)
  then show ?thesis using mark_rejected_step [OF assms(1)] assms(3) by blast
next
  case (L_Mark_failed rs error)
  then show ?thesis using mark_failed_step [OF assms(1)] assms(3) by blast
qed auto

end

lemma local_answer_ends: "\<exists>x w'. reaches (local_step L e) (local_answer rs r, w) (L_Done x, w')"
proof (cases r)
  case (Ok response)
  obtain x w' where "write_back L rs response w = (x, w')" by (metis surj_pair)
  from local_write_back_steps [OF this, of e] show ?thesis
    unfolding Ok local_answer_def result.case by blast
next
  case (Err error)
  obtain x :: "(sync_outcome, anyhow) result" and w' where
    "try_then (on_source (mark_failed (lib_codec L) (utc_now w) (map rec_id rs) (display error)) w)
      (\<lambda>_ w3. (Err (Ctx ''batch upload failed (permanent error or retry budget exhausted)'' error), w3))
      = (x, w')" by (metis surj_pair)
  from local_failed_steps [OF this, of e] show ?thesis
    unfolding Err local_answer_def result.case by blast
qed

lemma local_ends:
  assumes "local_live p"
  shows "\<exists>x w'. reaches (local_step L e) (p, w) (L_Done x, w')"
proof -
  show ?thesis
  proof (cases p)
    case L_Fetch
    obtain x w' where "sync_once L e w = Some (x, w')" using sync_once_returns by blast
    from sync_once_steps [OF this] show ?thesis unfolding L_Fetch by blast
  next
    case (L_Upload rs s d)
    then have "0 < d" using assms by simp
    from batch_upload.retrying.exec_total [OF this first_delay_pos(2)] obtain ds r w1 where "retry_exec clock sleep (upload_batch L e rs) log_retry s
        (delay_cap (engine_sync e)) (retry_max_elapsed (engine_sync e)) d w ds r w1"
      by blast
    note r = retry_steps [where f = "local_step L e" and up = "L_Upload rs s" and ret = "local_answer rs",
        OF local_upload_step this]
    obtain x w' where "reaches (local_step L e) (local_answer rs r, w1) (L_Done x, w')"
      using local_answer_ends [of L e rs r w1] by blast
    from reaches_trans [OF r this] show ?thesis unfolding L_Upload by blast
  next
    case (L_Mark_synced rs response)
    then show ?thesis using local_answer_ends [of L e rs "Ok response" w] by (simp add: local_answer_def)
  next
    case (L_Mark_failed rs error)
    then show ?thesis using local_answer_ends [of L e rs "Err error" w] by (simp add: local_answer_def)
  next
    case (L_Mark_rejected rs response)
    obtain x1 w1 where m: "(if failed_ids response \<noteq> [] then on_source (mark_failed (lib_codec L)
        (utc_now w) (failed_ids response) ''remote endpoint rejected record'') w else (Ok (), w))
        = (x1, w1)" by (metis surj_pair)
    obtain x where st: "local_step L e (p, w) = (L_Done x, w1)"
      unfolding L_Mark_rejected local_step.simps Let_def m by (cases x1) simp_all
    from reaches_once [of "local_step L e", OF st] show ?thesis by blast
  next
    case (L_Done x)
    then show ?thesis using reaches_refl [of "local_step L e" "(p, w)"] by blast
  qed
qed

lemma local_live_step:
  assumes "local_live p" and st: "local_step L e (p, w) = (p', w')"
  shows "local_live p'"
proof (cases p)
  case L_Fetch
  then show ?thesis
    using st first_delay_pos(1) [of "engine_sync e"] by (auto split: prod.splits result.splits if_splits)
next
  case (L_Upload rs s d)
  obtain a w1 where a: "retry_attempt clock sleep (upload_batch L e rs) log_retry s
      (delay_cap (engine_sync e)) (retry_max_elapsed (engine_sync e)) d w = (a, w1)"
    by (metis surj_pair)
  show ?thesis
    using st [unfolded L_Upload local_upload_step a] assms(1) L_Upload first_delay_pos(2) [of "engine_sync e"]
      attempt_effect(3) [OF batch_upload.http_upload_axioms a] next_delay_pos
    by (cases a) (auto simp: local_answer_def split: result.splits)
next
  case (L_Mark_synced rs response)
  then show ?thesis using st by (auto simp: Let_def split: prod.splits result.splits)
next
  case (L_Mark_rejected rs response)
  then show ?thesis using st unfolding L_Mark_rejected local_step.simps Let_def
    by (auto split: prod.splits result.splits)
next
  case (L_Mark_failed rs error)
  then show ?thesis using st by (auto split: prod.splits result.splits)
next
  case (L_Done x)
  then show ?thesis using st by auto
qed

sublocale local_engine \<subseteq> task: cycle_task "local_step L e" local_result local_live "local_inv L"
    "world_ok (lib_codec L)" "local_rel L" for e
proof
  show "world_ok (lib_codec L) w' \<and> local_rel L w w' \<and> local_inv L p' w'"
    if "world_ok (lib_codec L) w" "local_inv L p w" "local_step L e (p, w) = (p', w')" for p w p' w'
    using local_step_safe [OF that] .
  show "local_inv L p w'" if "local_inv L p w" "local_rel L w w'" for p w w'
    using that local_inv_stable by (auto simp: local_rel_def)
  show "local_live p'" if "local_live p" "local_step L e (p, w) = (p', w')" for p w p' w'
    using local_live_step [OF that] .
  show "\<exists>p' w'. reaches (local_step L e) (p, w) (p', w') \<and> local_result p' \<noteq> None"
    if "local_live p" for p w
    using local_ends [OF that, of L e w] by (metis local_result.simps(1) option.distinct(1))
qed

section \<open>The SQL Server engine keeps the contract\<close>

lemma sql_rel_rows:
  "same_env w w' \<Longrightarrow> world_rows w' = world_rows w \<Longrightarrow> sql_rel L w w'"
  by (simp add: sql_rel_def)

lemma sql_fetch_step:
  assumes "sql_engine L" and st: "sql_step L e (S_Fetch, w) = (p', w')"
  shows "sql_rel L w w' \<and> sql_inv L p' w'"
proof -
  obtain x w1 where f: "on_source (source_fetch_pending (sq_env L) (sq_source e)
      (batch_size (sq_sync e))) w = (x, w1)" by (metis surj_pair)
  have "w' = w1" "sql_inv L p' w1"
    using st f by (cases x; auto split: if_splits)+
  then show ?thesis using sql_engine.fetch_in_world(1, 2) [OF assms(1) f] sql_rel_rows by simp
qed

lemma sql_upload_safe:
  assumes st: "sql_step L e (S_Upload rs s d, w) = (p', w')"
  shows "sql_rel L w w' \<and> sql_inv L p' w'"
proof -
  obtain a w1 where a: "retry_attempt clock sleep (sqlserver_upload_batch L e (map sw_data rs)) log_retry s
      (delay_cap (sq_sync e)) (retry_max_elapsed (sq_sync e)) d w = (a, w1)" by (metis surj_pair)
  note eff = attempt_effect [OF row_upload.http_upload_axioms a]
  have p: "(p', w') = (case a of Returned r \<Rightarrow> (sql_answer e rs r, w1) | Again d1 \<Rightarrow> (S_Upload rs s d1, w1))"
    using st unfolding sql_upload_step a by (cases a) simp_all
  have "sql_inv L p' w1"
  proof (cases a)
    case (Again d1)
    then show ?thesis using p by simp
  next
    case (Returned r)
    then show ?thesis
      using p eff(2) sqlserver_upload_batch_acks by (cases r) (auto simp: sql_answer_def Let_def serials_acked_def)
  qed
  moreover have "w' = w1" using p by (cases a) simp_all
  ultimately show ?thesis
    using eff(1) sql_rel_rows by (auto simp: same_source_def world_rows_def)
qed

lemma sql_connect_step:
  assumes inv: "sql_inv L (S_Connect acc out) w" and st: "sql_step L e (S_Connect acc out, w) = (p', w')"
  shows "sql_rel L w w' \<and> sql_inv L p' w'"
proof -
  obtain x s where c: "tds_connect (sq_env L) (sq_source e) (source_of w) = (x, s)" by (metis surj_pair)
  have w': "w' = w\<lparr>source_of := s\<rparr>" using st c by (cases x) (auto simp: on_source_def)
  have env: "same_env w w'" using w' by simp
  have "sql_rel L w w'" using tds_connect_frame [OF c] w' by (simp add: sql_rel_def world_rows_def)
  moreover have "sql_inv L p' w'"
    using st c serials_acked_mono [OF env, of L acc] inv
    by (cases x) (auto simp: on_source_def MARK_UPLOAD_CHUNK_SIZE_def concat_chunks)
  ultimately show ?thesis ..
qed

lemma sql_mark_step:
  assumes inv: "sql_inv L (S_Mark (c # cs) out) w" and st: "sql_step L e (S_Mark (c # cs) out, w) = (p', w')"
  shows "sql_rel L w w' \<and> sql_inv L p' w'"
proof -
  obtain x s where c: "execute_mark (sq_env L) (mark_sql (table_ident (src_cfg (sq_source e)))
      (length c)) c (source_of w) = (x, s)" by (metis surj_pair)
  have w': "w' = w\<lparr>source_of := s\<rparr>" using st c by (cases x) (auto simp: on_source_def)
  have env: "same_env w w'" using w' by simp
  have "world_rows w' = mark_rows (sq_env L) c (world_rows w) \<or> world_rows w' = world_rows w"
    using execute_mark_effect [OF c] w' by (auto simp: world_rows_def)
  moreover have "rows_grow (acked_serial L w') (world_rows w) (mark_rows (sq_env L) c (world_rows w))"
    using inv serials_acked_mono [OF env, of L c] by (intro rows_grow_marked) (auto simp: serials_acked_def)
  ultimately have "sql_rel L w w'" using env by (auto simp: sql_rel_def)
  moreover have "sql_inv L p' w'"
    using st c inv serials_acked_mono [OF env, of L "concat cs"] by (cases x) (auto simp: on_source_def)
  ultimately show ?thesis ..
qed

lemma sql_step_safe:
  assumes "sql_engine L" and "sql_inv L p w" and "sql_step L e (p, w) = (p', w')"
  shows "sql_rel L w w' \<and> sql_inv L p' w'"
proof (cases p)
  case S_Fetch
  then show ?thesis using sql_fetch_step [OF assms(1)] assms(3) by blast
next
  case (S_Upload rs s d)
  then show ?thesis using sql_upload_safe assms(3) by blast
next
  case (S_Connect acc out)
  then show ?thesis using sql_connect_step assms(2, 3) by blast
next
  case (S_Mark cs out)
  then show ?thesis
    using sql_mark_step assms(2, 3) by (cases cs) (auto simp: sql_rel_def simp del: sql_step.simps(5))
next
  case (S_Done x)
  then show ?thesis using assms(3) by (auto simp: sql_rel_def)
qed

lemma sql_marks_end: "\<exists>x w'. reaches (sql_step L e) (S_Mark cs out, w) (S_Done x, w')"
proof -
  obtain y s where "mark_chunks (sq_env L) (table_ident (src_cfg (sq_source e))) cs (source_of w) = (y, s)"
    by (metis surj_pair)
  from mark_chunks_steps [OF this, of out] show ?thesis by blast
qed

lemma sql_connect_ends: "\<exists>x w'. reaches (sql_step L e) (S_Connect acc out, w) (S_Done x, w')"
proof -
  obtain y w1 where c: "on_source (tds_connect (sq_env L) (sq_source e)) w = (y, w1)" by (metis surj_pair)
  show ?thesis
  proof (cases y)
    case (Err z)
    with c have "sql_step L e (S_Connect acc out, w) = (S_Done (Err z), w1)" by simp
    from reaches_once [of "sql_step L e", OF this] show ?thesis by blast
  next
    case (Ok v)
    with c have st: "sql_step L e (S_Connect acc out, w) =
        (S_Mark (chunks MARK_UPLOAD_CHUNK_SIZE acc) out, w1)" by simp
    obtain x w' where "reaches (sql_step L e) (S_Mark (chunks MARK_UPLOAD_CHUNK_SIZE acc) out, w1)
      (S_Done x, w')" using sql_marks_end by blast
    from reaches_step_to [of "sql_step L e", OF st this] show ?thesis by blast
  qed
qed

lemma sql_answer_ends: "\<exists>x w'. reaches (sql_step L e) (sql_answer e rs r, w) (S_Done x, w')"
proof (cases "\<exists>acc out. sql_answer e rs r = S_Connect acc out")
  case True
  then show ?thesis using sql_connect_ends by metis
next
  case False
  then have "\<exists>x. sql_answer e rs r = S_Done x"
    by (cases r) (auto simp: sql_answer_def Let_def)
  then show ?thesis using reaches_refl by metis
qed

lemma sql_ends:
  assumes "sql_live p"
  shows "\<exists>x w'. reaches (sql_step L e) (p, w) (S_Done x, w')"
proof (cases p)
  case S_Fetch
  obtain x w' where "sqlserver_sync_once L e w = Some (x, w')"
    using sqlserver_sync_once_returns_aux by blast
  from sqlserver_sync_once_steps [OF this] show ?thesis unfolding S_Fetch by blast
next
  case (S_Upload rs s d)
  then have "0 < d" using assms by simp
  from row_upload.retrying.exec_total [OF this first_delay_pos(2)] obtain ds r w1 where
    "retry_exec clock sleep (sqlserver_upload_batch L e (map sw_data rs)) log_retry s
      (delay_cap (sq_sync e)) (retry_max_elapsed (sq_sync e)) d w ds r w1" by blast
  note r = retry_steps [where f = "sql_step L e" and up = "S_Upload rs s" and ret = "sql_answer e rs",
      OF sql_upload_step this]
  obtain x w' where "reaches (sql_step L e) (sql_answer e rs r, w1) (S_Done x, w')"
    using sql_answer_ends [of L e rs r w1] by blast
  from reaches_trans [OF r this] show ?thesis unfolding S_Upload by blast
next
  case (S_Connect acc out)
  then show ?thesis using sql_connect_ends by simp
next
  case (S_Mark cs out)
  then show ?thesis using sql_marks_end by simp
next
  case (S_Done x)
  then show ?thesis using reaches_refl [of "sql_step L e" "(p, w)"] by blast
qed

lemma sql_live_step:
  assumes "sql_live p" and st: "sql_step L e (p, w) = (p', w')"
  shows "sql_live p'"
proof (cases p)
  case S_Fetch
  then show ?thesis
    using st first_delay_pos(1) [of "sq_sync e"] by (auto split: prod.splits result.splits if_splits)
next
  case (S_Upload rs s d)
  obtain a w1 where a: "retry_attempt clock sleep (sqlserver_upload_batch L e (map sw_data rs)) log_retry s
      (delay_cap (sq_sync e)) (retry_max_elapsed (sq_sync e)) d w = (a, w1)" by (metis surj_pair)
  show ?thesis
    using st [unfolded S_Upload sql_upload_step a] assms(1) S_Upload first_delay_pos(2) [of "sq_sync e"]
      attempt_effect(3) [OF row_upload.http_upload_axioms a] next_delay_pos
    by (cases a) (auto simp: sql_answer_def Let_def split: result.splits)
next
  case (S_Connect acc out)
  then show ?thesis using st by (auto split: prod.splits result.splits)
next
  case (S_Mark cs out)
  then show ?thesis using st by (cases cs) (auto split: prod.splits result.splits)
next
  case (S_Done x)
  then show ?thesis using st by auto
qed

sublocale sql_engine \<subseteq> task: cycle_task "sql_step L e" sql_result sql_live "sql_inv L" "\<lambda>_. True"
    "sql_rel L" for e
proof
  show "True \<and> sql_rel L w w' \<and> sql_inv L p' w'"
    if "sql_inv L p w" "sql_step L e (p, w) = (p', w')" for p w p' w'
    using sql_step_safe [OF sql_engine_axioms that] by simp
  show "sql_inv L p w'" if "sql_inv L p w" "sql_rel L w w'" for p w w'
    using that sql_inv_stable by (auto simp: sql_rel_def)
  show "sql_live p'" if "sql_live p" "sql_step L e (p, w) = (p', w')" for p w p' w'
    using sql_live_step [OF that] .
  show "\<exists>p' w'. reaches (sql_step L e) (p, w) (p', w') \<and> sql_result p' \<noteq> None"
    if "sql_live p" for p w
    using sql_ends [OF that, of L e w] by (metis sql_result.simps(1) option.distinct(1))
qed

end
