(* ===== verification/Windows_Support.thy ===== *)
theory Windows_Support
  imports Local_Db
begin

text \<open>
  The Windows integration (src/windows/autostart.rs, src/windows/service.rs): the entry that starts
  the daemon at logon, the service, and what the same commands do in a build without the platform.

  The registry (winreg), the service manager (windows_service) and \<open>std::env::current_exe\<close> are
  parameters over a platform state of any type \<open>'w\<close>; what the code relies on of the registry is
  \<open>registry_laws\<close>.
\<close>

section \<open>The platform\<close>

text \<open>A \<open>std::io::Error\<close> by its kind.\<close>

datatype io_error = Not_found string | Other_io string

fun io_anyhow :: "io_error \<Rightarrow> anyhow" where
  "io_anyhow (Not_found m) = Msg m"
| "io_anyhow (Other_io m) = Msg m"

record service_info =
  svc_name :: string
  svc_display_name :: string
  svc_service_type :: string
  svc_start_type :: string
  svc_error_control :: string
  svc_executable_path :: string
  svc_launch_arguments :: "string list"
  svc_dependencies :: "string list"
  svc_account_name :: "string option"
  svc_account_password :: "string option"

record 'w win_api =
  current_exe :: "'w \<Rightarrow> (string, io_error) result"
  reg_create_subkey :: "string \<Rightarrow> 'w \<Rightarrow> (unit, io_error) result \<times> 'w"
  reg_open_set_value :: "string \<Rightarrow> 'w \<Rightarrow> (unit, io_error) result"
  reg_open_subkey :: "string \<Rightarrow> 'w \<Rightarrow> (unit, io_error) result"
  reg_set_value :: "string \<Rightarrow> string \<Rightarrow> string \<Rightarrow> 'w \<Rightarrow> (unit, io_error) result \<times> 'w"
  reg_delete_value :: "string \<Rightarrow> string \<Rightarrow> 'w \<Rightarrow> (unit, io_error) result \<times> 'w"
  reg_get_value :: "string \<Rightarrow> string \<Rightarrow> 'w \<Rightarrow> (string, io_error) result"
  scm_open :: "string \<Rightarrow> 'w \<Rightarrow> (unit, string) result"
  scm_create_service :: "service_info \<Rightarrow> string \<Rightarrow> 'w \<Rightarrow> (unit, string) result \<times> 'w"
  scm_set_description :: "string \<Rightarrow> string \<Rightarrow> 'w \<Rightarrow> (unit, string) result \<times> 'w"
  scm_open_service :: "string \<Rightarrow> string \<Rightarrow> 'w \<Rightarrow> (unit, string) result"
  scm_delete_service :: "string \<Rightarrow> 'w \<Rightarrow> (unit, string) result \<times> 'w"

section \<open>Start at logon (src/windows/autostart.rs)\<close>

definition RUN_VALUE_NAME :: string where
  "RUN_VALUE_NAME = ''WeighingDataSync''"

definition RUN_KEY :: string where
  "RUN_KEY =
     ''Software'' @ [CHR 0x5C] @ ''Microsoft'' @ [CHR 0x5C] @ ''Windows'' @ [CHR 0x5C] @
     ''CurrentVersion'' @ [CHR 0x5C] @ ''Run''"

definition run_command :: "string \<Rightarrow> string" where
  "run_command exe = [CHR 0x22] @ exe @ [CHR 0x22] @ '' run''"

definition enable_autostart :: "'w win_api \<Rightarrow> 'w \<Rightarrow> (unit, anyhow) result \<times> 'w" where
  "enable_autostart win s =
     try_then (with_context ''failed to open Windows Run registry key''
         (case reg_create_subkey win RUN_KEY s of (x, s1) \<Rightarrow> (map_err io_anyhow x, s1))) (\<lambda>_ s1.
     try_then (context_err ''failed to resolve current executable path''
         (map_err io_anyhow (current_exe win s1)), s1) (\<lambda>exe s1.
     try_then (with_context ''failed to write Windows autostart registry value''
         (case reg_set_value win RUN_KEY RUN_VALUE_NAME (run_command exe) s1 of
            (x, s2) \<Rightarrow> (map_err io_anyhow x, s2))) (\<lambda>_ s2. (Ok (), s2))))"

definition disable_autostart :: "'w win_api \<Rightarrow> 'w \<Rightarrow> (unit, anyhow) result \<times> 'w" where
  "disable_autostart win s =
     try_then (context_err ''failed to open Windows Run registry key''
         (map_err io_anyhow (reg_open_set_value win RUN_KEY s)), s) (\<lambda>_ s.
       case reg_delete_value win RUN_KEY RUN_VALUE_NAME s of
         (Ok _, s1) \<Rightarrow> (Ok (), s1)
       | (Err (Not_found _), s1) \<Rightarrow> (Ok (), s1)
       | (Err e, s1) \<Rightarrow>
           (Err (Ctx ''failed to delete Windows autostart registry value'' (io_anyhow e)), s1))"

definition is_autostart_enabled :: "'w win_api \<Rightarrow> 'w \<Rightarrow> (bool, anyhow) result" where
  "is_autostart_enabled win s =
     and_then (context_err ''failed to open Windows Run registry key''
         (map_err io_anyhow (reg_open_subkey win RUN_KEY s))) (\<lambda>_.
       Ok (is_ok (reg_get_value win RUN_KEY RUN_VALUE_NAME s)))"

text \<open>A build for another target or without the feature.\<close>

definition enable_autostart_stub :: "(unit, anyhow) result" where
  "enable_autostart_stub =
     Err (Msg (RUN_VALUE_NAME @ '' autostart requires Windows target and the `windows` feature''))"

definition disable_autostart_stub :: "(unit, anyhow) result" where
  "disable_autostart_stub =
     Err (Msg (RUN_VALUE_NAME @ '' autostart requires Windows target and the `windows` feature''))"

definition is_autostart_enabled_stub :: "(bool, anyhow) result" where
  "is_autostart_enabled_stub = Ok False"

section \<open>The service (src/windows/service.rs)\<close>

definition SERVICE_NAME :: string where
  "SERVICE_NAME = ''WeighingDataSync''"

definition SERVICE_DISPLAY_NAME :: string where
  "SERVICE_DISPLAY_NAME = ''Intelligent Weighing Data Sync''"

definition service_info_of :: "string \<Rightarrow> service_info" where
  "service_info_of exe =
     \<lparr>svc_name = SERVICE_NAME, svc_display_name = SERVICE_DISPLAY_NAME,
      svc_service_type = ''OWN_PROCESS'', svc_start_type = ''AutoStart'',
      svc_error_control = ''Normal'', svc_executable_path = exe,
      svc_launch_arguments = [''run''], svc_dependencies = [],
      svc_account_name = None, svc_account_password = None\<rparr>"

definition install_service :: "'w win_api \<Rightarrow> 'w \<Rightarrow> (unit, anyhow) result \<times> 'w" where
  "install_service win s =
     try_then (context_err ''failed to open Windows service manager''
         (map_err Msg (scm_open win ''CREATE_SERVICE'' s)), s) (\<lambda>_ s.
     try_then (context_err ''failed to resolve executable path''
         (map_err io_anyhow (current_exe win s)), s) (\<lambda>exe s.
     try_then (with_context ''failed to create Windows service''
         (case scm_create_service win (service_info_of exe) ''CHANGE_CONFIG'' s of
            (x, s1) \<Rightarrow> (map_err Msg x, s1))) (\<lambda>_ s1.
     try_then (with_context ''failed to set Windows service description''
         (case scm_set_description win SERVICE_NAME
              ''Reliable SQLite-backed weighing data synchronization daemon'' s1 of
            (x, s2) \<Rightarrow> (map_err Msg x, s2))) (\<lambda>_ s2. (Ok (), s2)))))"

definition uninstall_service :: "'w win_api \<Rightarrow> 'w \<Rightarrow> (unit, anyhow) result \<times> 'w" where
  "uninstall_service win s =
     try_then (context_err ''failed to open Windows service manager''
         (map_err Msg (scm_open win ''CONNECT'' s)), s) (\<lambda>_ s.
     try_then (context_err ''failed to open Windows service''
         (map_err Msg (scm_open_service win SERVICE_NAME ''DELETE'' s)), s) (\<lambda>_ s.
     try_then (with_context ''failed to delete Windows service''
         (case scm_delete_service win SERVICE_NAME s of
            (x, s1) \<Rightarrow> (map_err Msg x, s1))) (\<lambda>_ s1. (Ok (), s1))))"

definition install_service_stub :: "(unit, anyhow) result" where
  "install_service_stub =
     Err (Msg (SERVICE_NAME @
       '' service installation requires Windows target and the `windows` feature''))"

definition uninstall_service_stub :: "(unit, anyhow) result" where
  "uninstall_service_stub =
     Err (Msg (SERVICE_NAME @
       '' service uninstallation requires Windows target and the `windows` feature''))"

section \<open>Lemmas\<close>

text \<open>
  What the code relies on of the registry: a key that was created can be opened, writing a value
  closes no key, a written value reads back, and a value that was deleted or reported missing is
  not there.
\<close>

definition registry_laws :: "'w win_api \<Rightarrow> bool" where
  "registry_laws win \<longleftrightarrow>
     (\<forall>k s s'. reg_create_subkey win k s = (Ok (), s') \<longrightarrow> reg_open_subkey win k s' = Ok ()) \<and>
     (\<forall>k n v x s s'. reg_set_value win k n v s = (Ok x, s') \<longrightarrow>
        reg_open_subkey win k s' = reg_open_subkey win k s \<and> reg_get_value win k n s' = Ok v) \<and>
     (\<forall>k n x s s'. reg_delete_value win k n s = (Ok x, s') \<longrightarrow> \<not> is_ok (reg_get_value win k n s')) \<and>
     (\<forall>k n m s s'. reg_delete_value win k n s = (Err (Not_found m), s') \<longrightarrow>
        \<not> is_ok (reg_get_value win k n s'))"

lemma try_then_Ok_iff [result_simps]:
  "try_then r f = (Ok y, w') \<longleftrightarrow> (\<exists>v w. r = (Ok v, w) \<and> f v w = (Ok y, w'))"
  by (cases r; cases "fst r") auto

lemma with_context_Ok_iff [result_simps]: "with_context c r = (Ok v, w) \<longleftrightarrow> r = (Ok v, w)"
  by (cases r) (simp add: with_context_def result_simps)

lemma mapped_Ok_iff [result_simps]:
  "(case r of (x, s) \<Rightarrow> (map_err f x, s)) = (Ok v, w) \<longleftrightarrow> r = (Ok v, w)"
  by (cases r) (simp add: result_simps)

text \<open>
  C40: the three commands agree. After a successful \<open>enable-autostart\<close> the status is on and the
  logon entry is the quoted path of this executable with the argument \<open>run\<close>; after a successful
  \<open>disable-autostart\<close>, which also succeeds when there is no entry, the status is not on.
\<close>

theorem autostart_follows_commands:
  assumes "registry_laws win"
  shows "(enable_autostart win s = (Ok (), s') \<longrightarrow>
      is_autostart_enabled win s' = Ok True \<and>
      (\<exists>exe s1. current_exe win s1 = Ok exe \<and>
        reg_get_value win RUN_KEY RUN_VALUE_NAME s' = Ok (run_command exe))) \<and>
    (disable_autostart win s = (Ok (), s') \<longrightarrow> is_autostart_enabled win s' \<noteq> Ok True) \<and>
    (reg_open_set_value win RUN_KEY s = Ok () \<and>
      reg_delete_value win RUN_KEY RUN_VALUE_NAME s = (Err (Not_found m), s') \<longrightarrow>
      disable_autostart win s = (Ok (), s'))"
proof (intro conjI impI)
  assume "enable_autostart win s = (Ok (), s')"
  then obtain s1 exe where k: "reg_create_subkey win RUN_KEY s = (Ok (), s1)"
    and e: "current_exe win s1 = Ok exe"
    and v: "reg_set_value win RUN_KEY RUN_VALUE_NAME (run_command exe) s1 = (Ok (), s')"
    by (auto simp: enable_autostart_def result_simps)
  have "reg_open_subkey win RUN_KEY s' = Ok ()"
    "reg_get_value win RUN_KEY RUN_VALUE_NAME s' = Ok (run_command exe)"
    using assms k v unfolding registry_laws_def by metis+
  then show "is_autostart_enabled win s' = Ok True"
    "\<exists>exe s1. current_exe win s1 = Ok exe \<and>
      reg_get_value win RUN_KEY RUN_VALUE_NAME s' = Ok (run_command exe)"
    using e by (auto simp: is_autostart_enabled_def)
next
  assume "disable_autostart win s = (Ok (), s')"
  then have "(\<exists>x. reg_delete_value win RUN_KEY RUN_VALUE_NAME s = (Ok x, s')) \<or>
      (\<exists>m. reg_delete_value win RUN_KEY RUN_VALUE_NAME s = (Err (Not_found m), s'))"
    by (auto simp: disable_autostart_def result_simps split: prod.splits result.splits io_error.splits)
  then have "\<not> is_ok (reg_get_value win RUN_KEY RUN_VALUE_NAME s')"
    using assms unfolding registry_laws_def by metis
  then show "is_autostart_enabled win s' \<noteq> Ok True"
    by (simp add: is_autostart_enabled_def result_simps)
next
  assume "reg_open_set_value win RUN_KEY s = Ok () \<and>
    reg_delete_value win RUN_KEY RUN_VALUE_NAME s = (Err (Not_found m), s')"
  then show "disable_autostart win s = (Ok (), s')"
    by (simp add: disable_autostart_def)
qed

text \<open>A platform whose registry is a map from keys to their values, for the witness.\<close>

type_synonym demo_registry = "string \<Rightarrow> (string \<Rightarrow> string option) option"

definition demo_win :: "demo_registry win_api" where
  "demo_win =
     \<lparr>current_exe = (\<lambda>_. Ok ''sync-daemon.exe''),
      reg_create_subkey = (\<lambda>k s. (Ok (), case s k of None \<Rightarrow> s(k := Some Map.empty) | Some _ \<Rightarrow> s)),
      reg_open_set_value = (\<lambda>k s. case s k of None \<Rightarrow> Err (Not_found ''key'') | Some _ \<Rightarrow> Ok ()),
      reg_open_subkey = (\<lambda>k s. case s k of None \<Rightarrow> Err (Not_found ''key'') | Some _ \<Rightarrow> Ok ()),
      reg_set_value = (\<lambda>k n v s. case s k of
          None \<Rightarrow> (Err (Not_found ''key''), s)
        | Some vs \<Rightarrow> (Ok (), s(k := Some (vs(n \<mapsto> v))))),
      reg_delete_value = (\<lambda>k n s. case s k of
          None \<Rightarrow> (Err (Not_found ''key''), s)
        | Some vs \<Rightarrow> (case vs n of
              None \<Rightarrow> (Err (Not_found ''value''), s)
            | Some _ \<Rightarrow> (Ok (), s(k := Some (vs(n := None)))))),
      reg_get_value = (\<lambda>k n s. case s k of
          None \<Rightarrow> Err (Not_found ''key'')
        | Some vs \<Rightarrow> (case vs n of None \<Rightarrow> Err (Not_found ''value'') | Some v \<Rightarrow> Ok v)),
      scm_open = (\<lambda>_ _. Ok ()), scm_create_service = (\<lambda>_ _ s. (Ok (), s)),
      scm_set_description = (\<lambda>_ _ s. (Ok (), s)), scm_open_service = (\<lambda>_ _ _. Ok ()),
      scm_delete_service = (\<lambda>_ s. (Ok (), s))\<rparr>"

lemma demo_win_laws: "registry_laws demo_win"
  by (auto simp: registry_laws_def demo_win_def split: option.splits if_splits)

theorem autostart_follows_commands_witness:
  "\<exists>s s'. enable_autostart demo_win Map.empty = (Ok (), s) \<and>
     is_autostart_enabled demo_win s = Ok True \<and>
     disable_autostart demo_win s = (Ok (), s') \<and> is_autostart_enabled demo_win s' \<noteq> Ok True"
proof -
  obtain s where s: "enable_autostart demo_win Map.empty = (Ok (), s)"
    by (simp add: enable_autostart_def demo_win_def with_context_def)
  obtain s' where s': "disable_autostart demo_win s = (Ok (), s')"
    using s by (auto simp: enable_autostart_def disable_autostart_def demo_win_def with_context_def)
  show ?thesis using s s' autostart_follows_commands [OF demo_win_laws] by blast
qed

end
