(* ===== verification/Daemon.thy ===== *)
theory Daemon
  imports Cycle_Safety Receive_Server Windows_Support
begin

text \<open>
  The program (src/main.rs): command line, choice and construction of the engine, the commands, the
  start of the daemon. Its life afterwards is in \<open>Processes\<close>.

  The state of the machine is \<open>stores world\<close>: the world of \<open>Upload_Http\<close> with both stores, the
  SQLite cache and the SQL Server; an engine sees the one it works on. The libraries of every part
  are gathered in \<open>node_libs\<close>. The database URL names a file, so every pool opened on it sees the
  one \<open>cache_db\<close>. Output through \<open>tracing\<close> is not modelled.
\<close>

section \<open>The command line\<close>

datatype command =
    Run
  | Serve
  | SyncNow
  | InstallService
  | UninstallService
  | EnableAutostart
  | DisableAutostart
  | AutostartStatus

record cli =
  cli_config :: string
  cli_command :: "command option"

text \<open>
  clap's value of the option \<open>config\<close>: the argument, else the variable \<open>WDS_CONFIG\<close>, else the
  default.
\<close>

definition cli_parse :: "string option \<Rightarrow> string option \<Rightarrow> command option \<Rightarrow> cli" where
  "cli_parse arg env_var cmd =
     \<lparr>cli_config = (case arg of Some p \<Rightarrow> p | None \<Rightarrow>
        (case env_var of Some p \<Rightarrow> p | None \<Rightarrow> ''config/default.toml'')),
      cli_command = cmd\<rparr>"

section \<open>State and libraries\<close>

record stores =
  cache_db :: sqlite
  weigh_server :: sql_server

record 'm node_libs =
  nl_build :: "string \<Rightarrow> (raw_app, anyhow) result"
  nl_parent :: "string \<Rightarrow> string option"
  nl_fs_fault :: "fs_call \<Rightarrow> string option"
  nl_open_db :: "string \<Rightarrow> u32 \<Rightarrow> (database_backend, string) result"
  nl_client :: "duration \<Rightarrow> (unit, string) result"
  nl_local :: "'m local_libs"
  nl_sql :: sql_libs
  nl_parse_addr :: "string \<Rightarrow> (string, string) result"
  nl_listen :: "string \<Rightarrow> (unit, string) result"
  nl_cron_feature :: bool
  nl_scheduler_new :: "(unit, string) result"
  nl_cron_job :: "string \<Rightarrow> (unit, string) result"
  nl_scheduler_add :: "(unit, string) result"
  nl_scheduler_start :: "(unit, string) result"

text \<open>The same world over another store.\<close>

definition over :: "'s \<Rightarrow> 't world \<Rightarrow> 's world" where
  "over s w =
     \<lparr>clock = clock w, wall = wall w, latency = latency w, oversleep = oversleep w,
      remote = remote w, sent = sent w, retry_log = retry_log w, source_of = s\<rparr>"

definition cache_world :: "stores world \<Rightarrow> sqlite world" where
  "cache_world w = over (cache_db (source_of w)) w"

definition server_world :: "stores world \<Rightarrow> sql_server world" where
  "server_world w = over (weigh_server (source_of w)) w"

definition set_cache :: "sqlite \<Rightarrow> stores world \<Rightarrow> stores world" where
  "set_cache db w = w\<lparr>source_of := (source_of w)\<lparr>cache_db := db\<rparr>\<rparr>"

section \<open>Engines\<close>

datatype app_engine = Local sync_engine | SqlServer sqlserver_engine

definition app_engine_sync_once ::
  "'m node_libs \<Rightarrow> app_engine \<Rightarrow> stores world \<Rightarrow>
   ((sync_outcome, anyhow) result \<times> stores world) option" where
  "app_engine_sync_once L engine w =
     (case engine of
        Local e \<Rightarrow>
          map_option (\<lambda>(x, w1). (x, over ((source_of w)\<lparr>cache_db := source_of w1\<rparr>) w1))
            (sync_once (nl_local L) e (cache_world w))
      | SqlServer e \<Rightarrow>
          map_option (\<lambda>(x, w1). (x, over ((source_of w)\<lparr>weigh_server := source_of w1\<rparr>) w1))
            (sqlserver_sync_once (nl_sql L) e (server_world w)))"

definition load_config :: "'m node_libs \<Rightarrow> string \<Rightarrow> (app_config, anyhow) result" where
  "load_config L path = context_err (''failed to load config from '' @ path) (load (nl_build L) path)"

definition db_connect ::
  "'m node_libs \<Rightarrow> app_config \<Rightarrow> stores world \<Rightarrow> (unit, anyhow) result \<times> stores world" where
  "db_connect L cfg w =
     (case connect (nl_parent L) (nl_fs_fault L) (nl_open_db L) (database_section cfg)
         (cache_db (source_of w)) of (x, db) \<Rightarrow> (x, set_cache db w))"

definition build_engine ::
  "'m node_libs \<Rightarrow> string \<Rightarrow> stores world \<Rightarrow>
   (app_config \<times> app_engine, anyhow) result \<times> stores world" where
  "build_engine L path w =
     try_then (load_config L path, w) (\<lambda>cfg w.
     try_then
       (if eq_ignore_ascii_case (sync_source (sync cfg)) ''sqlserver''
        then (and_then (source_new (sqlserver cfg)) (\<lambda>src.
              and_then (sqlserver_engine_new (nl_client L) (api cfg) (sync cfg) src)
                (\<lambda>e. Ok (SqlServer e))), w)
        else try_then (db_connect L cfg w) (\<lambda>_ w.
              (and_then (sync_engine_new (nl_client L) (api cfg) (sync cfg)) (\<lambda>e. Ok (Local e)), w)))
       (\<lambda>engine w. (Ok (cfg, engine), w)))"

section \<open>Commands\<close>

text \<open>The pool as it is opened, if it is; the database keeps what the attempt did to it.\<close>

definition open_persist_pool ::
  "'m node_libs \<Rightarrow> app_config \<Rightarrow> stores world \<Rightarrow> sqlite option \<times> stores world" where
  "open_persist_pool L cfg w =
     (if \<not> persist (server cfg) then (None, w)
      else case db_connect L cfg w of
             (Ok _, w1) \<Rightarrow> (Some (cache_db (source_of w1)), w1)
           | (Err _, w1) \<Rightarrow> (None, w1))"

definition serve ::
  "'m node_libs \<Rightarrow> string \<Rightarrow> stores world \<Rightarrow> (http_server, anyhow) result \<times> stores world" where
  "serve L path w =
     try_then (load_config L path, w) (\<lambda>cfg w.
       case open_persist_pool L cfg w of
         (db_pool, w1) \<Rightarrow>
           (run_http_server (nl_parse_addr L) (nl_listen L) (server cfg) db_pool, w1))"

definition sync_now ::
  "'m node_libs \<Rightarrow> string \<Rightarrow> stores world \<Rightarrow> ((unit, anyhow) result \<times> stores world) option" where
  "sync_now L path w =
     (case build_engine L path w of
        (Err e, w1) \<Rightarrow> Some (Err e, w1)
      | (Ok (cfg, engine), w1) \<Rightarrow>
          map_option (\<lambda>(x, w2). (and_then x (\<lambda>_. Ok ()), w2)) (app_engine_sync_once L engine w1))"

definition start_scheduler :: "'m node_libs \<Rightarrow> app_config \<Rightarrow> (unit, anyhow) result" where
  "start_scheduler L cfg =
     and_then (map_err Msg (nl_scheduler_new L)) (\<lambda>_.
     and_then (map_err Msg (nl_cron_job L (cron (sync cfg)))) (\<lambda>_.
     and_then (map_err Msg (nl_scheduler_add L)) (\<lambda>_.
       map_err Msg (nl_scheduler_start L))))"

text \<open>
  The daemon when it is ready: its engine, whether jobs are scheduled, the server if it came up,
  and the result of the cycle at start if there was one.
\<close>

record daemon =
  d_cfg :: app_config
  d_engine :: app_engine
  d_scheduled :: bool
  d_server :: "http_server option"
  d_startup :: "(sync_outcome, anyhow) result option"

text \<open>The server task, whose failure is only logged, and the cycle at start, likewise.\<close>

definition start_server ::
  "'m node_libs \<Rightarrow> app_config \<Rightarrow> stores world \<Rightarrow> http_server option \<times> stores world" where
  "start_server L cfg w =
     (if enabled (server cfg)
      then case open_persist_pool L cfg w of
             (db_pool, w2) \<Rightarrow>
               (case run_http_server (nl_parse_addr L) (nl_listen L) (server cfg) db_pool of
                  Ok s \<Rightarrow> (Some s, w2)
                | Err _ \<Rightarrow> (None, w2))
      else (None, w))"

definition start_cycle ::
  "'m node_libs \<Rightarrow> app_config \<Rightarrow> app_engine \<Rightarrow> stores world \<Rightarrow>
   ((sync_outcome, anyhow) result option \<times> stores world) option" where
  "start_cycle L cfg engine w =
     (if sync_on_start (sync cfg)
      then map_option (\<lambda>(x, w3). (Some x, w3)) (app_engine_sync_once L engine w)
      else Some (None, w))"

definition run_daemon ::
  "'m node_libs \<Rightarrow> string \<Rightarrow> stores world \<Rightarrow> ((daemon, anyhow) result \<times> stores world) option" where
  "run_daemon L path w =
     (case build_engine L path w of
        (Err e, w1) \<Rightarrow> Some (Err e, w1)
      | (Ok (cfg, engine), w1) \<Rightarrow>
          let (srv, w2) = start_server L cfg w1
          in case start_cycle L cfg engine w2 of
               None \<Rightarrow> None
             | Some (startup, w3) \<Rightarrow>
                 Some (and_then (if nl_cron_feature L then start_scheduler L cfg else Ok ()) (\<lambda>_.
                   Ok \<lparr>d_cfg = cfg, d_engine = engine, d_scheduled = nl_cron_feature L,
                      d_server = srv, d_startup = startup\<rparr>), w3))"

text \<open>What \<open>main\<close> comes to: a running daemon, a running server, or a finished command.\<close>

datatype started = Daemon_ready daemon | Server_ready http_server | Finished

definition main_run ::
  "'m node_libs \<Rightarrow> bool \<Rightarrow> 'w win_api \<Rightarrow> cli \<Rightarrow> stores world \<Rightarrow> 'w \<Rightarrow>
   ((started, anyhow) result \<times> stores world \<times> 'w) option" where
  "main_run L windows win args w p =
     (let command_of = (\<lambda>(f :: 'w \<Rightarrow> (unit, anyhow) result \<times> 'w) (stub :: (unit, anyhow) result).
            case (if windows then f p else (stub, p)) of
              (x, p1) \<Rightarrow> Some (and_then x (\<lambda>_. Ok Finished), w, p1))
      in case (case cli_command args of Some c \<Rightarrow> c | None \<Rightarrow> Run) of
           Run \<Rightarrow> map_option (\<lambda>(x, w1). (and_then x (\<lambda>d. Ok (Daemon_ready d)), w1, p))
             (run_daemon L (cli_config args) w)
         | Serve \<Rightarrow>
             (case serve L (cli_config args) w of
                (x, w1) \<Rightarrow> Some (and_then x (\<lambda>s. Ok (Server_ready s)), w1, p))
         | SyncNow \<Rightarrow> map_option (\<lambda>(x, w1). (and_then x (\<lambda>_. Ok Finished), w1, p))
             (sync_now L (cli_config args) w)
         | InstallService \<Rightarrow> command_of (install_service win) install_service_stub
         | UninstallService \<Rightarrow> command_of (uninstall_service win) uninstall_service_stub
         | EnableAutostart \<Rightarrow> command_of (enable_autostart win) enable_autostart_stub
         | DisableAutostart \<Rightarrow> command_of (disable_autostart win) disable_autostart_stub
         | AutostartStatus \<Rightarrow>
             Some (and_then (if windows then is_autostart_enabled win p else is_autostart_enabled_stub)
               (\<lambda>_. Ok Finished), w, p))"

section \<open>The stores of a node, and how they may change\<close>

definition node_cache :: "'m node_libs \<Rightarrow> stores world \<Rightarrow> uuid \<Rightarrow> weighing_record option" where
  "node_cache L w = world_cache (lib_codec (nl_local L)) (cache_world w)"

definition node_rows :: "stores world \<Rightarrow> weight_info list" where
  "node_rows w = world_rows (server_world w)"

text \<open>The documented laws of the libraries, and a well-formed cache.\<close>

definition node_ok :: "'m node_libs \<Rightarrow> stores world \<Rightarrow> bool" where
  "node_ok L w \<longleftrightarrow>
     codec_laws (lib_codec (nl_local L)) \<and> asc_ordering row_measured_at (lib_order (nl_local L)) \<and>
     sql_source (sq_env (nl_sql L)) \<and> world_ok (lib_codec (nl_local L)) (cache_world w)"

text \<open>
  The changes the program and its surroundings may make: nothing that was sent is taken back, no
  weighing is lost or altered, and nothing is marked that was not acknowledged.
\<close>

definition node_rel :: "'m node_libs \<Rightarrow> stores world \<Rightarrow> stores world \<Rightarrow> bool" where
  "node_rel L w w' \<longleftrightarrow>
     same_env w w' \<and> cache_grows (acked (nl_local L) w') (node_cache L w) (node_cache L w') \<and>
     rows_grow (acked_serial (nl_sql L) w') (node_rows w) (node_rows w')"

lemma over_self [simp]: "over (source_of w) w = w"
  by (simp add: over_def)

lemma over_over [simp]: "over s (over t w) = over s w"
  by (simp add: over_def)

lemma over_sel [simp]:
  "source_of (over s w) = s" "wall (over s w) = wall w" "sent (over s w) = sent w"
  by (simp_all add: over_def)

lemma cache_world_over [simp]: "cache_world (over s w) = over (cache_db s) w"
  by (simp add: cache_world_def)

lemma server_world_over [simp]: "server_world (over s w) = over (weigh_server s) w"
  by (simp add: server_world_def)

lemma node_rows_eq: "node_rows w = weight_rows (weigh_server (source_of w))"
  by (simp add: node_rows_def server_world_def world_rows_def)

lemma node_cache_eq: "node_cache L w = cache_map (lib_codec (nl_local L)) (cache_db (source_of w))"
  by (simp add: node_cache_def cache_world_def world_cache_def)

lemma node_ok_eq:
  "node_ok L w \<longleftrightarrow>
     codec_laws (lib_codec (nl_local L)) \<and> asc_ordering row_measured_at (lib_order (nl_local L)) \<and>
     sql_source (sq_env (nl_sql L)) \<and> (\<forall>t. rfc3339_range (wall w t)) \<and>
     db_wf (lib_codec (nl_local L)) (cache_db (source_of w))"
  by (simp add: node_ok_def world_ok_def wall_ok_def cache_world_def)

lemma node_rel_refl [simp]: "node_rel L w w"
  by (simp add: node_rel_def)

lemma node_rel_trans:
  assumes "node_rel L w1 w2" and "node_rel L w2 w3"
  shows "node_rel L w1 w3"
proof -
  have e: "same_env w2 w3" using assms(2) by (simp add: node_rel_def)
  show ?thesis
    unfolding node_rel_def
  proof (intro conjI)
    show "same_env w1 w3" using assms same_env_trans by (auto simp: node_rel_def)
    show "cache_grows (acked (nl_local L) w3) (node_cache L w1) (node_cache L w3)"
      by (rule cache_grows_trans [of _ _ "node_cache L w2", OF _ _ acked_mono [OF e]])
        (use assms in \<open>simp_all add: node_rel_def\<close>)
    show "rows_grow (acked_serial (nl_sql L) w3) (node_rows w1) (node_rows w3)"
      by (rule rows_grow_trans [of _ _ "node_rows w2", OF _ _ acked_serial_mono [OF e]])
        (use assms in \<open>simp_all add: node_rel_def\<close>)
  qed
qed

text \<open>A change of the cache that keeps its records.\<close>

lemma node_rel_set_cache:
  "cache_map (lib_codec (nl_local L)) db = node_cache L w \<Longrightarrow> node_rel L w (set_cache db w)"
  by (simp add: node_rel_def node_cache_eq node_rows_eq set_cache_def)

lemma cycle_marks_same: "cycle_mark\<^sup>*\<^sup>* r r' \<Longrightarrow> same_measurement r' r"
  by (induction rule: rtranclp_induct)
    (auto simp: cycle_mark_def intro: same_measurement_trans)

lemma app_engine_returns: "\<exists>x w'. app_engine_sync_once L e w = Some (x, w')"
proof (cases e)
  case (Local le)
  then show ?thesis
    using sync_once_returns [of "nl_local L" le "cache_world w"] by (auto simp: app_engine_sync_once_def)
next
  case (SqlServer se)
  then show ?thesis
    using sqlserver_sync_once_returns_aux [of "nl_sql L" se "server_world w"]
    by (auto simp: app_engine_sync_once_def)
qed

section \<open>Building and starting\<close>

lemma db_connect_world:
  assumes "db_connect L cfg w = (x, w')"
  shows "sent w' = sent w" and "weigh_server (source_of w') = weigh_server (source_of w)"
    and "is_ok x \<Longrightarrow> {''weighing_records'', ''idx_weighing_records_status_time'', ''inbound_payloads''}
      \<subseteq> set (schema (cache_db (source_of w')))"
    and "node_ok L w \<Longrightarrow> node_ok L w' \<and> node_rel L w w'"
proof -
  obtain db where c: "connect (nl_parent L) (nl_fs_fault L) (nl_open_db L) (database_section cfg)
      (cache_db (source_of w)) = (x, db)" and w': "w' = set_cache db w"
    using assms by (auto simp: db_connect_def split: prod.splits)
  note o = connect_outcome [OF c]
  show "sent w' = sent w" "weigh_server (source_of w') = weigh_server (source_of w)"
    by (simp_all add: w' set_cache_def)
  show "{''weighing_records'', ''idx_weighing_records_status_time'', ''inbound_payloads''}
      \<subseteq> set (schema (cache_db (source_of w')))" if "is_ok x"
    using o that by (simp add: w' set_cache_def)
  show "node_ok L w' \<and> node_rel L w w'" if "node_ok L w"
    using connect_keeps_wf [OF c] that node_rel_set_cache [of L db w]
    by (simp add: w' node_ok_eq node_cache_eq) (simp add: set_cache_def)
qed

lemma db_connect_records:
  assumes "db_connect L cfg w = (x, w')"
  shows "weighing_records (cache_db (source_of w')) = weighing_records (cache_db (source_of w))"
  using assms connect_outcome by (auto simp: db_connect_def set_cache_def split: prod.splits)

lemma build_engine_Ok:
  assumes "build_engine L path w = (Ok (cfg, engine), w')"
  shows "load (nl_build L) path = Ok cfg \<and>
    (case engine of
       SqlServer e \<Rightarrow> eq_ignore_ascii_case (sync_source (sync cfg)) ''sqlserver'' \<and> w' = w \<and>
         source_new (sqlserver cfg) = Ok (sq_source e) \<and> sq_api e = api cfg \<and> sq_sync e = sync cfg
     | Local e \<Rightarrow> \<not> eq_ignore_ascii_case (sync_source (sync cfg)) ''sqlserver'' \<and>
         db_connect L cfg w = (Ok (), w') \<and> engine_api e = api cfg \<and> engine_sync e = sync cfg)"
  using assms
  by (auto simp: build_engine_def load_config_def result_simps sqlserver_engine_new_def
      sync_engine_new_def split: if_splits)

lemma build_engine_node:
  assumes "build_engine L path w = (x, w')" and "node_ok L w"
  shows "node_ok L w' \<and> node_rel L w w'"
proof (cases "load_config L path")
  case (Err e)
  then show ?thesis using assms node_rel_refl by (auto simp: build_engine_def)
next
  case (Ok cfg)
  obtain y w1 where c: "db_connect L cfg w = (y, w1)" by (metis surj_pair)
  have "w' = w \<or> w' = w1"
    using assms(1) Ok c
    by (cases y) (auto simp: build_engine_def try_then_def split: if_splits result.splits)
  then show ?thesis using db_connect_world(4) [OF c assms(2)] assms(2) node_rel_refl by blast
qed

lemma open_persist_pool_node:
  assumes "open_persist_pool L cfg w = (db_pool, w')" and "node_ok L w"
  shows "node_ok L w' \<and> node_rel L w w'"
proof -
  obtain y w1 where c: "db_connect L cfg w = (y, w1)" by (metis surj_pair)
  have "w' = w \<or> w' = w1"
    using assms(1) c by (auto simp: open_persist_pool_def split: if_splits result.splits)
  then show ?thesis using db_connect_world(4) [OF c assms(2)] assms(2) node_rel_refl by blast
qed

lemma start_server_node:
  assumes "start_server L cfg w = (srv, w')" and "node_ok L w"
  shows "node_ok L w' \<and> node_rel L w w'"
proof -
  obtain p w1 where c: "open_persist_pool L cfg w = (p, w1)" by (metis surj_pair)
  have "w' = w \<or> w' = w1"
    using assms(1) c by (auto simp: start_server_def split: if_splits result.splits)
  then show ?thesis using open_persist_pool_node [OF c assms(2)] assms(2) node_rel_refl by blast
qed

lemma start_server_up:
  "fst (start_server L cfg w) \<noteq> None \<longleftrightarrow>
     enabled (server cfg) \<and>
     (\<exists>addr. nl_parse_addr L (bind (server cfg)) = Ok addr \<and> nl_listen L addr = Ok ())"
proof -
  have "is_ok (run_http_server (nl_parse_addr L) (nl_listen L) (server cfg) db) \<longleftrightarrow>
      (\<exists>addr. nl_parse_addr L (bind (server cfg)) = Ok addr \<and> nl_listen L addr = Ok ())" for db
    by (auto simp: run_http_server_def is_ok_iff result_simps Let_def)
  moreover obtain db_pool w2 where "open_persist_pool L cfg w = (db_pool, w2)" by (metis surj_pair)
  moreover have "fst (start_server L cfg w) \<noteq> None \<longleftrightarrow> enabled (server cfg) \<and>
      is_ok (run_http_server (nl_parse_addr L) (nl_listen L) (server cfg) db_pool)"
    using calculation(2)
    by (cases "run_http_server (nl_parse_addr L) (nl_listen L) (server cfg) db_pool")
      (simp_all add: start_server_def)
  ultimately show ?thesis by simp
qed

lemma start_cycle_returns: "\<exists>x w'. start_cycle L cfg engine w = Some (x, w')"
  using app_engine_returns [of L engine w] by (auto simp: start_cycle_def)

lemma run_daemon_stages:
  assumes "build_engine L path w = (Ok (cfg, engine), w1)"
    and "start_server L cfg w1 = (srv, w2)" and "start_cycle L cfg engine w2 = Some (startup, w3)"
  shows "run_daemon L path w =
    Some (and_then (if nl_cron_feature L then start_scheduler L cfg else Ok ()) (\<lambda>_.
      Ok \<lparr>d_cfg = cfg, d_engine = engine, d_scheduled = nl_cron_feature L,
         d_server = srv, d_startup = startup\<rparr>), w3)"
  using assms by (simp add: run_daemon_def)

lemma run_daemon_cases:
  "(\<exists>e w1. build_engine L path w = (Err e, w1) \<and> run_daemon L path w = Some (Err e, w1)) \<or>
   (\<exists>cfg engine w1 srv w2 startup w3.
      build_engine L path w = (Ok (cfg, engine), w1) \<and> start_server L cfg w1 = (srv, w2) \<and>
      start_cycle L cfg engine w2 = Some (startup, w3) \<and>
      run_daemon L path w =
        Some (and_then (if nl_cron_feature L then start_scheduler L cfg else Ok ()) (\<lambda>_.
          Ok \<lparr>d_cfg = cfg, d_engine = engine, d_scheduled = nl_cron_feature L,
             d_server = srv, d_startup = startup\<rparr>), w3))"
proof -
  obtain b w1 where b: "build_engine L path w = (b, w1)" by (metis surj_pair)
  show ?thesis
  proof (cases b)
    case (Err e)
    then show ?thesis using b by (simp add: run_daemon_def)
  next
    case (Ok ce)
    obtain cfg engine where ce: "ce = (cfg, engine)" by (metis surj_pair)
    obtain srv w2 where s: "start_server L cfg w1 = (srv, w2)" by (metis surj_pair)
    obtain st w3 where "start_cycle L cfg engine w2 = Some (st, w3)" using start_cycle_returns by blast
    with b [unfolded Ok ce] s show ?thesis using run_daemon_stages by blast
  qed
qed

section \<open>Properties\<close>

text \<open>A node for the witnesses: local source, a cycle at start, and a port that is taken.\<close>

definition demo_raw_node :: raw_app where
  "demo_raw_node = demo_raw_app\<lparr>
     raw_server_section := Some \<lparr>raw_enabled = Some True, raw_bind = None, raw_route = None,
       raw_max_body_bytes = None, raw_server_api_key = None, raw_persist = Some True\<rparr>,
     raw_sync_section := Some \<lparr>raw_source = Some ''local'', raw_batch_size = None, raw_cron = None,
       raw_sync_on_start = Some True, raw_retry_initial_delay_ms = None,
       raw_retry_max_delay_ms = None, raw_retry_max_elapsed_seconds = None\<rparr>\<rparr>"

definition demo_node :: "f64 node_libs" where
  "demo_node =
     \<lparr>nl_build = (\<lambda>_. Ok demo_raw_node), nl_parent = (\<lambda>_. None), nl_fs_fault = (\<lambda>_. None),
      nl_open_db = (\<lambda>_ _. Ok Sqlite), nl_client = (\<lambda>_. Ok ()), nl_local = demo_libs,
      nl_sql = demo_sql_libs, nl_parse_addr = Ok, nl_listen = (\<lambda>_. Err ''address in use''),
      nl_cron_feature = True, nl_scheduler_new = Ok (), nl_cron_job = (\<lambda>_. Ok ()),
      nl_scheduler_add = Ok (), nl_scheduler_start = Ok ()\<rparr>"

definition demo_node_world :: "stores world" where
  "demo_node_world =
     over \<lparr>cache_db = demo_db, weigh_server = demo_server demo_rows\<rparr> (demo_world (Ok no_content))"

lemma demo_node_ok: "node_ok demo_node demo_node_world"
  using demo_libs_laws demo_sql_laws demo_world_ok [of "Ok no_content"]
  by (simp add: node_ok_def demo_node_def demo_node_world_def)
    (simp add: demo_world_def over_def)

lemma demo_node_loads:
  obtains cfg where "load (nl_build demo_node) path = Ok cfg" and "sync_source (sync cfg) = ''local''"
    and "sync_on_start (sync cfg)" and "enabled (server cfg)"
  by (simp add: demo_node_def load_def de_app_def de_api_def de_sync_def de_server_def demo_raw_node_def
      demo_raw_app_def or_default_def)

lemma demo_node_connects: "is_ok (fst (db_connect demo_node cfg demo_node_world))"
proof -
  have "snd (ensure_sqlite_parent_dir (\<lambda>_. None) (\<lambda>_. None) u) = Ok ()" for u
    by (auto simp: ensure_sqlite_parent_dir_def fs_then_def fs_do_def Let_def split: option.splits)
  moreover have "is_ok (fst (run_migrations Sqlite demo_db))"
    by (simp add: run_migrations_def execute_sql_def sql_exec_def create_if_not_exists_def
        with_context_def demo_db_def)
  ultimately show ?thesis
    by (cases "run_migrations Sqlite demo_db")
      (simp add: db_connect_def connect_def demo_node_def demo_node_world_def)
qed

lemma demo_node_builds:
  obtains cfg e w1 where "build_engine demo_node path demo_node_world = (Ok (cfg, Local e), w1)"
    and "sync_on_start (sync cfg)" and "enabled (server cfg)"
proof -
  obtain cfg where l: "load (nl_build demo_node) path = Ok cfg" "sync_source (sync cfg) = ''local''"
    "sync_on_start (sync cfg)" "enabled (server cfg)"
    by (rule demo_node_loads)
  have ne: "\<not> eq_ignore_ascii_case ''local'' ''sqlserver''" by code_simp
  obtain w1 where "db_connect demo_node cfg demo_node_world = (Ok (), w1)"
    using demo_node_connects [of cfg] by (metis is_ok_iff old.unit.exhaust prod.collapse)
  moreover have "nl_client demo_node d = Ok ()" for d by (simp add: demo_node_def)
  ultimately have "\<exists>e. build_engine demo_node path demo_node_world = (Ok (cfg, Local e), w1)"
    using l(1, 2) ne by (simp add: build_engine_def load_config_def sync_engine_new_def)
  then show thesis using that l(3, 4) by blast
qed

lemma demo_node_runs:
  obtains d w1 where "run_daemon demo_node path demo_node_world = Some (Ok d, w1)"
proof -
  obtain cfg e w1 where b: "build_engine demo_node path demo_node_world = (Ok (cfg, Local e), w1)"
    by (rule demo_node_builds)
  obtain srv w2 where s: "start_server demo_node cfg w1 = (srv, w2)" by (metis surj_pair)
  obtain st w3 where "start_cycle demo_node cfg (Local e) w2 = Some (st, w3)"
    using start_cycle_returns by blast
  note r = run_daemon_stages [OF b s this]
  have "(if nl_cron_feature demo_node then start_scheduler demo_node cfg else Ok ()) = Ok ()"
    by (simp add: start_scheduler_def demo_node_def)
  then show thesis using that r by (simp only: and_then_simps)
qed

text \<open>
  C15: a cycle always ends. Whichever engine it is, whatever the endpoint answers, however long it
  takes, whichever statements and connections fail, whatever the stores hold and whatever the
  configuration says, \<open>sync_once\<close> returns.
\<close>

theorem cycle_returns: "\<exists>x w'. app_engine_sync_once L e w = Some (x, w')"
  by (rule app_engine_returns)

text \<open>
  C22: what can stop the start of the daemon and what cannot. Starting always ends. It fails exactly
  when the configuration, the engine or the scheduler cannot be set up; a server that cannot bind its
  address, a persistence database that cannot be opened and a failed cycle at start do not stop it.
  The server is up exactly when it is enabled and its address can be parsed and bound, and a
  cycle ran at start exactly when that is configured.
\<close>

theorem startup_survives:
  "\<exists>x w'. run_daemon L path w = Some (x, w') \<and>
     (case fst (build_engine L path w) of
        Err e \<Rightarrow> x = Err e
      | Ok (cfg, engine) \<Rightarrow>
          (is_ok x \<longleftrightarrow> \<not> nl_cron_feature L \<or> is_ok (start_scheduler L cfg)) \<and>
          (\<forall>d. x = Ok d \<longrightarrow>
             d_engine d = engine \<and> d_scheduled d = nl_cron_feature L \<and>
             (d_startup d \<noteq> None \<longleftrightarrow> sync_on_start (sync cfg)) \<and>
             (d_server d \<noteq> None \<longleftrightarrow> enabled (server cfg) \<and>
               (\<exists>addr. nl_parse_addr L (bind (server cfg)) = Ok addr \<and> nl_listen L addr = Ok ()))))"
  using run_daemon_cases [of L path w]
proof (elim disjE exE conjE)
  fix e w1 assume "build_engine L path w = (Err e, w1)" "run_daemon L path w = Some (Err e, w1)"
  then show ?thesis by simp
next
  fix cfg engine w1 srv w2 startup w3
  assume b: "build_engine L path w = (Ok (cfg, engine), w1)"
    and s: "start_server L cfg w1 = (srv, w2)" and c: "start_cycle L cfg engine w2 = Some (startup, w3)"
    and r: "run_daemon L path w =
      Some (and_then (if nl_cron_feature L then start_scheduler L cfg else Ok ()) (\<lambda>_.
        Ok \<lparr>d_cfg = cfg, d_engine = engine, d_scheduled = nl_cron_feature L,
           d_server = srv, d_startup = startup\<rparr>), w3)"
  have "startup \<noteq> None \<longleftrightarrow> sync_on_start (sync cfg)"
    using c by (auto simp: start_cycle_def split: if_splits)
  moreover have "srv \<noteq> None \<longleftrightarrow> enabled (server cfg) \<and>
      (\<exists>addr. nl_parse_addr L (bind (server cfg)) = Ok addr \<and> nl_listen L addr = Ok ())"
    using start_server_up [of L cfg w1] s by simp
  ultimately show ?thesis using b r by (auto simp: is_ok_iff and_then_Ok_iff)
qed

theorem startup_survives_witness:
  "\<exists>d w'. run_daemon demo_node ''config/default.toml'' demo_node_world = Some (Ok d, w') \<and>
     d_server d = None \<and> d_startup d \<noteq> None \<and> d_scheduled d"
proof -
  let ?p = "''config/default.toml''"
  obtain cfg e w1 where b: "build_engine demo_node ?p demo_node_world = (Ok (cfg, Local e), w1)"
    and on: "sync_on_start (sync cfg)" by (rule demo_node_builds)
  have "nl_cron_feature demo_node" "start_scheduler demo_node cfg = Ok ()" "\<And>a. nl_listen demo_node a \<noteq> Ok ()"
    by (simp_all add: demo_node_def start_scheduler_def)
  then show ?thesis
    using startup_survives [of demo_node ?p demo_node_world] b on by (auto simp: is_ok_iff)
qed

text \<open>
  C33: the engine that is built is the one the configuration names. The source \<open>sqlserver\<close>, in any
  case of letters, gives the SQL Server engine, and only with settings that pass the checks; it is
  built without touching anything. Every other source gives the local engine over a cache in which
  the tables exist. Nothing is sent and no row of either store changes.
\<close>

theorem build_engine_selects:
  assumes "build_engine L path w = (Ok (cfg, engine), w')"
  shows "load (nl_build L) path = Ok cfg \<and> sent w' = sent w \<and> node_rows w' = node_rows w \<and>
    weighing_records (cache_db (source_of w')) = weighing_records (cache_db (source_of w)) \<and>
    (if eq_ignore_ascii_case (sync_source (sync cfg)) ''sqlserver''
     then (\<exists>e. engine = SqlServer e \<and> w' = w \<and> is_ok (validate (sqlserver cfg)) \<and>
       src_cfg (sq_source e) = sqlserver cfg \<and> sq_api e = api cfg \<and> sq_sync e = sync cfg)
     else (\<exists>e. engine = Local e \<and> engine_api e = api cfg \<and> engine_sync e = sync cfg \<and>
       {''weighing_records'', ''idx_weighing_records_status_time'', ''inbound_payloads''}
         \<subseteq> set (schema (cache_db (source_of w')))))"
proof (cases engine)
  case (SqlServer e)
  then have b: "load (nl_build L) path = Ok cfg" "w' = w"
    "eq_ignore_ascii_case (sync_source (sync cfg)) ''sqlserver''"
    "source_new (sqlserver cfg) = Ok (sq_source e)" "sq_api e = api cfg" "sq_sync e = sync cfg"
    using build_engine_Ok [OF assms] by auto
  have "validate (sqlserver cfg) = Ok ()" "sq_source e = \<lparr>src_cfg = sqlserver cfg\<rparr>"
    using b(4) by (auto simp: source_new_def and_then_Ok_iff)
  then show ?thesis using b SqlServer by simp
next
  case (Local e)
  then have l: "load (nl_build L) path = Ok cfg" "db_connect L cfg w = (Ok (), w')"
    "\<not> eq_ignore_ascii_case (sync_source (sync cfg)) ''sqlserver''"
    "engine_api e = api cfg" "engine_sync e = sync cfg"
    using build_engine_Ok [OF assms] by auto
  show ?thesis
    using l Local db_connect_world(1-3) [OF l(2)] db_connect_records [OF l(2)]
    by (simp add: node_rows_eq)
qed

theorem build_engine_selects_witness:
  "\<exists>cfg engine w'. build_engine demo_node ''config/default.toml'' demo_node_world = (Ok (cfg, engine), w') \<and>
     sent w' = [] \<and> node_rows w' = demo_rows"
proof -
  obtain cfg e w1 where b: "build_engine demo_node ''config/default.toml'' demo_node_world =
      (Ok (cfg, Local e), w1)" by (rule demo_node_builds)
  have "sent demo_node_world = []" "node_rows demo_node_world = demo_rows"
    by (simp_all add: demo_node_world_def demo_world_def node_rows_eq demo_server_def)
  then show ?thesis using build_engine_selects [OF b] b by auto
qed

text \<open>
  In a build without Windows support the four commands that change the platform fail with their
  message, the status command succeeds, and nothing changes.
\<close>

lemma commands_off_windows:
  "cli_command args = Some InstallService \<Longrightarrow>
     main_run L False win args w p = Some (Err (Msg (SERVICE_NAME @
       '' service installation requires Windows target and the `windows` feature'')), w, p)"
  "cli_command args = Some UninstallService \<Longrightarrow>
     main_run L False win args w p = Some (Err (Msg (SERVICE_NAME @
       '' service uninstallation requires Windows target and the `windows` feature'')), w, p)"
  "cli_command args \<in> {Some EnableAutostart, Some DisableAutostart} \<Longrightarrow>
     main_run L False win args w p = Some (Err (Msg (RUN_VALUE_NAME @
       '' autostart requires Windows target and the `windows` feature'')), w, p)"
  "cli_command args = Some AutostartStatus \<Longrightarrow>
     main_run L False win args w p = Some (Ok Finished, w, p)"
  by (auto simp: main_run_def install_service_stub_def uninstall_service_stub_def
      enable_autostart_stub_def disable_autostart_stub_def is_autostart_enabled_stub_def)

end
