(* ===== verification/Requests.thy ===== *)
theory Requests
  imports Daemon
begin

text \<open>
  What a cycle sends: one batch, however often it has to be tried. Every request of a cycle is the
  upload of the one batch it fetched, which consists of records (rows) that were pending.
\<close>

section \<open>Requests under retries\<close>

text \<open>The requests between two worlds, all of them satisfying \<open>P\<close>.\<close>

definition sends :: "(http_request \<Rightarrow> bool) \<Rightarrow> 's world \<Rightarrow> 't world \<Rightarrow> bool" where
  "sends P w w' \<longleftrightarrow> (\<exists>rqs. sent w' = sent w @ rqs \<and> (\<forall>rq \<in> set rqs. P rq))"

lemma sends_none [simp]: "sent w' = sent w \<Longrightarrow> sends P w w'"
  by (simp add: sends_def)

lemma sends_trans: "sends P w1 w2 \<Longrightarrow> sends P w2 w3 \<Longrightarrow> sends P w1 w3"
  by (fastforce simp: sends_def)

lemma on_source_sent: "on_source f w = (x, w') \<Longrightarrow> sent w' = sent w"
  by (auto simp: on_source_iff)

lemma http_send_sends: "http_send rq w = (x, w') \<Longrightarrow> P rq \<Longrightarrow> sends P w w'"
  by (auto simp: http_send_def sends_def Let_def split: result.splits)

lemma exec_sends:
  assumes up: "\<And>w x w'. up w = (x, w') \<Longrightarrow> sends P w w'"
    and "retry_exec clock sleep up log_retry s md me d w ds r w'"
  shows "sends P w w'"
  using assms(2)
proof (induction rule: retry_exec.induct)
  case (again w e w1 t delay ds r w2)
  have "sends P w1 (sleep t (log_retry e t w1))" by (simp add: sleep_def log_retry_def)
  then show ?case using up [OF again.hyps(1)] again.IH sends_trans by blast
qed (use up in blast)+

lemma batch_upload_requests:
  assumes "upload_batch L e rs w = (x, w')"
  shows "sends (\<lambda>rq. \<exists>t. batch_request L e rs t = Ok rq) w w'"
proof (cases "batch_request L e rs (utc_now w)")
  case (Err m)
  then show ?thesis using assms by (simp add: upload_batch_request)
next
  case (Ok rq)
  obtain y w1 where s: "http_send rq w = (y, w1)" by (metis surj_pair)
  have "w' = w1" using assms Ok s by (cases y) (simp_all add: upload_batch_request)
  moreover have "sends (\<lambda>rq. \<exists>t. batch_request L e rs t = Ok rq) w w1"
    by (rule http_send_sends [OF s]) (use Ok in blast)
  ultimately show ?thesis by simp
qed

lemma row_upload_requests:
  assumes "sqlserver_upload_batch L e rs w = (x, w')"
  shows "sends (\<lambda>rq. \<exists>t. rows_request L e rs t = Ok rq) w w'"
proof (cases "rows_request L e rs (utc_now w)")
  case (Err m)
  then show ?thesis using assms by (simp add: sqlserver_upload_batch_request)
next
  case (Ok rq)
  obtain y w1 where s: "http_send rq w = (y, w1)" by (metis surj_pair)
  have "w' = w1" using assms Ok s by (cases y) (simp_all add: sqlserver_upload_batch_request)
  moreover have "sends (\<lambda>rq. \<exists>t. rows_request L e rs t = Ok rq) w w1"
    by (rule http_send_sends [OF s]) (use Ok in blast)
  ultimately show ?thesis by simp
qed

section \<open>Requests of a cycle\<close>

lemma write_back_sent: "write_back L rs response w = (x, w') \<Longrightarrow> sent w' = sent w"
  by (auto simp: write_back_def Let_def try_then_def dest!: on_source_sent
      split: prod.splits result.splits if_splits)

lemma sync_once_sends:
  assumes run: "sync_once L e w = Some (x, w')"
    and f: "on_source (fetch_pending (lib_codec L) (lib_order L) (batch_size (engine_sync e))) w = (y, w1)"
  shows "case y of
      Ok rs \<Rightarrow> if rs = [] then sent w' = sent w else sends (\<lambda>rq. \<exists>t. batch_request L e rs t = Ok rq) w w'
    | Err _ \<Rightarrow> sent w' = sent w"
proof (cases "\<exists>rs. y = Ok rs \<and> rs \<noteq> []")
  case False
  then show ?thesis using run f on_source_sent [OF f] by (cases y) (auto simp: sync_once_def)
next
  case True
  then obtain rs where y: "y = Ok rs" and ne: "rs \<noteq> []" by blast
  let ?P = "\<lambda>rq. \<exists>t. batch_request L e rs t = Ok rq"
  obtain z w2 where r: "retry_transient clock sleep (retry_initial_delay (engine_sync e))
      (retry_max_delay (engine_sync e)) (retry_max_elapsed (engine_sync e))
      (upload_batch L e rs) log_retry w1 = Some (z, w2)" using batch_upload.retry_returns by blast
  have "sends ?P w1 w2"
    using r exec_sends [of "upload_batch L e rs" ?P] batch_upload_requests
    unfolding batch_upload.retrying.transient_iff_exec by blast
  moreover have "sent w' = sent w2"
    using run f y ne r write_back_sent
    by (cases z) (auto simp: sync_once_def try_then_def dest!: on_source_sent split: prod.splits result.splits)
  ultimately show ?thesis using y ne on_source_sent [OF f] by (simp add: sends_def)
qed

lemma sqlserver_sync_once_sends:
  assumes run: "sqlserver_sync_once L e w = Some (x, w')"
    and f: "on_source (source_fetch_pending (sq_env L) (sq_source e) (batch_size (sq_sync e))) w = (y, w1)"
  shows "case y of
      Ok rs \<Rightarrow> if rs = [] then sent w' = sent w
        else sends (\<lambda>rq. \<exists>t. rows_request L e (map sw_data rs) t = Ok rq) w w'
    | Err _ \<Rightarrow> sent w' = sent w"
proof (cases "\<exists>rs. y = Ok rs \<and> rs \<noteq> []")
  case False
  then show ?thesis using run f on_source_sent [OF f] by (cases y) (auto simp: sqlserver_sync_once_def)
next
  case True
  then obtain rs where y: "y = Ok rs" and ne: "rs \<noteq> []" by blast
  let ?P = "\<lambda>rq. \<exists>t. rows_request L e (map sw_data rs) t = Ok rq"
  obtain z w2 where r: "retry_transient clock sleep (retry_initial_delay (sq_sync e))
      (retry_max_delay (sq_sync e)) (retry_max_elapsed (sq_sync e))
      (sqlserver_upload_batch L e (map sw_data rs)) log_retry w1 = Some (z, w2)"
    using row_upload.retry_returns by blast
  have "sends ?P w1 w2"
    using r exec_sends [of "sqlserver_upload_batch L e (map sw_data rs)" ?P] row_upload_requests
    unfolding row_upload.retrying.transient_iff_exec by blast
  moreover have "sent w' = sent w2"
  proof (cases z)
    case (Err m)
    then show ?thesis using sync_once_not_answered [of L e w rs w1] run f y ne r by auto
  next
    case (Ok response)
    then have "mark_and_report L e (map sw_serial_no rs) response w2 = (x, w')"
      using sync_once_answered [of L e w rs w1] run f y ne r by auto
    then show ?thesis by (auto simp: mark_and_report_def try_then_def dest!: on_source_sent
        split: prod.splits result.splits)
  qed
  ultimately show ?thesis using y ne on_source_sent [OF f] by (simp add: sends_def)
qed

text \<open>The requests of an engine for one batch of its store.\<close>

definition one_batch :: "'m node_libs \<Rightarrow> app_engine \<Rightarrow> stores world \<Rightarrow> http_request set \<Rightarrow> bool" where
  "one_batch L engine w rqs \<longleftrightarrow>
     (case engine of
        Local e \<Rightarrow>
          (\<exists>rs. pending_batch (unat (batch_size (engine_sync e))) (node_cache L w) rs \<and>
             (\<forall>rq \<in> rqs. \<exists>t. batch_request (nl_local L) e rs t = Ok rq))
      | SqlServer e \<Rightarrow>
          (\<exists>rs :: sqlserver_weight_record list.
             row_batch (unat (batch_size (sq_sync e))) (node_rows w) (map sw_serial_no rs) \<and>
             (\<forall>rq \<in> rqs. \<exists>t. rows_request (nl_sql L) e (map sw_data rs) t = Ok rq)))"

lemma cycle_sends:
  assumes ok: "node_ok L w" and run: "app_engine_sync_once L engine w = Some (x, w')"
  shows "\<exists>rqs. sent w' = sent w @ rqs \<and> (rqs = [] \<or> one_batch L engine w (set rqs))"
proof (cases engine)
  case (Local e)
  then obtain w1 where r: "sync_once (nl_local L) e (cache_world w) = Some (x, w1)" and w': "sent w' = sent w1"
    using run by (auto simp: app_engine_sync_once_def)
  have s0: "sent (cache_world w) = sent w" by (simp add: cache_world_def)
  obtain y w2 where f: "on_source (fetch_pending (lib_codec (nl_local L)) (lib_order (nl_local L))
      (batch_size (engine_sync e))) (cache_world w) = (y, w2)" by (metis surj_pair)
  have "local_engine (nl_local L)" "world_ok (lib_codec (nl_local L)) (cache_world w)"
    using ok by (auto simp: node_ok_def intro: local_engine_laws)
  note b = local_engine.fetch_in_world(4) [OF this f]
  show ?thesis
    using sync_once_sends [OF r f] b w' s0
    by (cases y) (auto simp: Local sends_def one_batch_def node_cache_def split: if_splits)
next
  case (SqlServer e)
  then obtain w1 where r: "sqlserver_sync_once (nl_sql L) e (server_world w) = Some (x, w1)"
    and w': "sent w' = sent w1"
    using run by (auto simp: app_engine_sync_once_def)
  have s0: "sent (server_world w) = sent w" by (simp add: server_world_def)
  obtain y w2 where f: "on_source (source_fetch_pending (sq_env (nl_sql L)) (sq_source e)
      (batch_size (sq_sync e))) (server_world w) = (y, w2)" by (metis surj_pair)
  have "sql_engine (nl_sql L)" using ok by (auto simp: node_ok_def intro: sql_engine.intro)
  note b = sql_engine.fetch_in_world [OF this f]
  show ?thesis
    using sqlserver_sync_once_sends [OF r f] b w' s0
    by (cases y) (auto simp: SqlServer sends_def one_batch_def node_rows_def split: if_splits)
qed

section \<open>Property\<close>



end
