(* ===== verification/Processes.thy ===== *)
theory Processes
  imports Daemon
begin

text \<open>
  Processes of the program on one machine, step by step: daemons with their start-up cycle, their
  scheduled jobs under the mutex and their receive server (\<open>run_daemon\<close>, \<open>start_scheduler\<close>),
  \<open>sync-now\<close> commands and servers. They share the stores, take turns between the awaits of a cycle
  (\<open>Cycle_Steps\<close>), are launched and killed at any time, and between their steps weighings are
  stored by others.
\<close>

section \<open>A cycle of either engine in steps\<close>

datatype cycle_phase = Local_phase local_phase | Sql_phase sql_phase

definition cycle_start :: "app_engine \<Rightarrow> cycle_phase" where
  "cycle_start engine =
     (case engine of Local _ \<Rightarrow> Local_phase L_Fetch | SqlServer _ \<Rightarrow> Sql_phase S_Fetch)"

text \<open>The world after an engine has worked on one of the stores.\<close>

definition with_cache :: "stores world \<Rightarrow> sqlite world \<Rightarrow> stores world" where
  "with_cache w w1 = over ((source_of w)\<lparr>cache_db := source_of w1\<rparr>) w1"

definition with_server :: "stores world \<Rightarrow> sql_server world \<Rightarrow> stores world" where
  "with_server w w1 = over ((source_of w)\<lparr>weigh_server := source_of w1\<rparr>) w1"

fun cycle_step ::
  "'m node_libs \<Rightarrow> app_engine \<Rightarrow> cycle_phase \<times> stores world \<Rightarrow> cycle_phase \<times> stores world" where
  "cycle_step L (Local e) (Local_phase p, w) =
     (case local_step (nl_local L) e (p, cache_world w) of (p1, w1) \<Rightarrow> (Local_phase p1, with_cache w w1))"
| "cycle_step L (SqlServer e) (Sql_phase p, w) =
     (case sql_step (nl_sql L) e (p, server_world w) of (p1, w1) \<Rightarrow> (Sql_phase p1, with_server w w1))"
| "cycle_step L (Local e) (Sql_phase p, w) = (Sql_phase p, w)"
| "cycle_step L (SqlServer e) (Local_phase p, w) = (Local_phase p, w)"

fun cycle_result :: "cycle_phase \<Rightarrow> (sync_outcome, anyhow) result option" where
  "cycle_result (Local_phase p) = local_result p"
| "cycle_result (Sql_phase p) = sql_result p"

section \<open>Daemons\<close>

text \<open>
  A daemon after the engine is built and the server task is spawned: first the start-up cycle if
  there is one, then the scheduler is set up. Each tick of the cron expression spawns a job,
  numbered in the order of the ticks. A job locks the mutex around the engine, for which the
  waiting jobs queue in order, runs its cycle and releases the mutex; the result is only logged.
\<close>

datatype stage = Starting "cycle_phase option" | Ready

record daemon_state =
  ds_cfg :: app_config
  ds_engine :: app_engine
  ds_server :: "http_server option"
  ds_startup :: "(sync_outcome, anyhow) result option"
  ds_stage :: stage
  ds_next :: nat
  ds_waiting :: "nat list"
  ds_running :: "(nat \<times> cycle_phase) option"
  ds_done :: "(nat \<times> (sync_outcome, anyhow) result) list"

definition daemon_boot :: "app_config \<Rightarrow> app_engine \<Rightarrow> http_server option \<Rightarrow> daemon_state" where
  "daemon_boot cfg engine srv =
     \<lparr>ds_cfg = cfg, ds_engine = engine, ds_server = srv, ds_startup = None,
      ds_stage = Starting (if sync_on_start (sync cfg) then Some (cycle_start engine) else None),
      ds_next = 0, ds_waiting = [], ds_running = None, ds_done = []\<rparr>"

text \<open>The server's pool, if it has one, is a pool on the shared database.\<close>

definition answer_request ::
  "server_lib \<Rightarrow> http_server \<Rightarrow> uuid \<Rightarrow> headers \<Rightarrow> json \<Rightarrow> stores world \<Rightarrow>
   (status_code \<times> json) \<times> http_server \<times> stores world" where
  "answer_request lib srv request_id hs payload w =
     (case put_weighing_data lib
         ((srv_state srv)\<lparr>state_db := map_option (\<lambda>_. cache_db (source_of w)) (state_db (srv_state srv))\<rparr>)
         request_id (utc_now w) hs payload of
        (reply, st) \<Rightarrow>
          (reply, srv\<lparr>srv_state := st\<rparr>,
           case state_db st of Some db \<Rightarrow> set_cache db w | None \<Rightarrow> w))"

definition scheduler_ready :: "'m node_libs \<Rightarrow> app_config \<Rightarrow> bool" where
  "scheduler_ready L cfg \<longleftrightarrow> \<not> nl_cron_feature L \<or> is_ok (start_scheduler L cfg)"

inductive daemon_step ::
  "'m node_libs \<Rightarrow> server_lib \<Rightarrow> daemon_state \<times> stores world \<Rightarrow> daemon_state \<times> stores world \<Rightarrow> bool"
  for L lib where
  starting: "ds_stage d = Starting (Some p) \<Longrightarrow> cycle_result p = None \<Longrightarrow>
     cycle_step L (ds_engine d) (p, w) = (p', w') \<Longrightarrow>
     daemon_step L lib (d, w) (d\<lparr>ds_stage := Starting (Some p')\<rparr>, w')"
| started: "ds_stage d = Starting (Some p) \<Longrightarrow> cycle_result p = Some x \<Longrightarrow>
     daemon_step L lib (d, w) (d\<lparr>ds_stage := Starting None, ds_startup := Some x\<rparr>, w)"
| ready: "ds_stage d = Starting None \<Longrightarrow> scheduler_ready L (ds_cfg d) \<Longrightarrow>
     daemon_step L lib (d, w) (d\<lparr>ds_stage := Ready\<rparr>, w)"
| tick: "ds_stage d = Ready \<Longrightarrow> nl_cron_feature L \<Longrightarrow>
     daemon_step L lib (d, w)
       (d\<lparr>ds_next := Suc (ds_next d), ds_waiting := ds_waiting d @ [ds_next d]\<rparr>, w)"
| lock: "ds_running d = None \<Longrightarrow> ds_waiting d = j # js \<Longrightarrow>
     daemon_step L lib (d, w)
       (d\<lparr>ds_waiting := js, ds_running := Some (j, cycle_start (ds_engine d))\<rparr>, w)"
| work: "ds_running d = Some (j, p) \<Longrightarrow> cycle_result p = None \<Longrightarrow>
     cycle_step L (ds_engine d) (p, w) = (p', w') \<Longrightarrow>
     daemon_step L lib (d, w) (d\<lparr>ds_running := Some (j, p')\<rparr>, w')"
| finish: "ds_running d = Some (j, p) \<Longrightarrow> cycle_result p = Some x \<Longrightarrow>
     daemon_step L lib (d, w) (d\<lparr>ds_running := None, ds_done := ds_done d @ [(j, x)]\<rparr>, w)"
| receive: "ds_server d = Some srv \<Longrightarrow>
     answer_request lib srv request_id hs payload w = (reply, srv', w') \<Longrightarrow>
     daemon_step L lib (d, w) (d\<lparr>ds_server := Some srv'\<rparr>, w')"

section \<open>Processes and the machine\<close>

datatype process =
    Daemon_p daemon_state
  | Sync_now_p app_engine cycle_phase
  | Serve_p http_server

text \<open>
  What launching a command leaves: the process, if it came up, and the stores. The commands for
  Windows touch neither.
\<close>

definition launch ::
  "'m node_libs \<Rightarrow> command \<Rightarrow> string \<Rightarrow> stores world \<Rightarrow> process option \<times> stores world" where
  "launch L cmd path w =
     (case cmd of
        Run \<Rightarrow>
          (case build_engine L path w of
             (Err _, w1) \<Rightarrow> (None, w1)
           | (Ok (cfg, engine), w1) \<Rightarrow>
               (case start_server L cfg w1 of
                  (srv, w2) \<Rightarrow> (Some (Daemon_p (daemon_boot cfg engine srv)), w2)))
      | Serve \<Rightarrow>
          (case serve L path w of
             (Err _, w1) \<Rightarrow> (None, w1) | (Ok srv, w1) \<Rightarrow> (Some (Serve_p srv), w1))
      | SyncNow \<Rightarrow>
          (case build_engine L path w of
             (Err _, w1) \<Rightarrow> (None, w1)
           | (Ok (cfg, engine), w1) \<Rightarrow> (Some (Sync_now_p engine (cycle_start engine)), w1))
      | _ \<Rightarrow> (None, w))"

inductive process_step ::
  "'m node_libs \<Rightarrow> server_lib \<Rightarrow> process \<times> stores world \<Rightarrow> process \<times> stores world \<Rightarrow> bool"
  for L lib where
  daemon: "daemon_step L lib (d, w) (d', w') \<Longrightarrow>
     process_step L lib (Daemon_p d, w) (Daemon_p d', w')"
| sync_now: "cycle_result p = None \<Longrightarrow> cycle_step L e (p, w) = (p', w') \<Longrightarrow>
     process_step L lib (Sync_now_p e p, w) (Sync_now_p e p', w')"
| serve: "answer_request lib srv request_id hs payload w = (reply, srv', w') \<Longrightarrow>
     process_step L lib (Serve_p srv, w) (Serve_p srv', w')"

text \<open>
  What else may happen: time passes, pending weighings are stored in the cache, rows appear in the
  SQL Server table.
\<close>

inductive node_env :: "'m node_libs \<Rightarrow> stores world \<Rightarrow> stores world \<Rightarrow> bool" for L where
  time: "node_env L w (w\<lparr>clock := clock w + n\<rparr>)"
| weighing: "record_times_ok r \<Longrightarrow> rec_status r = Pending \<Longrightarrow>
     insert_record (lib_codec (nl_local L)) r (cache_db (source_of w)) = (x, db) \<Longrightarrow>
     node_env L w (set_cache db w)"
| weighbridge: "node_env L w (w\<lparr>source_of := (source_of w)\<lparr>weigh_server := (weigh_server (source_of w))
     \<lparr>weight_rows := weight_rows (weigh_server (source_of w)) @ [r]\<rparr>\<rparr>\<rparr>)"

text \<open>The machine: the stores and the processes, which end on their own or are killed at any step.\<close>

inductive machine_step ::
  "'m node_libs \<Rightarrow> server_lib \<Rightarrow> stores world \<times> process list \<Rightarrow> stores world \<times> process list \<Rightarrow> bool"
  for L lib where
  launched: "launch L cmd path w = (p, w') \<Longrightarrow>
     machine_step L lib (w, ps) (w', ps @ (case p of Some q \<Rightarrow> [q] | None \<Rightarrow> []))"
| runs: "i < length ps \<Longrightarrow> process_step L lib (ps ! i, w) (p, w') \<Longrightarrow>
     machine_step L lib (w, ps) (w', ps[i := p])"
| ended: "machine_step L lib (w, ps @ p # qs) (w, ps @ qs)"
| elsewhere: "node_env L w w' \<Longrightarrow> machine_step L lib (w, ps) (w', ps)"

inductive_cases daemon_stepE: "daemon_step L lib (d, w) (d', w')"
inductive_cases process_stepE: "process_step L lib (p, w) (p', w')"

section \<open>The engines keep the contract\<close>

lemma was_answered_over [simp]: "was_answered (over s w) = was_answered w"
  by (simp add: was_answered_def over_def fun_eq_iff)

lemma acked_over [simp]: "acked L (over s w) = acked L w" "acked_serial LS (over s w) = acked_serial LS w"
  by (simp_all add: acked_def acked_serial_def fun_eq_iff)

lemma local_inv_over [simp]: "local_inv L p (over s w) = local_inv L p w"
  by (cases p) simp_all

lemma sql_inv_over [simp]: "sql_inv L p (over s w) = sql_inv L p w"
  by (cases p) (simp_all add: serials_acked_def)

lemma same_env_over: "same_env (over s w) w1 \<Longrightarrow> same_env w (over t w1)"
  by (simp add: same_env_def over_def)

lemma with_cache_worlds [simp]:
  "cache_world (with_cache w w1) = w1"
  "weigh_server (source_of (with_cache w w1)) = weigh_server (source_of w)"
  "with_cache (with_cache w w1) w2 = with_cache w w2"
  by (simp_all add: with_cache_def)

lemma with_server_worlds [simp]:
  "server_world (with_server w w1) = w1"
  "cache_db (source_of (with_server w w1)) = cache_db (source_of w)"
  "with_server (with_server w w1) w2 = with_server w w2"
  by (simp_all add: with_server_def)

lemma with_self [simp]: "with_cache w (cache_world w) = w" "with_server w (server_world w) = w"
  by (simp_all add: with_cache_def with_server_def cache_world_def server_world_def)

text \<open>The invariant of a phase, and the phases that belong to an engine and come to an end.\<close>

fun phase_inv :: "'m node_libs \<Rightarrow> cycle_phase \<Rightarrow> stores world \<Rightarrow> bool" where
  "phase_inv L (Local_phase p) w = local_inv (nl_local L) p w"
| "phase_inv L (Sql_phase p) w = sql_inv (nl_sql L) p w"

fun phase_live :: "app_engine \<Rightarrow> cycle_phase \<Rightarrow> bool" where
  "phase_live (Local e) (Local_phase p) = local_live p"
| "phase_live (SqlServer e) (Sql_phase p) = sql_live p"
| "phase_live e p = False"

lemma cycle_start_ok [simp]: "phase_inv L (cycle_start e) w" "phase_live e (cycle_start e)"
  "cycle_result (cycle_start e) = None"
  by (cases e; simp add: cycle_start_def)+

lemma phase_inv_stable: "phase_inv L p w \<Longrightarrow> node_rel L w w' \<Longrightarrow> phase_inv L p w'"
  by (cases p) (auto simp: node_rel_def intro: local_inv_stable sql_inv_stable)

lemma local_cycle_step_safe:
  assumes ok: "node_ok L w" and inv: "local_inv (nl_local L) p w"
    and st: "local_step (nl_local L) e (p, cache_world w) = (p', w1)"
  shows "node_ok L (with_cache w w1) \<and> node_rel L w (with_cache w w1) \<and>
    local_inv (nl_local L) p' (with_cache w w1)"
proof -
  have "local_engine (nl_local L)" using ok by (auto simp: node_ok_def intro: local_engine_laws)
  moreover have "world_ok (lib_codec (nl_local L)) (cache_world w)" using ok by (simp add: node_ok_def)
  ultimately have r: "world_ok (lib_codec (nl_local L)) w1" "local_rel (nl_local L) (cache_world w) w1"
    "local_inv (nl_local L) p' w1"
    using local_engine.local_step_safe [OF _ _ _ st] inv by (auto simp: cache_world_def)
  have "node_ok L (with_cache w w1)" using r(1) ok by (simp add: node_ok_def)
  moreover have "same_env w (with_cache w w1)"
    using r(2) same_env_over by (auto simp: local_rel_def cache_world_def with_cache_def)
  then have "node_rel L w (with_cache w w1)"
    using r(2) by (simp add: node_rel_def local_rel_def node_cache_def node_rows_eq) (simp add: with_cache_def)
  ultimately show ?thesis using r(3) by (simp add: with_cache_def)
qed

lemma sql_cycle_step_safe:
  assumes ok: "node_ok L w" and inv: "sql_inv (nl_sql L) p w"
    and st: "sql_step (nl_sql L) e (p, server_world w) = (p', w1)"
  shows "node_ok L (with_server w w1) \<and> node_rel L w (with_server w w1) \<and>
    sql_inv (nl_sql L) p' (with_server w w1)"
proof -
  have "sql_engine (nl_sql L)" using ok by (auto simp: node_ok_def intro: sql_engine.intro)
  then have r: "sql_rel (nl_sql L) (server_world w) w1" "sql_inv (nl_sql L) p' w1"
    using sql_step_safe [OF _ _ st] inv by (auto simp: server_world_def)
  have env: "same_env w (with_server w w1)"
    using r(1) same_env_over by (auto simp: sql_rel_def server_world_def with_server_def)
  then have "node_ok L (with_server w w1)" using ok by (simp add: node_ok_eq same_env_def)
  moreover have "node_rel L w (with_server w w1)"
    using r(1) env by (simp add: node_rel_def sql_rel_def node_rows_def node_cache_eq) (simp add: with_server_def)
  ultimately show ?thesis using r(2) by (simp add: with_server_def)
qed

lemma cycle_step_safe:
  assumes "node_ok L w" and "phase_inv L p w" and "cycle_step L e (p, w) = (p', w')"
  shows "node_ok L w' \<and> node_rel L w w' \<and> phase_inv L p' w'"
proof (cases e; cases p)
  fix le q assume e: "e = Local le" "p = Local_phase q"
  obtain q1 w1 where s: "local_step (nl_local L) le (q, cache_world w) = (q1, w1)" by (metis surj_pair)
  then show ?thesis using local_cycle_step_safe [OF assms(1) _ s] assms e by auto
next
  fix se q assume e: "e = SqlServer se" "p = Sql_phase q"
  obtain q1 w1 where s: "sql_step (nl_sql L) se (q, server_world w) = (q1, w1)" by (metis surj_pair)
  then show ?thesis using sql_cycle_step_safe [OF assms(1) _ s] assms e by auto
qed (use assms in auto)

text \<open>Steps of an engine on its store, seen on both stores.\<close>

lemma cycle_steps_local:
  "(cycle_step L (Local e) ^^ n) (Local_phase p, w) =
     (case (local_step (nl_local L) e ^^ n) (p, cache_world w) of
        (p1, w1) \<Rightarrow> (Local_phase p1, with_cache w w1))"
  by (induction n) (auto split: prod.splits)

lemma cycle_steps_sql:
  "(cycle_step L (SqlServer e) ^^ n) (Sql_phase p, w) =
     (case (sql_step (nl_sql L) e ^^ n) (p, server_world w) of
        (p1, w1) \<Rightarrow> (Sql_phase p1, with_server w w1))"
  by (induction n) (auto split: prod.splits)

lemma cycle_step_live:
  assumes "phase_live e p" and "cycle_step L e (p, w) = (p', w')"
  shows "phase_live e p'"
  using assms
  by (cases e; cases p) (auto intro: local_live_step sql_live_step split: prod.splits)

lemma cycle_ends:
  assumes "phase_live e p"
  shows "\<exists>p' w'. reaches (cycle_step L e) (p, w) (p', w') \<and> cycle_result p' \<noteq> None"
proof (cases e; cases p)
  fix le q assume e: "e = Local le" "p = Local_phase q"
  obtain x w1 n where "(local_step (nl_local L) le ^^ n) (q, cache_world w) = (L_Done x, w1)"
    using local_ends [of q "nl_local L" le "cache_world w"] assms e by (auto simp: reaches_def)
  then have "(cycle_step L e ^^ n) (p, w) = (Local_phase (L_Done x), with_cache w w1)"
    by (simp add: e cycle_steps_local)
  then show ?thesis unfolding reaches_def by (metis cycle_result.simps(1) local_result.simps(1) option.distinct(1))
next
  fix se q assume e: "e = SqlServer se" "p = Sql_phase q"
  obtain x w1 n where "(sql_step (nl_sql L) se ^^ n) (q, server_world w) = (S_Done x, w1)"
    using sql_ends [of q "nl_sql L" se "server_world w"] assms e by (auto simp: reaches_def)
  then have "(cycle_step L e ^^ n) (p, w) = (Sql_phase (S_Done x), with_server w w1)"
    by (simp add: e cycle_steps_sql)
  then show ?thesis unfolding reaches_def by (metis cycle_result.simps(2) sql_result.simps(1) option.distinct(1))
qed (use assms in auto)

interpretation node: cycle_task "cycle_step L e" cycle_result "phase_live e" "phase_inv L" "node_ok L"
    "node_rel L"
proof
  show "node_ok L w' \<and> node_rel L w w' \<and> phase_inv L p' w'"
    if "node_ok L w" "phase_inv L p w" "cycle_step L e (p, w) = (p', w')" for p w p' w'
    using cycle_step_safe [OF that] .
  show "phase_inv L p w'" if "phase_inv L p w" "node_rel L w w'" for p w w'
    using phase_inv_stable [OF that] .
  show "phase_live e p'" if "phase_live e p" "cycle_step L e (p, w) = (p', w')" for p w p' w'
    using cycle_step_live [OF that] .
  show "\<exists>p' w'. reaches (cycle_step L e) (p, w) (p', w') \<and> cycle_result p' \<noteq> None"
    if "phase_live e p" for p w
    using cycle_ends [OF that] .
qed

text \<open>Left alone, the steps are the cycle.\<close>

lemma local_reaches_iff:
  "reaches (cycle_step L (Local e)) (Local_phase p, w) (q, w') \<longleftrightarrow>
     (\<exists>p1 w1. q = Local_phase p1 \<and> w' = with_cache w w1 \<and>
        reaches (local_step (nl_local L) e) (p, cache_world w) (p1, w1))"
  by (simp add: reaches_def cycle_steps_local case_prod_beta prod_eq_iff) blast

lemma sql_reaches_iff:
  "reaches (cycle_step L (SqlServer e)) (Sql_phase p, w) (q, w') \<longleftrightarrow>
     (\<exists>p1 w1. q = Sql_phase p1 \<and> w' = with_server w w1 \<and>
        reaches (sql_step (nl_sql L) e) (p, server_world w) (p1, w1))"
  by (simp add: reaches_def cycle_steps_sql case_prod_beta prod_eq_iff) blast

lemma result_Some_iff:
  "local_result p = Some x \<longleftrightarrow> p = L_Done x" "sql_result q = Some x \<longleftrightarrow> q = S_Done x"
  "cycle_result r = Some x \<longleftrightarrow> r = Local_phase (L_Done x) \<or> r = Sql_phase (S_Done x)"
proof -
  show l: "local_result p = Some x \<longleftrightarrow> p = L_Done x" for p by (cases p) auto
  show q: "sql_result q = Some x \<longleftrightarrow> q = S_Done x" for q by (cases q) auto
  show "cycle_result r = Some x \<longleftrightarrow> r = Local_phase (L_Done x) \<or> r = Sql_phase (S_Done x)"
    by (cases r) (auto simp: l q)
qed

lemma app_engine_iff_steps:
  "app_engine_sync_once L e w = Some (x, w') \<longleftrightarrow>
     (\<exists>p. reaches (cycle_step L e) (cycle_start e, w) (p, w') \<and> cycle_result p = Some x)"
proof (cases e)
  case (Local le)
  have "app_engine_sync_once L e w = Some (x, w') \<longleftrightarrow>
      (\<exists>w1. sync_once (nl_local L) le (cache_world w) = Some (x, w1) \<and> w' = with_cache w w1)"
    by (auto simp: app_engine_sync_once_def Local with_cache_def)
  also have "\<dots> \<longleftrightarrow> (\<exists>p. reaches (cycle_step L e) (cycle_start e, w) (p, w') \<and> cycle_result p = Some x)"
    by (auto simp: Local cycle_start_def local_reaches_iff sync_once_iff_steps result_Some_iff)
  finally show ?thesis .
next
  case (SqlServer se)
  have "app_engine_sync_once L e w = Some (x, w') \<longleftrightarrow>
      (\<exists>w1. sqlserver_sync_once (nl_sql L) se (server_world w) = Some (x, w1) \<and> w' = with_server w w1)"
    by (auto simp: app_engine_sync_once_def SqlServer with_server_def)
  also have "\<dots> \<longleftrightarrow> (\<exists>p. reaches (cycle_step L e) (cycle_start e, w) (p, w') \<and> cycle_result p = Some x)"
    by (auto simp: SqlServer cycle_start_def sql_reaches_iff sqlserver_sync_once_iff_steps result_Some_iff)
  finally show ?thesis .
qed

lemma cycle_result_fixed: "cycle_result p = Some x \<Longrightarrow> cycle_step L e (p, w) = (p, w)"
  by (cases e; cases p) (auto simp: result_Some_iff)

section \<open>The stores during any run\<close>

text \<open>The cycles a process has in progress.\<close>

fun cycles_of :: "process \<Rightarrow> cycle_phase list" where
  "cycles_of (Daemon_p d) =
     (case ds_stage d of Starting (Some p) \<Rightarrow> [p] | _ \<Rightarrow> []) @
     (case ds_running d of Some (_, p) \<Rightarrow> [p] | None \<Rightarrow> [])"
| "cycles_of (Sync_now_p e p) = [p]"
| "cycles_of (Serve_p srv) = []"

definition process_knows :: "'m node_libs \<Rightarrow> stores world \<Rightarrow> process \<Rightarrow> bool" where
  "process_knows L w p \<longleftrightarrow> (\<forall>q \<in> set (cycles_of p). phase_inv L q w)"

definition machine_ok :: "'m node_libs \<Rightarrow> stores world \<times> process list \<Rightarrow> bool" where
  "machine_ok L m \<longleftrightarrow> node_ok L (fst m) \<and> (\<forall>p \<in> set (snd m). process_knows L (fst m) p)"

lemma process_knows_stable: "process_knows L w p \<Longrightarrow> node_rel L w w' \<Longrightarrow> process_knows L w' p"
  by (auto simp: process_knows_def intro: phase_inv_stable)

lemma answer_request_node:
  assumes "answer_request lib srv request_id hs payload w = (reply, srv', w')" and ok: "node_ok L w"
  shows "node_ok L w' \<and> node_rel L w w'"
proof -
  let ?st = "(srv_state srv)\<lparr>state_db := map_option (\<lambda>_. cache_db (source_of w)) (state_db (srv_state srv))\<rparr>"
  obtain st where st: "snd (put_weighing_data lib ?st request_id (utc_now w) hs payload) = st"
    and w': "w' = (case state_db st of Some db \<Rightarrow> set_cache db w | None \<Rightarrow> w)"
    using assms(1) by (auto simp: answer_request_def split: prod.splits)
  have keep: "weighing_records db = weighing_records (cache_db (source_of w)) \<and>
      (distinct (map in_request_id (inbound_payloads (cache_db (source_of w)))) \<longrightarrow>
       distinct (map in_request_id (inbound_payloads db)))" if "state_db st = Some db" for db
    using st that
    by (auto simp: put_weighing_data_def insert_inbound_payload_def sql_exec_def with_context_def Let_def
        split: result.splits option.splits if_splits)
  show ?thesis
  proof (cases "state_db st")
    case None
    then show ?thesis using ok w' by simp
  next
    case (Some db)
    have "cache_map cx db = cache_map cx (cache_db (source_of w))"
      "db_wf cx (cache_db (source_of w)) \<Longrightarrow> db_wf cx db" for cx
      using keep [OF Some] by (auto simp: cache_map_def db_wf_def fun_eq_iff)
    then show ?thesis
      using ok Some w' node_rel_set_cache [of L db w]
      by (simp add: node_ok_eq node_cache_eq) (simp add: set_cache_def)
  qed
qed

lemma node_env_node:
  assumes "node_env L w w'" and "node_ok L w"
  shows "node_ok L w' \<and> node_rel L w w'"
  using assms
proof (induction rule: node_env.induct)
  case (time w n)
  then show ?case by (simp add: node_ok_eq node_rel_def node_cache_eq node_rows_eq same_env_def)
next
  case (weighing r w x db)
  let ?cx = "lib_codec (nl_local L)"
  have "local_store ?cx (lib_order (nl_local L))"
    using weighing.prems by (auto simp: node_ok_def intro: local_store.intro)
  then have i: "db_wf ?cx db \<and> (case x of
      Ok _ \<Rightarrow> cache_map ?cx (cache_db (source_of w)) (rec_id r) = None \<and>
        cache_map ?cx db = (cache_map ?cx (cache_db (source_of w)))(rec_id r \<mapsto> r)
    | Err _ \<Rightarrow> cache_map ?cx db = cache_map ?cx (cache_db (source_of w)))"
    using weighing by (intro local_store.insert_record_outcome) (auto simp: node_ok_eq)
  then have "node_ok L (set_cache db w)" using weighing.prems by (simp add: node_ok_eq set_cache_def)
  moreover have "node_rel L w (set_cache db w)"
    using i weighing.hyps(2)
    by (cases x) (auto simp: node_rel_def node_cache_eq node_rows_eq set_cache_def cache_grows_def)
  ultimately show ?case ..
next
  case (weighbridge w r)
  then show ?case by (simp add: node_ok_eq node_rel_def node_cache_eq node_rows_eq rows_grow_append)
qed

lemma launch_node:
  assumes "launch L cmd path w = (p, w')" and "node_ok L w"
  shows "node_ok L w' \<and> node_rel L w w'" and "p = Some q \<Longrightarrow> process_knows L w'' q"
proof -
  obtain b w1 where b: "build_engine L path w = (b, w1)" by (metis surj_pair)
  note bn = build_engine_node [OF b assms(2)]
  have sn: "node_ok L w2 \<and> node_rel L w w2" if "start_server L cfg w1 = (srv, w2)" for cfg srv w2
    using start_server_node [OF that] bn node_rel_trans by blast
  have pn: "node_ok L w2 \<and> node_rel L w w2" if "open_persist_pool L cfg w = (pool, w2)" for cfg pool w2
    using open_persist_pool_node [OF that assms(2)] .
  show "node_ok L w' \<and> node_rel L w w'"
    using assms b bn sn pn
    by (auto simp: launch_def serve_def try_then_def split: command.splits result.splits prod.splits)
  show "process_knows L w'' q" if "p = Some q"
    using assms(1) that b
    by (auto simp: launch_def process_knows_def daemon_boot_def
        split: command.splits result.splits prod.splits if_splits)
qed

lemma process_step_node:
  assumes "process_step L lib (p, w) (p', w')" and ok: "node_ok L w" and kn: "process_knows L w p"
  shows "node_ok L w' \<and> node_rel L w w' \<and> process_knows L w' p'"
proof -
  have cyc: "node_ok L v' \<and> node_rel L w v' \<and> phase_inv L q' v'"
    if "q \<in> set (cycles_of p)" "cycle_step L e (q, w) = (q', v')" for q e q' v'
    using node.step_ok [OF ok _ that(2)] kn that(1) by (simp add: process_knows_def)
  show ?thesis
    using assms(1)
  proof cases
    case (daemon d d')
    from daemon(3) show ?thesis
    proof cases
      case (starting q q')
      have c: "node_ok L w' \<and> node_rel L w w' \<and> phase_inv L q' w'"
        using starting daemon(1) by (intro cyc) auto
      then show ?thesis using starting daemon kn phase_inv_stable by (fastforce simp: process_knows_def split: option.splits)
    next
      case (work j q q')
      have c: "node_ok L w' \<and> node_rel L w w' \<and> phase_inv L q' w'"
        using work daemon(1) by (intro cyc) auto
      then show ?thesis using work daemon kn phase_inv_stable by (fastforce simp: process_knows_def split: stage.splits option.splits)
    next
      case (receive srv request_id hs payload reply srv')
      have "node_ok L w' \<and> node_rel L w w'" using answer_request_node [OF receive(3) ok] .
      then show ?thesis
        using receive daemon kn process_knows_stable [of L w p w'] by (simp add: process_knows_def)
    qed (use ok kn daemon in \<open>auto simp: process_knows_def split: stage.splits option.splits\<close>)
  next
    case (sync_now q e q')
    then show ?thesis using cyc [of q e q' w'] by (simp add: process_knows_def)
  next
    case (serve srv request_id hs payload reply srv')
    then show ?thesis using answer_request_node [OF serve(3) ok] by (simp add: process_knows_def)
  qed
qed

lemma machine_step_node:
  assumes "machine_step L lib m m'" and "machine_ok L m"
  shows "machine_ok L m' \<and> node_rel L (fst m) (fst m')"
  using assms
proof cases
  case (launched cmd path w p w' ps)
  have ok: "node_ok L w" using launched(1) assms(2) by (simp add: machine_ok_def)
  note ln = launch_node [OF launched(3) ok]
  have "process_knows L w' q" if "q \<in> set ps" for q
    using that launched(1) assms(2) ln(1) process_knows_stable [of L w q w'] by (auto simp: machine_ok_def)
  then show ?thesis
    using launched ln(1) ln(2) [of _ w'] by (auto simp: machine_ok_def split: option.splits)
next
  case (runs i ps w p w')
  have ok: "node_ok L w" and kn: "\<And>q. q \<in> set ps \<Longrightarrow> process_knows L w q"
    using runs(1) assms(2) by (auto simp: machine_ok_def)
  have r: "node_ok L w' \<and> node_rel L w w' \<and> process_knows L w' p"
    using process_step_node [OF runs(4) ok] kn runs(3) by simp
  have "process_knows L w' q" if "q \<in> set ps" for q using kn that r process_knows_stable by blast
  then have "\<forall>q \<in> set (ps[i := p]). process_knows L w' q"
    using r set_update_subset_insert [of ps i p] by blast
  then show ?thesis using runs r by (simp add: machine_ok_def)
next
  case (ended w ps p qs)
  then show ?thesis using assms(2) by (simp add: machine_ok_def)
next
  case (elsewhere w w' ps)
  have ok: "node_ok L w" using elsewhere(1) assms(2) by (simp add: machine_ok_def)
  then show ?thesis
    using elsewhere assms(2) node_env_node [OF elsewhere(3) ok] process_knows_stable [of L w _ w']
    by (auto simp: machine_ok_def)
qed

lemma machine_steps_node:
  assumes "(machine_step L lib)\<^sup>*\<^sup>* m m'" and "machine_ok L m"
  shows "machine_ok L m' \<and> node_rel L (fst m) (fst m')"
  using assms(1)
proof (induction rule: rtranclp_induct)
  case base
  then show ?case using assms(2) by simp
next
  case (step m1 m2)
  then show ?case using machine_step_node node_rel_trans by blast
qed

section \<open>Jobs run one at a time and in order\<close>

definition running_job :: "daemon_state \<Rightarrow> nat list" where
  "running_job d = (case ds_running d of None \<Rightarrow> [] | Some (j, _) \<Rightarrow> [j])"

definition daemon_inv :: "daemon_state \<Rightarrow> bool" where
  "daemon_inv d \<longleftrightarrow>
     map fst (ds_done d) @ running_job d @ ds_waiting d = [0..<ds_next d] \<and>
     (ds_stage d \<noteq> Ready \<longrightarrow> ds_next d = 0) \<and>
     (\<forall>p \<in> set (cycles_of (Daemon_p d)). phase_live (ds_engine d) p)"

definition process_inv :: "process \<Rightarrow> bool" where
  "process_inv p = (case p of Daemon_p d \<Rightarrow> daemon_inv d | Sync_now_p e q \<Rightarrow> phase_live e q | Serve_p _ \<Rightarrow> True)"

lemma daemon_step_inv:
  assumes "daemon_step L lib (d, w) (d', w')" and inv: "daemon_inv d"
  shows "daemon_inv d'"
  using assms(1)
proof cases
  case tick
  have "map fst (ds_done d) @ running_job d @ ds_waiting d @ [ds_next d] = [0..<Suc (ds_next d)]"
    using inv by (simp add: daemon_inv_def)
  then show ?thesis using tick inv by (simp add: daemon_inv_def running_job_def)
next
  case (starting p p')
  then show ?thesis
    using inv cycle_step_live [of "ds_engine d" p L w p' w'] by (auto simp: daemon_inv_def running_job_def split: option.splits)
next
  case (work j p p')
  then show ?thesis
    using inv cycle_step_live [of "ds_engine d" p L w p' w']
    by (auto simp: daemon_inv_def running_job_def split: option.splits stage.splits)
qed (use inv in \<open>auto simp: daemon_inv_def running_job_def split: option.splits stage.splits\<close>)

lemma process_step_inv:
  "process_step L lib (p, w) (p', w') \<Longrightarrow> process_inv p \<Longrightarrow> process_inv p'"
  by (cases rule: process_step.cases [of L lib "(p, w)" "(p', w')"])
    (auto simp: process_inv_def intro: daemon_step_inv cycle_step_live)

lemma launch_inv: "launch L cmd path w = (Some p, w') \<Longrightarrow> process_inv p"
  by (auto simp: launch_def process_inv_def daemon_inv_def daemon_boot_def running_job_def
      split: command.splits result.splits prod.splits)

lemma machine_step_inv:
  assumes "machine_step L lib m m'" and "\<forall>p \<in> set (snd m). process_inv p"
  shows "\<forall>p \<in> set (snd m'). process_inv p"
  using assms(1)
proof cases
  case (launched cmd path w p w' ps)
  then show ?thesis using assms(2) launch_inv by (auto split: option.splits)
next
  case (runs i ps w p w')
  then have "process_inv p" using process_step_inv [OF runs(4)] assms(2) by simp
  then show ?thesis using runs assms(2) set_update_subset_insert [of ps i p] by auto
qed (use assms(2) in auto)

lemma machine_steps_inv:
  "(machine_step L lib)\<^sup>*\<^sup>* m m' \<Longrightarrow> \<forall>p \<in> set (snd m). process_inv p \<Longrightarrow> \<forall>p \<in> set (snd m'). process_inv p"
  by (induction rule: rtranclp_induct) (auto dest: machine_step_inv)

section \<open>Every job ends\<close>

lemma finish_running:
  assumes inv: "daemon_inv d"
  shows "\<exists>d' w'. (daemon_step L lib)\<^sup>*\<^sup>* (d, w) (d', w') \<and> daemon_inv d' \<and> ds_running d' = None \<and>
    ds_waiting d' = ds_waiting d \<and> ds_next d' = ds_next d \<and> ds_stage d' = ds_stage d"
proof (cases "ds_running d")
  case None
  then show ?thesis using inv by blast
next
  case (Some jp)
  obtain j p where jp: "jp = (j, p)" by (metis surj_pair)
  let ?put = "\<lambda>q. d\<lparr>ds_running := Some (j, q)\<rparr>"
  have "phase_live (ds_engine d) p" using inv Some jp by (simp add: daemon_inv_def)
  from node.run_with [OF this, where R = "daemon_step L lib" and put = ?put and L = L and w = w]
  obtain p' w' x where r: "(daemon_step L lib)\<^sup>*\<^sup>* (?put p, w) (?put p', w')" "cycle_result p' = Some x"
    using daemon_step.work [of "?put _" j _ L _ _ _ lib] by auto
  have "?put p = d" using Some jp by simp
  moreover have "daemon_step L lib (?put p', w')
      ((?put p')\<lparr>ds_running := None, ds_done := ds_done d @ [(j, x)]\<rparr>, w')"
    using daemon_step.finish [of "?put p'" j p' x L lib w'] r(2) by simp
  ultimately have st: "(daemon_step L lib)\<^sup>*\<^sup>* (d, w)
      ((?put p')\<lparr>ds_running := None, ds_done := ds_done d @ [(j, x)]\<rparr>, w')"
    using r(1) by (metis rtranclp.rtrancl_into_rtrancl)
  have "daemon_inv ((?put p')\<lparr>ds_running := None, ds_done := ds_done d @ [(j, x)]\<rparr>)"
    using inv Some jp by (auto simp: daemon_inv_def running_job_def)
  then show ?thesis using st by (intro exI [of _ "(?put p')\<lparr>ds_running := None, ds_done := ds_done d @ [(j, x)]\<rparr>"] exI [of _ w']) simp
qed

lemma run_all:
  assumes "daemon_inv d" and "ds_running d = None"
  shows "\<exists>d' w'. (daemon_step L lib)\<^sup>*\<^sup>* (d, w) (d', w') \<and> daemon_inv d' \<and> ds_running d' = None \<and>
    ds_waiting d' = [] \<and> ds_next d' = ds_next d \<and> ds_stage d' = ds_stage d"
  using assms
proof (induction "ds_waiting d" arbitrary: d w)
  case Nil
  then show ?case by (intro exI [of _ d] exI [of _ w]) simp
next
  case (Cons j js)
  define d1 where "d1 = d\<lparr>ds_waiting := js, ds_running := Some (j, cycle_start (ds_engine d))\<rparr>"
  have st: "daemon_step L lib (d, w) (d1, w)"
    unfolding d1_def using Cons.hyps(2) Cons.prems(2) by (intro daemon_step.lock) auto
  obtain d2 w2 where d2: "(daemon_step L lib)\<^sup>*\<^sup>* (d1, w) (d2, w2)" "daemon_inv d2" "ds_running d2 = None"
    "ds_waiting d2 = js" "ds_next d2 = ds_next d" "ds_stage d2 = ds_stage d"
    using finish_running [OF daemon_step_inv [OF st Cons.prems(1)], of L lib w] by (auto simp: d1_def)
  obtain d3 w3 where "(daemon_step L lib)\<^sup>*\<^sup>* (d2, w2) (d3, w3)" "daemon_inv d3" "ds_running d3 = None"
    "ds_waiting d3 = []" "ds_next d3 = ds_next d" "ds_stage d3 = ds_stage d"
    using Cons.hyps(1) [of d2 w2] d2 by auto
  then show ?case
    using st d2(1) by (meson converse_rtranclp_into_rtranclp rtranclp_trans)
qed

text \<open>The start-up cycle ends, too.\<close>

lemma finish_starting:
  assumes inv: "daemon_inv d"
  shows "\<exists>d' w'. (daemon_step L lib)\<^sup>*\<^sup>* (d, w) (d', w') \<and> daemon_inv d' \<and>
    (ds_stage d' = Ready \<or> ds_stage d' = Starting None) \<and> ds_next d' = ds_next d"
proof (cases "\<exists>p. ds_stage d = Starting (Some p)")
  case False
  then have "ds_stage d = Ready \<or> ds_stage d = Starting None" by (cases "ds_stage d") auto
  then show ?thesis using inv by blast
next
  case True
  then obtain p where p: "ds_stage d = Starting (Some p)" by blast
  let ?put = "\<lambda>q. d\<lparr>ds_stage := Starting (Some q)\<rparr>"
  have "phase_live (ds_engine d) p" using inv p by (simp add: daemon_inv_def)
  from node.run_with [OF this, where R = "daemon_step L lib" and put = ?put and L = L and w = w]
  obtain p' w' x where r: "(daemon_step L lib)\<^sup>*\<^sup>* (?put p, w) (?put p', w')" "cycle_result p' = Some x"
    using daemon_step.starting [of "?put _" _ L _ _ _ lib] by auto
  have "?put p = d" using p by simp
  moreover have "daemon_step L lib (?put p', w')
      ((?put p')\<lparr>ds_stage := Starting None, ds_startup := Some x\<rparr>, w')"
    using daemon_step.started [of "?put p'" p' x L lib w'] r(2) by simp
  ultimately have st: "(daemon_step L lib)\<^sup>*\<^sup>* (d, w)
      ((?put p')\<lparr>ds_stage := Starting None, ds_startup := Some x\<rparr>, w')"
    using r(1) by (metis rtranclp.rtrancl_into_rtrancl)
  have "daemon_inv ((?put p')\<lparr>ds_stage := Starting None, ds_startup := Some x\<rparr>)"
    using inv p by (auto simp: daemon_inv_def running_job_def)
  then show ?thesis
    using st by (intro exI [of _ "(?put p')\<lparr>ds_stage := Starting None, ds_startup := Some x\<rparr>"]
        exI [of _ w']) simp
qed

lemma jobs_complete:
  assumes "daemon_inv d"
  shows "\<exists>d' w'. (daemon_step L lib)\<^sup>*\<^sup>* (d, w) (d', w') \<and> cycles_of (Daemon_p d') = [] \<and>
    ds_waiting d' = [] \<and> map fst (ds_done d') = [0..<ds_next d]"
proof -
  obtain d1 w1 where d1: "(daemon_step L lib)\<^sup>*\<^sup>* (d, w) (d1, w1)" "daemon_inv d1"
    "ds_stage d1 = Ready \<or> ds_stage d1 = Starting None" "ds_next d1 = ds_next d"
    using finish_starting [OF assms] by blast
  obtain d2 w2 where d2: "(daemon_step L lib)\<^sup>*\<^sup>* (d1, w1) (d2, w2)" "daemon_inv d2"
    "ds_running d2 = None" "ds_next d2 = ds_next d" "ds_stage d2 = ds_stage d1"
    using finish_running [OF d1(2), of L lib w1] d1(4) by auto
  obtain d3 w3 where d3: "(daemon_step L lib)\<^sup>*\<^sup>* (d2, w2) (d3, w3)" "daemon_inv d3"
    "ds_running d3 = None" "ds_waiting d3 = []" "ds_next d3 = ds_next d" "ds_stage d3 = ds_stage d1"
    using run_all [OF d2(2, 3), of L lib w2] d2(4, 5) by auto
  have "map fst (ds_done d3) = [0..<ds_next d]" "cycles_of (Daemon_p d3) = []"
    using d3 d1(3) by (auto simp: daemon_inv_def running_job_def)
  then show ?thesis using d1(1) d2(1) d3(1, 4) by (meson rtranclp_trans)
qed

section \<open>An undisturbed start\<close>

text \<open>Left alone, the steps of the start-up cycle are \<open>start_cycle\<close>.\<close>

lemma start_cycle_steps:
  assumes c: "start_cycle L cfg engine w = Some (startup, w')"
    and d: "d = daemon_boot cfg engine srv"
  shows "(daemon_step L lib)\<^sup>*\<^sup>* (d, w) (d\<lparr>ds_stage := Starting None, ds_startup := startup\<rparr>, w')"
proof (cases "sync_on_start (sync cfg)")
  case False
  then have "d\<lparr>ds_stage := Starting None, ds_startup := startup\<rparr> = d" "w' = w"
    using c d by (auto simp: start_cycle_def daemon_boot_def)
  then show ?thesis by simp
next
  case True
  then obtain x where x: "startup = Some x" "app_engine_sync_once L engine w = Some (x, w')"
    using c by (auto simp: start_cycle_def)
  then obtain p where p: "reaches (cycle_step L engine) (cycle_start engine, w) (p, w')"
    "cycle_result p = Some x"
    using app_engine_iff_steps by blast
  let ?put = "\<lambda>q. d\<lparr>ds_stage := Starting (Some q)\<rparr>"
  have eng: "ds_engine d = engine" and put: "?put (cycle_start engine) = d"
    using d True by (simp_all add: daemon_boot_def)
  have live: "phase_live (ds_engine d) (cycle_start engine)" using eng by simp
  obtain p1 w1 y where r: "(daemon_step L lib)\<^sup>*\<^sup>* (?put (cycle_start engine), w) (?put p1, w1)"
    "reaches (cycle_step L engine) (cycle_start engine, w) (p1, w1)" "cycle_result p1 = Some y"
    using node.run_with [OF live, where R = "daemon_step L lib" and put = ?put and L = L and w = w]
      daemon_step.starting [of "?put _" _ L _ _ _ lib] eng by auto
  have "(p1, w1) = (p, w')"
    using reaches_end_unique [OF r(2) _ p(1)] cycle_result_fixed r(3) p(2) by metis
  moreover have "daemon_step L lib (?put p, w')
      ((?put p)\<lparr>ds_stage := Starting None, ds_startup := Some x\<rparr>, w')"
    using daemon_step.started [of "?put p" p x L lib w'] p(2) by simp
  ultimately show ?thesis using r(1) put x(1) by (simp add: rtranclp.rtrancl_into_rtrancl)
qed

lemma run_daemon_steps:
  assumes "run_daemon L path w = Some (Ok d, w')"
  shows "\<exists>d0 w0 d1. launch L Run path w = (Some (Daemon_p d0), w0) \<and>
    (daemon_step L lib)\<^sup>*\<^sup>* (d0, w0) (d1, w') \<and> ds_stage d1 = Ready \<and> ds_engine d1 = d_engine d \<and>
    ds_cfg d1 = d_cfg d \<and> ds_server d1 = d_server d \<and> ds_startup d1 = d_startup d \<and> ds_next d1 = 0"
  using run_daemon_cases [of L path w]
proof (elim disjE exE conjE)
  fix cfg engine w1 srv w2 startup w3
  assume b: "build_engine L path w = (Ok (cfg, engine), w1)"
    and s: "start_server L cfg w1 = (srv, w2)" and c: "start_cycle L cfg engine w2 = Some (startup, w3)"
    and r: "run_daemon L path w =
      Some (and_then (if nl_cron_feature L then start_scheduler L cfg else Ok ()) (\<lambda>_.
        Ok \<lparr>d_cfg = cfg, d_engine = engine, d_scheduled = nl_cron_feature L,
           d_server = srv, d_startup = startup\<rparr>), w3)"
  let ?d0 = "daemon_boot cfg engine srv"
  let ?d1 = "?d0\<lparr>ds_stage := Starting None, ds_startup := startup\<rparr>"
  have "and_then (if nl_cron_feature L then start_scheduler L cfg else Ok ()) (\<lambda>_.
      Ok \<lparr>d_cfg = cfg, d_engine = engine, d_scheduled = nl_cron_feature L,
         d_server = srv, d_startup = startup\<rparr>) = Ok d" and w3: "w3 = w'"
    using r assms by simp_all
  then have d: "d = \<lparr>d_cfg = cfg, d_engine = engine, d_scheduled = nl_cron_feature L,
      d_server = srv, d_startup = startup\<rparr>" and sch: "scheduler_ready L cfg"
    by (auto simp: and_then_Ok_iff scheduler_ready_def is_ok_iff split: if_splits)
  have "(daemon_step L lib)\<^sup>*\<^sup>* (?d0, w2) (?d1, w')"
    using start_cycle_steps [OF c refl, of lib srv] w3 by simp
  moreover have "daemon_step L lib (?d1, w') (?d1\<lparr>ds_stage := Ready\<rparr>, w')"
    using sch by (intro daemon_step.ready) (simp_all add: daemon_boot_def)
  moreover have "launch L Run path w = (Some (Daemon_p ?d0), w2)" using b s by (simp add: launch_def)
  ultimately show ?thesis
    unfolding d by (intro exI [of _ ?d0] exI [of _ w2] exI [of _ "?d1\<lparr>ds_stage := Ready\<rparr>"])
      (simp add: rtranclp.rtrancl_into_rtrancl daemon_boot_def)
qed (use assms in simp)

section \<open>Properties\<close>

lemma machine_run:
  assumes "node_ok L w" and "(machine_step L lib)\<^sup>*\<^sup>* (w, []) (w', ps)"
  shows "node_ok L w'" and "node_rel L w w'"
  using machine_steps_node [OF assms(2)] assms(1) by (simp_all add: machine_ok_def)

lemma machine_daemon_inv:
  assumes "(machine_step L lib)\<^sup>*\<^sup>* (w, []) (w', ps)" and "Daemon_p d \<in> set ps"
  shows "daemon_inv d"
  using machine_steps_inv [OF assms(1)] assms(2) by (auto simp: process_inv_def)

text \<open>A daemon's steps on a machine where nothing else runs, and a daemon for the witnesses.\<close>

lemma daemon_steps_machine:
  "(daemon_step L lib)\<^sup>*\<^sup>* (d, w) (d', w') \<Longrightarrow>
     (machine_step L lib)\<^sup>*\<^sup>* (w, [Daemon_p d]) (w', [Daemon_p d'])"
proof (induction rule: rtranclp_induct2)
  case (step d1 w1 d2 w2)
  have "machine_step L lib (w1, [Daemon_p d1]) (w2, [Daemon_p d1][0 := Daemon_p d2])"
    using process_step.daemon [OF step.hyps(2)] by (intro machine_step.runs) simp_all
  with step.IH show ?case by (simp add: rtranclp.rtrancl_into_rtrancl)
qed simp

lemma demo_machine:
  obtains d w where "(machine_step demo_node lib)\<^sup>*\<^sup>* (demo_node_world, []) (w, [Daemon_p d])"
    and "ds_stage d = Ready" and "ds_next d = 0"
proof -
  obtain dm w1 where "run_daemon demo_node ''config/default.toml'' demo_node_world = Some (Ok dm, w1)"
    by (rule demo_node_runs)
  from run_daemon_steps [OF this, of lib] obtain d0 w0 d1 where
    l: "launch demo_node Run ''config/default.toml'' demo_node_world = (Some (Daemon_p d0), w0)"
    and s: "(daemon_step demo_node lib)\<^sup>*\<^sup>* (d0, w0) (d1, w1)" and r: "ds_stage d1 = Ready" "ds_next d1 = 0"
    by blast
  have "machine_step demo_node lib (demo_node_world, []) (w0, [Daemon_p d0])"
    using machine_step.launched [OF l, of lib "[]"] by simp
  with daemon_steps_machine [OF s] that r show thesis by (meson converse_rtranclp_into_rtranclp)
qed

lemma demo_tick:
  obtains d w where "(machine_step demo_node lib)\<^sup>*\<^sup>* (demo_node_world, []) (w, [Daemon_p d])"
    and "ds_stage d = Ready" and "ds_next d = 1" and "ds_waiting d = [0]" and "ds_running d = None"
proof -
  obtain d w where m: "(machine_step demo_node lib)\<^sup>*\<^sup>* (demo_node_world, []) (w, [Daemon_p d])"
    and d: "ds_stage d = Ready" "ds_next d = 0" by (rule demo_machine)
  have inv: "ds_running d = None" "ds_waiting d = []"
    using machine_daemon_inv [OF m] d(2)
    by (auto simp: daemon_inv_def running_job_def split: option.splits)
  define d1 where "d1 = d\<lparr>ds_next := Suc (ds_next d), ds_waiting := ds_waiting d @ [ds_next d]\<rparr>"
  have "daemon_step demo_node lib (d, w) (d1, w)"
    unfolding d1_def using d by (intro daemon_step.tick) (simp_all add: demo_node_def)
  from rtranclp_trans [OF m daemon_steps_machine [OF r_into_rtranclp [of "daemon_step demo_node lib", OF this]]]
  show thesis by (rule that) (use d inv in \<open>simp_all add: d1_def\<close>)
qed




text \<open>
  C2: no weighing is ever lost. Whatever processes are launched on the machine, daemons, servers and
  \<open>sync-now\<close> commands with any configuration, however their steps interleave, whenever they are
  killed and started again, whatever the endpoint answers and whichever statements fail: every
  record that was in the cache is there with its measured data unchanged, the cache is well formed,
  and every row of the SQL Server table is there, as it was or with its upload flag set.
\<close>

theorem daemon_keeps_records:
  assumes "node_ok L w" and "(machine_step L lib)\<^sup>*\<^sup>* (w, []) (w', ps)"
  shows "node_ok L w' \<and>
    (\<forall>u r. node_cache L w u = Some r \<longrightarrow>
      (\<exists>r'. node_cache L w' u = Some r' \<and> same_measurement r' r)) \<and>
    length (node_rows w) \<le> length (node_rows w') \<and>
    (\<forall>i < length (node_rows w).
      node_rows w' ! i = node_rows w ! i \<or> node_rows w' ! i = set_uploaded (node_rows w ! i))"
proof -
  have c: "cache_grows (acked (nl_local L) w') (node_cache L w) (node_cache L w')"
    and r: "rows_grow (acked_serial (nl_sql L) w') (node_rows w) (node_rows w')"
    using machine_run(2) [OF assms] by (simp_all add: node_rel_def)
  have "\<exists>r'. node_cache L w' u = Some r' \<and> same_measurement r' r" if "node_cache L w u = Some r" for u r
    using c that cycle_marks_same unfolding cache_grows_def by meson
  then show ?thesis using machine_run(1) [OF assms] r unfolding rows_grow_def by blast
qed

theorem daemon_keeps_records_witness:
  "\<exists>w d. (machine_step demo_node demo_server_lib)\<^sup>*\<^sup>* (demo_node_world, []) (w, [Daemon_p d]) \<and>
     (\<forall>u r. node_cache demo_node demo_node_world u = Some r \<longrightarrow>
       (\<exists>r'. node_cache demo_node w u = Some r' \<and> same_measurement r' r))"
proof -
  obtain d w where m: "(machine_step demo_node demo_server_lib)\<^sup>*\<^sup>* (demo_node_world, []) (w, [Daemon_p d])"
    by (rule demo_machine)
  show ?thesis using daemon_keeps_records [OF demo_node_ok m] m by blast
qed





text \<open>
  C19: every tick gets its cycle. From any state of the machine, in any world whatever the endpoint,
  the database and the SQL Server do, a daemon's cycle at start or running job comes to its end by
  the daemon's own steps, and the waiting jobs after it, until all ticks so far are done, in order.
\<close>

theorem scheduler_jobs_complete:
  assumes "(machine_step L lib)\<^sup>*\<^sup>* (w, []) (w', ps)" and "Daemon_p d \<in> set ps"
  shows "\<exists>d' w''. (daemon_step L lib)\<^sup>*\<^sup>* (d, w') (d', w'') \<and> cycles_of (Daemon_p d') = [] \<and>
    ds_waiting d' = [] \<and> map fst (ds_done d') = [0..<ds_next d]"
  by (rule jobs_complete [OF machine_daemon_inv [OF assms]])

theorem scheduler_jobs_complete_witness:
  "\<exists>d w d' w'. (machine_step demo_node demo_server_lib)\<^sup>*\<^sup>* (demo_node_world, []) (w, [Daemon_p d]) \<and>
     (daemon_step demo_node demo_server_lib)\<^sup>*\<^sup>* (d, w) (d', w') \<and> map fst (ds_done d') = [0]"
proof -
  obtain d w where m: "(machine_step demo_node demo_server_lib)\<^sup>*\<^sup>* (demo_node_world, []) (w, [Daemon_p d])"
    and d: "ds_next d = 1" by (rule demo_tick)
  have "Daemon_p d \<in> set [Daemon_p d]" "[0..<ds_next d] = [0]" using d by simp_all
  then show ?thesis using scheduler_jobs_complete [OF m, of d] m by metis
qed

end
