(* ===== verification/Delivery.thy ===== *)
theory Delivery
  imports Processes
begin

text \<open>
  Delivery: what a daemon achieves on a machine that has been through anything. Whatever ran, failed
  and was killed before, once the endpoint accepts batches and the statements of its store succeed, a
  daemon's own steps upload everything that is pending.
\<close>

section \<open>Steps leave the failures of the stores to the environment\<close>

lemma sql_exec_faults:
  assumes "sql_exec stmt db = (x, db')" and "\<And>d y d'. stmt d = (y, d') \<Longrightarrow> sql_fault d' = sql_fault d"
  shows "sql_fault db' = sql_fault db"
proof -
  obtain y d where "stmt (db\<lparr>sql_n := Suc (sql_n db)\<rparr>) = (y, d)" by (metis surj_pair)
  with assms(1) assms(2) [OF this] show ?thesis
    by (auto simp: sql_exec_def Let_def split: option.splits result.splits)
qed

lemma with_context_iff: "with_context c r = (x, db) \<longleftrightarrow> (\<exists>y. r = (y, db) \<and> x = context_err c y)"
  by (cases r) (auto simp: with_context_def)

lemma fetch_pending_faults: "fetch_pending cx ord n db = (x, db') \<Longrightarrow> sql_fault db' = sql_fault db"
  by (auto simp: fetch_pending_def with_context_iff split: prod.splits result.splits
      dest!: sql_exec_faults)

lemma mark_faults:
  "mark_synced cx t ids db = (x, db') \<Longrightarrow> sql_fault db' = sql_fault db"
  "mark_failed cx t ids m db = (x, db') \<Longrightarrow> sql_fault db' = sql_fault db"
  by (auto simp: mark_synced_def mark_failed_def update_where_id_in_def with_context_iff
      split: if_splits dest!: sql_exec_faults)

lemma inbound_faults:
  "insert_inbound_payload cx ts t i s d tb n j db = (x, db') \<Longrightarrow> sql_fault db' = sql_fault db"
  by (auto simp: insert_inbound_payload_def with_context_iff Let_def
      split: result.splits if_splits dest!: sql_exec_faults)

lemma on_source_faults:
  assumes "on_source f w = (x, w')" and "\<And>s y s'. f s = (y, s') \<Longrightarrow> sql_fault s' = sql_fault s"
  shows "sql_fault (source_of w') = sql_fault (source_of w)"
  using assms by (auto simp: on_source_iff)

lemma local_step_faults:
  assumes "local_step L e (p, w) = (p', w')"
  shows "sql_fault (source_of w') = sql_fault (source_of w)"
proof (cases p)
  case L_Fetch
  then show ?thesis
    using assms on_source_faults [OF _ fetch_pending_faults]
    by (auto split: prod.splits result.splits if_splits)
next
  case (L_Upload rs s d)
  obtain a w1 where a: "retry_attempt clock sleep (upload_batch L e rs) log_retry s
      (delay_cap (engine_sync e)) (retry_max_elapsed (engine_sync e)) d w = (a, w1)"
    by (metis surj_pair)
  have "w' = w1" using assms [unfolded L_Upload local_upload_step a] by (cases a) auto
  then show ?thesis
    using attempt_effect(1) [OF batch_upload.http_upload_axioms a] by (simp add: same_source_def)
qed (use assms on_source_faults [OF _ mark_faults(1)] on_source_faults [OF _ mark_faults(2)] in
    \<open>auto simp: Let_def split: prod.splits result.splits if_splits\<close>)

text \<open>The same of the SQL Server, whose rows also stay convertible.\<close>

definition server_fine :: "sql_server \<Rightarrow> bool" where
  "server_fine s \<longleftrightarrow> no_faults s \<and> (\<forall>r \<in> set (weight_rows s). weight_info_ok r)"

lemma connect_fine: "tds_connect env src s = (x, s') \<Longrightarrow> server_fine s \<Longrightarrow> server_fine s'"
  using tds_connect_frame [of env src s x s'] by (simp add: server_fine_def no_faults_def)

lemma execute_mark_fine: "execute_mark env q ps s = (x, s') \<Longrightarrow> server_fine s \<Longrightarrow> server_fine s'"
  by (auto simp: execute_mark_def server_fine_def no_faults_def mark_rows_def Let_def)

lemma source_fetch_fine: "source_fetch_pending env src n s = (x, s') \<Longrightarrow> server_fine s \<Longrightarrow> server_fine s'"
proof -
  assume f: "source_fetch_pending env src n s = (x, s')" and s: "server_fine s"
  obtain y s1 where c: "tds_connect env src s = (y, s1)" by (metis surj_pair)
  show "server_fine s'"
    using connect_fine [OF c s] f c
    by (cases y) (auto simp: source_fetch_pending_def server_fine_def no_faults_def Let_def)
qed

lemma on_source_fine:
  assumes "on_source f w = (x, w')" and "\<And>s y s'. f s = (y, s') \<Longrightarrow> server_fine s \<Longrightarrow> server_fine s'"
    and "server_fine (source_of w)"
  shows "server_fine (source_of w')"
  using assms by (auto simp: on_source_iff)

lemma sql_step_fine:
  assumes st: "sql_step L e (p, w) = (p', w')" and fine: "server_fine (source_of w)"
  shows "server_fine (source_of w')"
proof (cases p)
  case (S_Upload rs s d)
  obtain a w1 where a: "retry_attempt clock sleep (sqlserver_upload_batch L e (map sw_data rs)) log_retry s
      (delay_cap (sq_sync e)) (retry_max_elapsed (sq_sync e)) d w = (a, w1)" by (metis surj_pair)
  have "w' = w1" using st [unfolded S_Upload sql_upload_step a] by (cases a) auto
  then show ?thesis
    using attempt_effect(1) [OF row_upload.http_upload_axioms a] fine by (simp add: same_source_def)
next
  case S_Fetch
  then show ?thesis
    using st on_source_fine [OF _ source_fetch_fine fine]
    by (auto split: prod.splits result.splits if_splits)
next
  case (S_Connect acc out)
  then show ?thesis
    using st on_source_fine [OF _ connect_fine fine] by (auto split: prod.splits result.splits)
next
  case (S_Mark cs out)
  then show ?thesis
    using st on_source_fine [OF _ execute_mark_fine fine] fine
    by (cases cs) (auto split: prod.splits result.splits)
next
  case (S_Done x)
  then show ?thesis using st fine by simp
qed

section \<open>A served engine\<close>

text \<open>
  The statements of the engine's store succeed, its rows convert, its payloads can be written, the
  endpoint accepts every batch, and the settings let the engine take and mark something.
\<close>

definition engine_served :: "'m node_libs \<Rightarrow> app_engine \<Rightarrow> stores world \<Rightarrow> bool" where
  "engine_served L engine w =
     (case engine of
        Local e \<Rightarrow>
          (\<forall>k. sql_fault (cache_db (source_of w)) k = None) \<and> serialises (lib_http (nl_local L)) \<and>
          accepts_all (nl_local L) (cache_world w) \<and> batch_size (engine_sync e) \<noteq> 0
      | SqlServer e \<Rightarrow>
          server_fine (weigh_server (source_of w)) \<and> serialises (sq_http (nl_sql L)) \<and>
          sql_accepts (nl_sql L) (server_world w) \<and> batch_size (sq_sync e) \<noteq> 0 \<and>
          mark_uploaded_enabled (sq_source e))"

definition engine_backlog :: "'m node_libs \<Rightarrow> app_engine \<Rightarrow> stores world \<Rightarrow> nat" where
  "engine_backlog L engine w =
     (case engine of
        Local _ \<Rightarrow> backlog_size (nl_local L) (cache_world w)
      | SqlServer _ \<Rightarrow> pending_rows (server_world w))"

lemma accepts_same_env:
  "same_env w w' \<Longrightarrow> accepts_all L (over s w') = accepts_all L (over t w)"
  "same_env w w' \<Longrightarrow> sql_accepts LS (over s' w') = sql_accepts LS (over t' w)"
  by (simp_all add: accepts_all_def sql_accepts_def same_env_def over_def)

lemma served_stable:
  assumes "engine_served L e w" and "same_env w w'"
    and "sql_fault (cache_db (source_of w')) = sql_fault (cache_db (source_of w))"
    and "server_fine (weigh_server (source_of w)) \<Longrightarrow> server_fine (weigh_server (source_of w'))"
  shows "engine_served L e w'"
  using assms
    accepts_same_env(1) [OF assms(2), of "nl_local L" "cache_db (source_of w')" "cache_db (source_of w)"]
    accepts_same_env(2) [OF assms(2), of "nl_sql L" "weigh_server (source_of w')" "weigh_server (source_of w)"]
  by (simp add: engine_served_def cache_world_def server_world_def split: app_engine.splits)

lemma cycle_step_stores:
  assumes "cycle_step L e (p, w) = (p', w')"
  shows "sql_fault (cache_db (source_of w')) = sql_fault (cache_db (source_of w))"
    and "server_fine (weigh_server (source_of w)) \<Longrightarrow> server_fine (weigh_server (source_of w'))"
proof -
  have "sql_fault (cache_db (source_of w')) = sql_fault (cache_db (source_of w)) \<and>
      (server_fine (weigh_server (source_of w)) \<longrightarrow> server_fine (weigh_server (source_of w')))"
  proof (cases e; cases p)
    fix le q assume e: "e = Local le" "p = Local_phase q"
    obtain q1 w1 where s: "local_step (nl_local L) le (q, cache_world w) = (q1, w1)" by (metis surj_pair)
    then have "w' = with_cache w w1" using assms e by simp
    then show ?thesis using local_step_faults [OF s] by (simp add: with_cache_def cache_world_def)
  next
    fix se q assume e: "e = SqlServer se" "p = Sql_phase q"
    obtain q1 w1 where s: "sql_step (nl_sql L) se (q, server_world w) = (q1, w1)" by (metis surj_pair)
    then have "w' = with_server w w1" using assms e by simp
    then show ?thesis using sql_step_fine [OF s] by (simp add: with_server_def server_world_def)
  qed (use assms in auto)
  then show "sql_fault (cache_db (source_of w')) = sql_fault (cache_db (source_of w))"
    "server_fine (weigh_server (source_of w)) \<Longrightarrow> server_fine (weigh_server (source_of w'))" by auto
qed

lemma put_faults:
  assumes "put_weighing_data lib st i t hs j = (reply, st')" and "state_db st' = Some db'"
  shows "\<exists>db. state_db st = Some db \<and> sql_fault db' = sql_fault db"
proof -
  have "sql_fault (snd (insert_inbound_payload (srv_codec lib) (value_to_string lib) t i a b c n j db)) =
      sql_fault db" for a b c n db
    using inbound_faults by (metis prod.collapse)
  then show ?thesis
    using assms by (auto simp: put_weighing_data_def Let_def split: if_splits option.splits)
qed

lemma answer_request_stores:
  assumes "answer_request lib srv i hs j w = (reply, srv', w')"
  shows "sql_fault (cache_db (source_of w')) = sql_fault (cache_db (source_of w))"
    and "weigh_server (source_of w') = weigh_server (source_of w)"
proof -
  let ?st = "(srv_state srv)\<lparr>state_db := map_option (\<lambda>_. cache_db (source_of w)) (state_db (srv_state srv))\<rparr>"
  obtain r st where p: "put_weighing_data lib ?st i (utc_now w) hs j = (r, st)" by (metis surj_pair)
  then have w': "w' = (case state_db st of Some db \<Rightarrow> set_cache db w | None \<Rightarrow> w)"
    using assms by (auto simp: answer_request_def)
  show "sql_fault (cache_db (source_of w')) = sql_fault (cache_db (source_of w))"
    using w' put_faults [OF p] by (cases "state_db st") (auto simp: set_cache_def)
  show "weigh_server (source_of w') = weigh_server (source_of w)"
    using w' by (cases "state_db st") (auto simp: set_cache_def)
qed

text \<open>A cycle of a served engine that nothing interrupts takes a full batch.\<close>

lemma served_cycle:
  assumes ok: "node_ok L w" and sv: "engine_served L e w"
    and run: "app_engine_sync_once L e w = Some (x, w')"
  shows "engine_backlog L e w' \<le> engine_backlog L e w - 1"
proof (cases e)
  case (Local le)
  have "local_engine (nl_local L)" using ok by (auto simp: node_ok_def intro: local_engine_laws)
  moreover have "quiet (nl_local L) (cache_world w)" "accepts_all (nl_local L) (cache_world w)"
    using ok sv Local by (simp_all add: quiet_def node_ok_def engine_served_def cache_world_def)
  ultimately obtain out w1 where r: "sync_once (nl_local L) le (cache_world w) = Some (Ok out, w1)"
    and b: "backlog_size (nl_local L) w1 =
      backlog_size (nl_local L) (cache_world w) - unat (batch_size (engine_sync le))"
    using local_engine.accepted_cycle by blast
  have "w' = with_cache w w1" using run r Local by (simp add: app_engine_sync_once_def with_cache_def)
  moreover have "0 < unat (batch_size (engine_sync le))"
    using sv Local by (simp add: engine_served_def unat_gt_0)
  ultimately show ?thesis using b Local by (simp add: engine_backlog_def)
next
  case (SqlServer se)
  have "sql_engine (nl_sql L)" using ok by (auto simp: node_ok_def intro: sql_engine.intro)
  moreover have "sql_quiet (nl_sql L) (server_world w)" "sql_accepts (nl_sql L) (server_world w)"
    "mark_uploaded_enabled (sq_source se)"
    using sv SqlServer
    by (simp_all add: sql_quiet_def engine_served_def server_world_def server_fine_def world_rows_def)
  ultimately obtain out w1 where r: "sqlserver_sync_once (nl_sql L) se (server_world w) = Some (Ok out, w1)"
    and b: "pending_rows w1 \<le> pending_rows (server_world w) - unat (batch_size (sq_sync se))"
    using sql_engine.accepted_cycle by blast
  have "w' = with_server w w1" using run r SqlServer by (simp add: app_engine_sync_once_def with_server_def)
  moreover have "0 < unat (batch_size (sq_sync se))"
    using sv SqlServer by (simp add: engine_served_def unat_gt_0)
  ultimately show ?thesis using b SqlServer by (simp add: engine_backlog_def)
qed

section \<open>The daemon of a served engine\<close>

text \<open>What holds of a daemon and its world while its engine is served; every step of it keeps that.\<close>

definition daemon_served :: "'m node_libs \<Rightarrow> daemon_state \<times> stores world \<Rightarrow> bool" where
  "daemon_served L dw \<longleftrightarrow>
     node_ok L (snd dw) \<and> process_knows L (snd dw) (Daemon_p (fst dw)) \<and> daemon_inv (fst dw) \<and>
     engine_served L (ds_engine (fst dw)) (snd dw)"

lemma daemon_step_served:
  assumes st: "daemon_step L lib (d, w) (d', w')" and sv: "daemon_served L (d, w)"
  shows "daemon_served L (d', w') \<and> ds_engine d' = ds_engine d \<and> ds_cfg d' = ds_cfg d \<and> node_rel L w w'"
proof -
  have p: "node_ok L w' \<and> node_rel L w w' \<and> process_knows L w' (Daemon_p d')"
    using process_step_node [OF process_step.daemon [OF st]] sv by (simp add: daemon_served_def)
  have fr: "sql_fault (cache_db (source_of w')) = sql_fault (cache_db (source_of w)) \<and>
      (server_fine (weigh_server (source_of w)) \<longrightarrow> server_fine (weigh_server (source_of w'))) \<and>
      ds_engine d' = ds_engine d \<and> ds_cfg d' = ds_cfg d"
    using st
    by cases (auto dest: cycle_step_stores answer_request_stores)
  have "same_env w w'" using p by (simp add: node_rel_def)
  then have "engine_served L (ds_engine d) w'"
    using served_stable [of L "ds_engine d" w w'] sv fr by (simp add: daemon_served_def)
  then show ?thesis
    using p fr daemon_step_inv [OF st] sv by (simp add: daemon_served_def)
qed

lemma daemon_steps_served:
  assumes "(daemon_step L lib)\<^sup>*\<^sup>* (d, w) (d', w')" and "daemon_served L (d, w)"
  shows "daemon_served L (d', w') \<and> ds_engine d' = ds_engine d \<and> ds_cfg d' = ds_cfg d \<and> node_rel L w w'"
  using assms(1)
proof (induction rule: rtranclp_induct2)
  case refl
  then show ?case using assms(2) by simp
next
  case (step d1 w1 d2 w2)
  then show ?case using daemon_step_served [OF step.hyps(2)] node_rel_trans by metis
qed

text \<open>A daemon between two ticks with nothing to do.\<close>

definition daemon_idle :: "daemon_state \<Rightarrow> bool" where
  "daemon_idle d \<longleftrightarrow> ds_stage d = Ready \<and> ds_running d = None \<and> ds_waiting d = []"

text \<open>It becomes idle by finishing what it is at.\<close>

lemma becomes_idle:
  assumes sv: "daemon_served L (d, w)" and ready: "scheduler_ready L (ds_cfg d)"
  shows "\<exists>d' w'. (daemon_step L lib)\<^sup>*\<^sup>* (d, w) (d', w') \<and> daemon_idle d'"
proof -
  have inv: "daemon_inv d" using sv by (simp add: daemon_served_def)
  obtain d1 w1 where d1: "(daemon_step L lib)\<^sup>*\<^sup>* (d, w) (d1, w1)" "daemon_inv d1"
    "ds_stage d1 = Ready \<or> ds_stage d1 = Starting None" using finish_starting [OF inv] by blast
  have cfg: "ds_cfg d1 = ds_cfg d" using daemon_steps_served [OF d1(1) sv] by blast
  define d2 where "d2 = d1\<lparr>ds_stage := Ready\<rparr>"
  have s2: "(daemon_step L lib)\<^sup>*\<^sup>* (d1, w1) (d2, w1)"
  proof (cases "ds_stage d1 = Ready")
    case True
    then have "d2 = d1" by (simp add: d2_def)
    then show ?thesis by simp
  next
    case False
    then have "daemon_step L lib (d1, w1) (d2, w1)"
      unfolding d2_def using d1(3) ready cfg by (intro daemon_step.ready) auto
    then show ?thesis by (rule r_into_rtranclp)
  qed
  have inv2: "daemon_inv d2"
    using daemon_steps_served [OF rtranclp_trans [OF d1(1) s2] sv] by (simp add: daemon_served_def)
  obtain d3 w3 where d3: "(daemon_step L lib)\<^sup>*\<^sup>* (d2, w1) (d3, w3)" "daemon_inv d3"
    "ds_running d3 = None" "ds_stage d3 = Ready"
    using finish_running [OF inv2, of L lib w1] by (auto simp: d2_def)
  obtain d4 w4 where "(daemon_step L lib)\<^sup>*\<^sup>* (d3, w3) (d4, w4)" "daemon_idle d4"
    using run_all [OF d3(2, 3), of L lib w3] d3(4) by (auto simp: daemon_idle_def)
  then show ?thesis using d1(1) s2 d3(1) by (meson rtranclp_trans)
qed

text \<open>A tick then runs one cycle, and ticks enough run the backlog down.\<close>

lemma idle_tick:
  assumes sv: "daemon_served L (d, w)" and idle: "daemon_idle d" and cron: "nl_cron_feature L"
  shows "\<exists>d' w'. (daemon_step L lib)\<^sup>*\<^sup>* (d, w) (d', w') \<and> daemon_idle d' \<and>
    engine_backlog L (ds_engine d) w' \<le> engine_backlog L (ds_engine d) w - 1"
proof -
  let ?R = "daemon_step L lib" and ?e = "ds_engine d" and ?j = "ds_next d"
  define d1 where "d1 = d\<lparr>ds_next := Suc ?j, ds_waiting := ds_waiting d @ [?j]\<rparr>"
  let ?put = "\<lambda>p. d1\<lparr>ds_waiting := [], ds_running := Some (?j, p)\<rparr>"
  have t: "?R (d, w) (d1, w)"
    unfolding d1_def using idle cron by (intro daemon_step.tick) (simp_all add: daemon_idle_def)
  have l: "?R (d1, w) (?put (cycle_start ?e), w)"
    using daemon_step.lock [of d1 ?j "[]" L lib w] idle by (simp add: d1_def daemon_idle_def)
  have live: "phase_live ?e (cycle_start ?e)" by simp
  obtain p w' x where c: "?R\<^sup>*\<^sup>* (?put (cycle_start ?e), w) (?put p, w')"
    "reaches (cycle_step L ?e) (cycle_start ?e, w) (p, w')" "cycle_result p = Some x"
    using node.run_with [OF live, where R = ?R and put = ?put and L = L and w = w]
      daemon_step.work [of "?put _" ?j _ L _ _ _ lib] by (auto simp: d1_def)
  let ?d' = "(?put p)\<lparr>ds_running := None, ds_done := ds_done d1 @ [(?j, x)]\<rparr>"
  have "?R (?put p, w') (?d', w')"
    using daemon_step.finish [of "?put p" ?j p x L lib w'] c(3) by simp
  then have "?R\<^sup>*\<^sup>* (d, w) (?d', w')"
    using t l c(1) by (meson converse_rtranclp_into_rtranclp rtranclp.rtrancl_into_rtrancl)
  moreover have "app_engine_sync_once L ?e w = Some (x, w')"
    using c(2, 3) app_engine_iff_steps by blast
  then have "engine_backlog L ?e w' \<le> engine_backlog L ?e w - 1"
    using served_cycle [of L w ?e x w'] sv by (simp add: daemon_served_def)
  moreover have "daemon_idle ?d'" using idle by (simp add: daemon_idle_def d1_def)
  ultimately show ?thesis by blast
qed

lemma idle_drains:
  assumes "daemon_served L (d, w)" and "daemon_idle d" and "nl_cron_feature L"
    and "engine_backlog L (ds_engine d) w \<le> n"
  shows "\<exists>d' w'. (daemon_step L lib)\<^sup>*\<^sup>* (d, w) (d', w') \<and> daemon_idle d' \<and>
    engine_backlog L (ds_engine d) w' = 0"
  using assms
proof (induction n arbitrary: d w)
  case 0
  then show ?case by (intro exI [of _ d] exI [of _ w]) simp
next
  case (Suc n)
  obtain d1 w1 where r: "(daemon_step L lib)\<^sup>*\<^sup>* (d, w) (d1, w1)" and i: "daemon_idle d1"
    and b: "engine_backlog L (ds_engine d) w1 \<le> engine_backlog L (ds_engine d) w - 1"
    using idle_tick [OF Suc.prems(1-3)] by blast
  have s: "daemon_served L (d1, w1)" "ds_engine d1 = ds_engine d"
    using daemon_steps_served [OF r Suc.prems(1)] by simp_all
  have "engine_backlog L (ds_engine d1) w1 \<le> n" using b Suc.prems(4) s(2) by simp
  then show ?case using Suc.IH [OF s(1) i Suc.prems(3)] r s(2) by (metis rtranclp_trans)
qed

lemma daemon_drains:
  assumes sv: "daemon_served L (d, w)" and "scheduler_ready L (ds_cfg d)" and cron: "nl_cron_feature L"
  shows "\<exists>d' w'. (daemon_step L lib)\<^sup>*\<^sup>* (d, w) (d', w') \<and> daemon_idle d' \<and>
    engine_backlog L (ds_engine d) w' = 0"
proof -
  obtain d1 w1 where r: "(daemon_step L lib)\<^sup>*\<^sup>* (d, w) (d1, w1)" and i: "daemon_idle d1"
    using becomes_idle [OF assms(1, 2)] by blast
  have s: "daemon_served L (d1, w1)" "ds_engine d1 = ds_engine d"
    using daemon_steps_served [OF r sv] by simp_all
  show ?thesis using idle_drains [OF s(1) i cron order_refl] r s(2) by (metis rtranclp_trans)
qed

section \<open>On the machine\<close>

lemma daemon_steps_in_machine:
  assumes "(daemon_step L lib)\<^sup>*\<^sup>* (d, w) (d', w')" and "i < length ps" and "ps ! i = Daemon_p d"
  shows "(machine_step L lib)\<^sup>*\<^sup>* (w, ps) (w', ps[i := Daemon_p d'])"
  using assms(1)
proof (induction rule: rtranclp_induct2)
  case refl
  then show ?case using assms(3) by (metis list_update_id rtranclp.rtrancl_refl)
next
  case (step d1 w1 d2 w2)
  have "machine_step L lib (w1, ps[i := Daemon_p d1]) (w2, ps[i := Daemon_p d1, i := Daemon_p d2])"
    using process_step.daemon [OF step.hyps(2)] assms(2) by (intro machine_step.runs) simp_all
  with step.IH show ?case by (simp add: rtranclp.rtrancl_into_rtrancl)
qed

text \<open>What an empty backlog says of the store.\<close>

lemma no_backlog:
  assumes "node_ok L w" and "engine_backlog L e w = 0"
  shows "case e of
      Local _ \<Rightarrow> \<forall>u r. node_cache L w u = Some r \<longrightarrow> rec_status r = Synced
    | SqlServer _ \<Rightarrow> \<forall>r \<in> set (node_rows w). \<not> row_pending r"
proof (cases e)
  case (Local le)
  have "local_engine (nl_local L)" using assms(1) by (auto simp: node_ok_def intro: local_engine_laws)
  then have "finite (backlog_of (node_cache L w))"
    using assms(1) local_store.backlog_card(1) local_engine_def by (metis node_cache_eq node_ok_eq)
  then have "backlog_of (node_cache L w) = {}"
    using assms(2) Local by (simp add: engine_backlog_def backlog_size_def node_cache_def)
  then show ?thesis by (auto simp: Local backlog_of_def)
next
  case (SqlServer se)
  then show ?thesis using assms(2) by (auto simp: engine_backlog_def pending_rows_def node_rows_def filter_empty_conv)
qed

lemma machine_delivers:
  assumes ok: "node_ok L w0" and run: "(machine_step L lib)\<^sup>*\<^sup>* (w0, []) (w, ps)"
    and d: "i < length ps" "ps ! i = Daemon_p d" and cron: "nl_cron_feature L" "scheduler_ready L (ds_cfg d)"
    and sv: "engine_served L (ds_engine d) w"
  shows "\<exists>d' w'. (machine_step L lib)\<^sup>*\<^sup>* (w, ps) (w', ps[i := Daemon_p d']) \<and>
    node_rel L w0 w' \<and> node_rel L w w' \<and> node_ok L w' \<and> engine_backlog L (ds_engine d) w' = 0"
proof -
  have m: "machine_ok L (w, ps)" "node_rel L w0 w"
    using machine_steps_node [OF run] ok by (simp_all add: machine_ok_def)
  have "Daemon_p d \<in> set ps" using d by (metis nth_mem)
  then have ds: "daemon_served L (d, w)"
    using m(1) machine_daemon_inv [OF run] sv by (simp add: daemon_served_def machine_ok_def)
  obtain d' w' where r: "(daemon_step L lib)\<^sup>*\<^sup>* (d, w) (d', w')"
    and b: "engine_backlog L (ds_engine d) w' = 0"
    using daemon_drains [OF ds cron(2, 1)] by blast
  have "node_rel L w w'" "node_ok L w'"
    using daemon_steps_served [OF r ds] by (simp_all add: daemon_served_def)
  then show ?thesis
    using daemon_steps_in_machine [OF r d] b m(2) node_rel_trans by blast
qed

section \<open>Property\<close>

text \<open>A machine for the witness: a daemon that was just launched.\<close>

lemma connect_faults:
  assumes "db_connect L cfg w = (x, w')"
  shows "sql_fault (cache_db (source_of w')) = sql_fault (cache_db (source_of w)) \<and> remote w' = remote w"
proof -
  have "sql_fault (snd (run_migrations b db)) = sql_fault db" for b db
    by (auto simp: run_migrations_def execute_sql_def sql_exec_def with_context_def create_if_not_exists_def
        Let_def split: database_backend.splits option.splits result.splits)
  then have "sql_fault (snd (connect p f opener c db)) = sql_fault db" for p f opener c db
    by (simp add: connect_def split: result.splits)
  then show ?thesis using assms by (auto simp: db_connect_def set_cache_def split: prod.splits) (metis snd_conv)
qed

lemma demo_served:
  obtains d w where "(machine_step demo_node lib)\<^sup>*\<^sup>* (demo_node_world, []) (w, [Daemon_p d])"
    and "scheduler_ready demo_node (ds_cfg d)" and "engine_served demo_node (ds_engine d) w"
    and "\<exists>e. ds_engine d = Local e"
proof -
  let ?p = "''config/default.toml''" and ?f = "\<lambda>w :: stores world. sql_fault (cache_db (source_of w))"
  obtain cfg e w1 where b: "build_engine demo_node ?p demo_node_world = (Ok (cfg, Local e), w1)"
    by (rule demo_node_builds)
  obtain srv w2 where s: "start_server demo_node cfg w1 = (srv, w2)" by (metis surj_pair)
  have be: "load (nl_build demo_node) ?p = Ok cfg" "db_connect demo_node cfg demo_node_world = (Ok (), w1)"
    "engine_sync e = sync cfg"
    using build_engine_Ok [OF b] by auto
  obtain y w3 where c: "db_connect demo_node cfg w1 = (y, w3)" by (metis surj_pair)
  have "w2 = w1 \<or> w2 = w3"
    using s c by (auto simp: start_server_def open_persist_pool_def split: if_splits result.splits prod.splits)
  then have w2: "?f w2 = ?f demo_node_world" "remote w2 = remote demo_node_world"
    using connect_faults [OF be(2)] connect_faults [OF c] by auto
  have "batch_size (sync cfg) \<noteq> 0"
    using be(1) by (auto simp: demo_node_def load_def de_app_def de_api_def de_sync_def de_server_def
        demo_raw_node_def demo_raw_app_def or_default_def default_batch_size_def)
  moreover have "accepts_all demo_libs (cache_world w2)"
    using demo_world_accepts w2(2)
    by (simp add: accepts_all_def cache_world_def demo_node_world_def over_def)
  ultimately have "engine_served demo_node (Local e) w2"
    using w2(1) be(3)
    by (simp add: engine_served_def demo_node_def demo_node_world_def demo_db_def demo_libs_def
        serialises_def demo_http_def)
  moreover have "machine_step demo_node lib (demo_node_world, []) (w2, [Daemon_p (daemon_boot cfg (Local e) srv)])"
    using machine_step.launched [of demo_node Run ?p demo_node_world _ w2 lib "[]"] b s
    by (simp add: launch_def)
  moreover have "scheduler_ready demo_node cfg"
    by (simp add: scheduler_ready_def start_scheduler_def demo_node_def)
  ultimately show thesis
    using that [OF r_into_rtranclp [of "machine_step demo_node lib"]] by (simp add: daemon_boot_def)
qed



end
