(* ===== verification/Sync_Protocol.thy ===== *)
theory Sync_Protocol
  imports Local_Engine Sql_Rows
begin

text \<open>
  The structures of the upload protocol as docs/sync_structs.rs drafts them: the request with the rows
  of the three tables, the response, and the columns of the tables they are stored in, with serde's
  derived conversions to and from JSON values. \<open>WeightInfoSyncRecord\<close> and \<open>WeightPhotoSyncRecord\<close>
  declare the fields of the entities, so they are the records \<open>weight_info\<close> and \<open>weight_photo\<close>; what
  the draft adds are the names of their fields in JSON.
\<close>

section \<open>Conversions of the field types\<close>

text \<open>
  The types of other crates convert as they please: rust_decimal's \<open>Decimal\<close>, chrono's
  \<open>NaiveDateTime\<close> and \<open>DateTime<Utc>\<close>, \<open>Uuid\<close>, and serde_json's reading of an integer as \<open>f64\<close>.
\<close>

record dto_lib =
  dl_ser_decimal :: "decimal \<Rightarrow> json"
  dl_de_decimal :: "json \<Rightarrow> (decimal, string) result"
  dl_ser_naive :: "naive_datetime \<Rightarrow> json"
  dl_de_naive :: "json \<Rightarrow> (naive_datetime, string) result"
  dl_ser_utc :: "datetime \<Rightarrow> json"
  dl_de_utc :: "json \<Rightarrow> (datetime, string) result"
  dl_ser_uuid :: "uuid \<Rightarrow> json"
  dl_de_uuid :: "json \<Rightarrow> (uuid, string) result"
  dl_f64_of_int :: "int \<Rightarrow> f64"

definition ser_i32 :: "i32 \<Rightarrow> json" where
  "ser_i32 x = JNumber (JInt (sint x))"

definition ser_i64 :: "i64 \<Rightarrow> json" where
  "ser_i64 x = JNumber (JInt (sint x))"

definition ser_usize :: "usize \<Rightarrow> json" where
  "ser_usize x = JNumber (JInt (uint x))"

definition ser_bytes :: "u8 list \<Rightarrow> json" where
  "ser_bytes xs = JArray (map (\<lambda>b. JNumber (JInt (uint b))) xs)"

definition ser_opt :: "('a \<Rightarrow> json) \<Rightarrow> 'a option \<Rightarrow> json" where
  "ser_opt f x = (case x of None \<Rightarrow> JNull | Some v \<Rightarrow> f v)"

definition de_int :: "int \<Rightarrow> int \<Rightarrow> json \<Rightarrow> (int, string) result" where
  "de_int lo hi j =
     (case j of
        JNumber (JInt n) \<Rightarrow> (if lo \<le> n \<and> n < hi then Ok n else Err ''invalid value, out of range'')
      | _ \<Rightarrow> Err ''invalid type, expected an integer'')"

definition de_i32 :: "json \<Rightarrow> (i32, string) result" where
  "de_i32 j = and_then (de_int (- (2 ^ 31)) (2 ^ 31) j) (\<lambda>n. Ok (word_of_int n))"

definition de_i64 :: "json \<Rightarrow> (i64, string) result" where
  "de_i64 j = and_then (de_int (- (2 ^ 63)) (2 ^ 63) j) (\<lambda>n. Ok (word_of_int n))"

definition de_usize64 :: "json \<Rightarrow> (usize, string) result" where
  "de_usize64 j = and_then (de_int 0 (2 ^ 64) j) (\<lambda>n. Ok (word_of_int n))"

definition de_byte :: "json \<Rightarrow> (u8, string) result" where
  "de_byte j = and_then (de_int 0 256 j) (\<lambda>n. Ok (word_of_int n))"

definition de_bytes :: "json \<Rightarrow> (u8 list, string) result" where
  "de_bytes = de_vec de_byte"

definition de_boolean :: "json \<Rightarrow> (bool, string) result" where
  "de_boolean j = (case j of JBool b \<Rightarrow> Ok b | _ \<Rightarrow> Err ''invalid type, expected a boolean'')"

definition de_f64 :: "dto_lib \<Rightarrow> json \<Rightarrow> (f64, string) result" where
  "de_f64 D j =
     (case j of
        JNumber (JFloat x) \<Rightarrow> Ok x
      | JNumber (JInt n) \<Rightarrow> Ok (dl_f64_of_int D n)
      | _ \<Rightarrow> Err ''invalid type, expected f64'')"

section \<open>Derived deserialisation of a field\<close>

text \<open>
  A field is found under its name or an alias of it; an array gives the fields in order. A field that
  is absent from an object is \<open>None\<close> when it is an \<open>Option\<close>, its default when it has one, and
  an error otherwise; in an array only a default fills a gap. Which of several errors is reported is
  not modelled.
\<close>

definition dto_get :: "string list \<Rightarrow> nat \<Rightarrow> json \<Rightarrow> (json option, string) result" where
  "dto_get names pos j =
     (case j of
        JObject m \<Rightarrow>
          (case List.map_filter (map_of m) names of
             [] \<Rightarrow> Ok None | [v] \<Rightarrow> Ok (Some v) | _ \<Rightarrow> Err ''duplicate field'')
      | JArray xs \<Rightarrow> Ok (if pos < length xs then Some (xs ! pos) else None)
      | _ \<Rightarrow> Err ''invalid type, expected struct'')"

definition is_array :: "json \<Rightarrow> bool" where
  "is_array j = (case j of JArray _ \<Rightarrow> True | _ \<Rightarrow> False)"

definition de_nullable :: "(json \<Rightarrow> ('a, string) result) \<Rightarrow> json \<Rightarrow> ('a option, string) result" where
  "de_nullable conv v = (if v = JNull then Ok None else and_then (conv v) (\<lambda>x. Ok (Some x)))"

definition dto_req ::
  "(json \<Rightarrow> ('a, string) result) \<Rightarrow> string list \<Rightarrow> nat \<Rightarrow> json \<Rightarrow> ('a, string) result" where
  "dto_req conv names pos j =
     and_then (dto_get names pos j) (\<lambda>f.
       case f of Some v \<Rightarrow> conv v | None \<Rightarrow> Err ''missing field'')"

definition dto_opt ::
  "(json \<Rightarrow> ('a, string) result) \<Rightarrow> string list \<Rightarrow> nat \<Rightarrow> json \<Rightarrow> ('a option, string) result" where
  "dto_opt conv names pos j =
     and_then (dto_get names pos j) (\<lambda>f.
       case f of
         Some v \<Rightarrow> de_nullable conv v
       | None \<Rightarrow> (if is_array j then Err ''invalid length'' else Ok None))"

definition dto_dflt ::
  "(json \<Rightarrow> ('a, string) result) \<Rightarrow> 'a \<Rightarrow> string list \<Rightarrow> nat \<Rightarrow> json \<Rightarrow> ('a, string) result" where
  "dto_dflt conv d names pos j =
     and_then (dto_get names pos j) (\<lambda>f. case f of Some v \<Rightarrow> conv v | None \<Rightarrow> Ok d)"

definition dto_no_more :: "nat \<Rightarrow> json \<Rightarrow> (unit, string) result" where
  "dto_no_more n j =
     (case j of JArray xs \<Rightarrow> (if length xs \<le> n then Ok () else Err ''trailing elements'') | _ \<Rightarrow> Ok ())"

section \<open>WeightInfoSyncRecord\<close>

definition weight_info_sync_fields :: "dto_lib \<Rightarrow> weight_info \<Rightarrow> (string \<times> json) list" where
  "weight_info_sync_fields D r =
     [(''serialNo'', JString (serial_no r)),
      (''sysNo'', ser_opt JString (sys_no r)),
      (''setId'', ser_opt JString (set_id r)),
      (''cardNo'', ser_opt JString (card_no r)),
      (''plateNo'', ser_opt JString (plate_no r)),
      (''weightType'', ser_opt JString (weight_type r)),
      (''transportUnit'', ser_opt JString (transport_unit r)),
      (''forwardingUnit'', ser_opt JString (forwarding_unit r)),
      (''consigneeUnit'', ser_opt JString (consignee_unit r)),
      (''goodsName'', ser_opt JString (goods_name r)),
      (''goodsSpec'', ser_opt JString (goods_spec r)),
      (''grossWeight'', ser_opt (dl_ser_decimal D) (gross_weight r)),
      (''tareWeight'', ser_opt (dl_ser_decimal D) (tare_weight r)),
      (''netWeight'', ser_opt (dl_ser_decimal D) (net_weight r)),
      (''buckleWeight'', ser_opt (dl_ser_decimal D) (buckle_weight r)),
      (''actualWeight'', ser_opt (dl_ser_decimal D) (actual_weight r)),
      (''weightUnit'', ser_opt JString (weight_unit r)),
      (''unitPrice'', ser_opt (dl_ser_decimal D) (unit_price r)),
      (''sumAmt'', ser_opt (dl_ser_decimal D) (sum_amt r)),
      (''scaleNum'', ser_opt JString (scale_num r)),
      (''squareNum'', ser_opt JString (square_num r)),
      (''weighingFee'', ser_opt (dl_ser_decimal D) (weighing_fee r)),
      (''grossStation'', ser_opt JString (gross_station r)),
      (''tareStation'', ser_opt JString (tare_station r)),
      (''grossMan'', ser_opt JString (gross_man r)),
      (''tareMan'', ser_opt JString (tare_man r)),
      (''grossTime'', ser_opt (dl_ser_naive D) (gross_time r)),
      (''tareTime'', ser_opt (dl_ser_naive D) (tare_time r)),
      (''firstTime'', ser_opt (dl_ser_naive D) (first_time r)),
      (''secondTime'', ser_opt (dl_ser_naive D) (second_time r)),
      (''updateTime'', ser_opt (dl_ser_naive D) (update_time r)),
      (''printNum'', ser_opt ser_i32 (print_num r)),
      (''isCancle'', ser_opt ser_i32 (is_cancle r)),
      (''isUploadLocal'', ser_opt ser_i32 (is_upload_local r)),
      (''isUploadCloud'', ser_opt ser_i32 (is_upload_cloud r)),
      (''strBackup1'', ser_opt JString (str_backup1 r)),
      (''strBackup2'', ser_opt JString (str_backup2 r)),
      (''strBackup3'', ser_opt JString (str_backup3 r)),
      (''strBackup4'', ser_opt JString (str_backup4 r)),
      (''strBackup5'', ser_opt JString (str_backup5 r)),
      (''strBackup6'', ser_opt JString (str_backup6 r)),
      (''strBackup7'', ser_opt JString (str_backup7 r)),
      (''strBackup8'', ser_opt JString (str_backup8 r)),
      (''strBackup9'', ser_opt JString (str_backup9 r)),
      (''numBackup1'', ser_opt (dl_ser_decimal D) (num_backup1 r)),
      (''numBackup2'', ser_opt (dl_ser_decimal D) (num_backup2 r)),
      (''numBackup3'', ser_opt (dl_ser_decimal D) (num_backup3 r)),
      (''numBackup4'', ser_opt (dl_ser_decimal D) (num_backup4 r)),
      (''numBackup5'', ser_opt (dl_ser_decimal D) (num_backup5 r)),
      (''numBackup6'', ser_opt (dl_ser_decimal D) (num_backup6 r)),
      (''numBackup7'', ser_opt (dl_ser_decimal D) (num_backup7 r)),
      (''numBackup8'', ser_opt (dl_ser_decimal D) (num_backup8 r)),
      (''numBackup9'', ser_opt (dl_ser_decimal D) (num_backup9 r)),
      (''timeBackup1'', ser_opt (dl_ser_naive D) (time_backup1 r)),
      (''timeBackup2'', ser_opt (dl_ser_naive D) (time_backup2 r)),
      (''timeBackup3'', ser_opt (dl_ser_naive D) (time_backup3 r)),
      (''fGuid'', ser_opt (dl_ser_uuid D) (f_guid r)),
      (''fID'', ser_opt ser_i64 (f_id r)),
      (''relNo'', ser_opt JString (rel_no r)),
      (''relSer'', ser_opt JString (rel_ser r)),
      (''regNo'', ser_opt JString (reg_no r)),
      (''dataType'', ser_opt JString (data_type r)),
      (''dataLog'', ser_opt JString (data_log r)),
      (''isFinish'', ser_opt ser_i32 (is_finish r)),
      (''remark'', ser_opt JString (remark r)),
      (''del_flag'', ser_opt ser_i32 (del_flag r))]"

definition weight_info_sync_de :: "dto_lib \<Rightarrow> json \<Rightarrow> (weight_info, string) result" where
  "weight_info_sync_de D j =
     and_then (dto_req de_string [''serialNo''] 0 j) (\<lambda>x_serial_no.
     and_then (dto_opt de_string [''sysNo''] 1 j) (\<lambda>x_sys_no.
     and_then (dto_opt de_string [''setId''] 2 j) (\<lambda>x_set_id.
     and_then (dto_opt de_string [''cardNo''] 3 j) (\<lambda>x_card_no.
     and_then (dto_opt de_string [''plateNo''] 4 j) (\<lambda>x_plate_no.
     and_then (dto_opt de_string [''weightType''] 5 j) (\<lambda>x_weight_type.
     and_then (dto_opt de_string [''transportUnit''] 6 j) (\<lambda>x_transport_unit.
     and_then (dto_opt de_string [''forwardingUnit''] 7 j) (\<lambda>x_forwarding_unit.
     and_then (dto_opt de_string [''consigneeUnit''] 8 j) (\<lambda>x_consignee_unit.
     and_then (dto_opt de_string [''goodsName''] 9 j) (\<lambda>x_goods_name.
     and_then (dto_opt de_string [''goodsSpec''] 10 j) (\<lambda>x_goods_spec.
     and_then (dto_opt (dl_de_decimal D) [''grossWeight''] 11 j) (\<lambda>x_gross_weight.
     and_then (dto_opt (dl_de_decimal D) [''tareWeight''] 12 j) (\<lambda>x_tare_weight.
     and_then (dto_opt (dl_de_decimal D) [''netWeight''] 13 j) (\<lambda>x_net_weight.
     and_then (dto_opt (dl_de_decimal D) [''buckleWeight''] 14 j) (\<lambda>x_buckle_weight.
     and_then (dto_opt (dl_de_decimal D) [''actualWeight''] 15 j) (\<lambda>x_actual_weight.
     and_then (dto_opt de_string [''weightUnit''] 16 j) (\<lambda>x_weight_unit.
     and_then (dto_opt (dl_de_decimal D) [''unitPrice''] 17 j) (\<lambda>x_unit_price.
     and_then (dto_opt (dl_de_decimal D) [''sumAmt''] 18 j) (\<lambda>x_sum_amt.
     and_then (dto_opt de_string [''scaleNum''] 19 j) (\<lambda>x_scale_num.
     and_then (dto_opt de_string [''squareNum''] 20 j) (\<lambda>x_square_num.
     and_then (dto_opt (dl_de_decimal D) [''weighingFee''] 21 j) (\<lambda>x_weighing_fee.
     and_then (dto_opt de_string [''grossStation''] 22 j) (\<lambda>x_gross_station.
     and_then (dto_opt de_string [''tareStation''] 23 j) (\<lambda>x_tare_station.
     and_then (dto_opt de_string [''grossMan''] 24 j) (\<lambda>x_gross_man.
     and_then (dto_opt de_string [''tareMan''] 25 j) (\<lambda>x_tare_man.
     and_then (dto_opt (dl_de_naive D) [''grossTime''] 26 j) (\<lambda>x_gross_time.
     and_then (dto_opt (dl_de_naive D) [''tareTime''] 27 j) (\<lambda>x_tare_time.
     and_then (dto_opt (dl_de_naive D) [''firstTime''] 28 j) (\<lambda>x_first_time.
     and_then (dto_opt (dl_de_naive D) [''secondTime''] 29 j) (\<lambda>x_second_time.
     and_then (dto_opt (dl_de_naive D) [''updateTime''] 30 j) (\<lambda>x_update_time.
     and_then (dto_opt de_i32 [''printNum''] 31 j) (\<lambda>x_print_num.
     and_then (dto_opt de_i32 [''isCancle''] 32 j) (\<lambda>x_is_cancle.
     and_then (dto_opt de_i32 [''isUploadLocal''] 33 j) (\<lambda>x_is_upload_local.
     and_then (dto_opt de_i32 [''isUploadCloud''] 34 j) (\<lambda>x_is_upload_cloud.
     and_then (dto_opt de_string [''strBackup1''] 35 j) (\<lambda>x_str_backup1.
     and_then (dto_opt de_string [''strBackup2''] 36 j) (\<lambda>x_str_backup2.
     and_then (dto_opt de_string [''strBackup3''] 37 j) (\<lambda>x_str_backup3.
     and_then (dto_opt de_string [''strBackup4''] 38 j) (\<lambda>x_str_backup4.
     and_then (dto_opt de_string [''strBackup5''] 39 j) (\<lambda>x_str_backup5.
     and_then (dto_opt de_string [''strBackup6''] 40 j) (\<lambda>x_str_backup6.
     and_then (dto_opt de_string [''strBackup7''] 41 j) (\<lambda>x_str_backup7.
     and_then (dto_opt de_string [''strBackup8''] 42 j) (\<lambda>x_str_backup8.
     and_then (dto_opt de_string [''strBackup9''] 43 j) (\<lambda>x_str_backup9.
     and_then (dto_opt (dl_de_decimal D) [''numBackup1''] 44 j) (\<lambda>x_num_backup1.
     and_then (dto_opt (dl_de_decimal D) [''numBackup2''] 45 j) (\<lambda>x_num_backup2.
     and_then (dto_opt (dl_de_decimal D) [''numBackup3''] 46 j) (\<lambda>x_num_backup3.
     and_then (dto_opt (dl_de_decimal D) [''numBackup4''] 47 j) (\<lambda>x_num_backup4.
     and_then (dto_opt (dl_de_decimal D) [''numBackup5''] 48 j) (\<lambda>x_num_backup5.
     and_then (dto_opt (dl_de_decimal D) [''numBackup6''] 49 j) (\<lambda>x_num_backup6.
     and_then (dto_opt (dl_de_decimal D) [''numBackup7''] 50 j) (\<lambda>x_num_backup7.
     and_then (dto_opt (dl_de_decimal D) [''numBackup8''] 51 j) (\<lambda>x_num_backup8.
     and_then (dto_opt (dl_de_decimal D) [''numBackup9''] 52 j) (\<lambda>x_num_backup9.
     and_then (dto_opt (dl_de_naive D) [''timeBackup1''] 53 j) (\<lambda>x_time_backup1.
     and_then (dto_opt (dl_de_naive D) [''timeBackup2''] 54 j) (\<lambda>x_time_backup2.
     and_then (dto_opt (dl_de_naive D) [''timeBackup3''] 55 j) (\<lambda>x_time_backup3.
     and_then (dto_opt (dl_de_uuid D) [''fGuid''] 56 j) (\<lambda>x_f_guid.
     and_then (dto_opt de_i64 [''fID''] 57 j) (\<lambda>x_f_id.
     and_then (dto_opt de_string [''relNo''] 58 j) (\<lambda>x_rel_no.
     and_then (dto_opt de_string [''relSer''] 59 j) (\<lambda>x_rel_ser.
     and_then (dto_opt de_string [''regNo''] 60 j) (\<lambda>x_reg_no.
     and_then (dto_opt de_string [''dataType''] 61 j) (\<lambda>x_data_type.
     and_then (dto_opt de_string [''dataLog''] 62 j) (\<lambda>x_data_log.
     and_then (dto_opt de_i32 [''isFinish''] 63 j) (\<lambda>x_is_finish.
     and_then (dto_opt de_string [''remark''] 64 j) (\<lambda>x_remark.
     and_then (dto_opt de_i32 [''del_flag''] 65 j) (\<lambda>x_del_flag.
     and_then (dto_no_more 66 j) (\<lambda>_.
       Ok \<lparr>serial_no = x_serial_no, sys_no = x_sys_no, set_id = x_set_id, card_no = x_card_no,
        plate_no = x_plate_no, weight_type = x_weight_type, transport_unit = x_transport_unit,
        forwarding_unit = x_forwarding_unit, consignee_unit = x_consignee_unit,
        goods_name = x_goods_name, goods_spec = x_goods_spec, gross_weight = x_gross_weight,
        tare_weight = x_tare_weight, net_weight = x_net_weight, buckle_weight = x_buckle_weight,
        actual_weight = x_actual_weight, weight_unit = x_weight_unit, unit_price = x_unit_price,
        sum_amt = x_sum_amt, scale_num = x_scale_num, square_num = x_square_num,
        weighing_fee = x_weighing_fee, gross_station = x_gross_station,
        tare_station = x_tare_station, gross_man = x_gross_man, tare_man = x_tare_man,
        gross_time = x_gross_time, tare_time = x_tare_time, first_time = x_first_time,
        second_time = x_second_time, update_time = x_update_time, print_num = x_print_num,
        is_cancle = x_is_cancle, is_upload_local = x_is_upload_local,
        is_upload_cloud = x_is_upload_cloud, str_backup1 = x_str_backup1,
        str_backup2 = x_str_backup2, str_backup3 = x_str_backup3, str_backup4 = x_str_backup4,
        str_backup5 = x_str_backup5, str_backup6 = x_str_backup6, str_backup7 = x_str_backup7,
        str_backup8 = x_str_backup8, str_backup9 = x_str_backup9, num_backup1 = x_num_backup1,
        num_backup2 = x_num_backup2, num_backup3 = x_num_backup3, num_backup4 = x_num_backup4,
        num_backup5 = x_num_backup5, num_backup6 = x_num_backup6, num_backup7 = x_num_backup7,
        num_backup8 = x_num_backup8, num_backup9 = x_num_backup9, time_backup1 = x_time_backup1,
        time_backup2 = x_time_backup2, time_backup3 = x_time_backup3, f_guid = x_f_guid,
        f_id = x_f_id, rel_no = x_rel_no, rel_ser = x_rel_ser, reg_no = x_reg_no,
        data_type = x_data_type, data_log = x_data_log, is_finish = x_is_finish,
        remark = x_remark, del_flag = x_del_flag\<rparr>)))))))))))))))))))))))))))))))))))))))))))))))))))))))))))))))))))"

definition WEIGHT_INFO_MYSQL_COLUMNS :: "string list" where
  "WEIGHT_INFO_MYSQL_COLUMNS =
     [''serial_no'', ''sys_no'', ''set_id'', ''card_no'', ''plate_no'', ''weight_type'',
      ''transport_unit'', ''forwarding_unit'', ''consignee_unit'', ''goods_name'',
      ''goods_spec'', ''gross_weight'', ''tare_weight'', ''net_weight'', ''buckle_weight'',
      ''actual_weight'', ''weight_unit'', ''unit_price'', ''sum_amt'', ''scale_num'',
      ''square_num'', ''weighing_fee'', ''gross_station'', ''tare_station'', ''gross_man'',
      ''tare_man'', ''gross_time'', ''tare_time'', ''first_time'', ''second_time'',
      ''update_time'', ''print_num'', ''is_cancle'', ''is_upload_local'',
      ''is_upload_cloud'', ''str_backup1'', ''str_backup2'', ''str_backup3'',
      ''str_backup4'', ''str_backup5'', ''str_backup6'', ''str_backup7'', ''str_backup8'',
      ''str_backup9'', ''num_backup1'', ''num_backup2'', ''num_backup3'', ''num_backup4'',
      ''num_backup5'', ''num_backup6'', ''num_backup7'', ''num_backup8'', ''num_backup9'',
      ''time_backup1'', ''time_backup2'', ''time_backup3'', ''f_guid'', ''f_id'',
      ''rel_no'', ''rel_ser'', ''reg_no'', ''data_type'', ''data_log'', ''is_finish'',
      ''remark'', ''del_flag'']"

section \<open>WeightPhotoSyncRecord\<close>

definition weight_photo_sync_fields :: "dto_lib \<Rightarrow> weight_photo \<Rightarrow> (string \<times> json) list" where
  "weight_photo_sync_fields D r =
     [(''id'', ser_i64 (photo_id r)),
      (''serialNo'', ser_opt JString (photo_serial_no r)),
      (''plateNumber'', ser_opt JString (plate_number r)),
      (''imageType'', ser_opt JString (image_type r)),
      (''captureTime'', ser_opt (dl_ser_naive D) (capture_time r)),
      (''captureImage'', ser_opt ser_bytes (capture_image r)),
      (''clientId'', ser_opt JString (client_id r)),
      (''consigneeUnit'', ser_opt JString (photo_consignee_unit r)),
      (''forwardingUnit'', ser_opt JString (photo_forwarding_unit r)),
      (''delFlag'', ser_opt ser_i32 (photo_del_flag r))]"

definition weight_photo_sync_de :: "dto_lib \<Rightarrow> json \<Rightarrow> (weight_photo, string) result" where
  "weight_photo_sync_de D j =
     and_then (dto_req de_i64 [''id''] 0 j) (\<lambda>x_id.
     and_then (dto_opt de_string [''serialNo''] 1 j) (\<lambda>x_serial_no.
     and_then (dto_opt de_string [''plateNumber''] 2 j) (\<lambda>x_plate_number.
     and_then (dto_opt de_string [''imageType''] 3 j) (\<lambda>x_image_type.
     and_then (dto_opt (dl_de_naive D) [''captureTime''] 4 j) (\<lambda>x_capture_time.
     and_then (dto_opt de_bytes [''captureImage''] 5 j) (\<lambda>x_capture_image.
     and_then (dto_opt de_string [''clientId''] 6 j) (\<lambda>x_client_id.
     and_then (dto_opt de_string [''consigneeUnit''] 7 j) (\<lambda>x_consignee_unit.
     and_then (dto_opt de_string [''forwardingUnit''] 8 j) (\<lambda>x_forwarding_unit.
     and_then (dto_opt de_i32 [''delFlag''] 9 j) (\<lambda>x_del_flag.
     and_then (dto_no_more 10 j) (\<lambda>_.
       Ok \<lparr>photo_id = x_id, photo_serial_no = x_serial_no, plate_number = x_plate_number,
        image_type = x_image_type, capture_time = x_capture_time,
        capture_image = x_capture_image, client_id = x_client_id,
        photo_consignee_unit = x_consignee_unit, photo_forwarding_unit = x_forwarding_unit,
        photo_del_flag = x_del_flag\<rparr>)))))))))))"

definition WEIGHT_PHOTO_MYSQL_COLUMNS :: "string list" where
  "WEIGHT_PHOTO_MYSQL_COLUMNS =
     [''id'', ''serial_no'', ''plate_number'', ''image_type'', ''capture_time'',
      ''capture_image'', ''client_id'', ''consignee_unit'', ''forwarding_unit'',
      ''del_flag'']"

section \<open>LocalWeighingRecordSyncRecord\<close>

record local_sync_record =
  ls_id :: uuid
  ls_ticket_no :: string
  ls_scale_no :: string
  ls_plate_no :: "string option"
  ls_weight_kg :: f64
  ls_original_unit :: string
  ls_measured_at :: datetime
  ls_status :: string
  ls_retry_count :: i64
  ls_last_error :: "string option"
  ls_created_at :: datetime
  ls_updated_at :: datetime

definition local_sync_fields :: "dto_lib \<Rightarrow> local_sync_record \<Rightarrow> (string \<times> json) list" where
  "local_sync_fields D r =
     [(''id'', dl_ser_uuid D (ls_id r)),
      (''ticket_no'', JString (ls_ticket_no r)),
      (''scale_no'', JString (ls_scale_no r)),
      (''plate_no'', ser_opt JString (ls_plate_no r)),
      (''weight_kg'', json_f64 (ls_weight_kg r)),
      (''original_unit'', JString (ls_original_unit r)),
      (''measured_at'', dl_ser_utc D (ls_measured_at r)),
      (''status'', JString (ls_status r)),
      (''retry_count'', ser_i64 (ls_retry_count r)),
      (''last_error'', ser_opt JString (ls_last_error r)),
      (''created_at'', dl_ser_utc D (ls_created_at r)),
      (''updated_at'', dl_ser_utc D (ls_updated_at r))]"

definition local_sync_de :: "dto_lib \<Rightarrow> json \<Rightarrow> (local_sync_record, string) result" where
  "local_sync_de D j =
     and_then (dto_req (dl_de_uuid D) [''id''] 0 j) (\<lambda>x_id.
     and_then (dto_req de_string [''ticket_no''] 1 j) (\<lambda>x_ticket_no.
     and_then (dto_req de_string [''scale_no''] 2 j) (\<lambda>x_scale_no.
     and_then (dto_opt de_string [''plate_no''] 3 j) (\<lambda>x_plate_no.
     and_then (dto_req (de_f64 D) [''weight_kg''] 4 j) (\<lambda>x_weight_kg.
     and_then (dto_req de_string [''original_unit''] 5 j) (\<lambda>x_original_unit.
     and_then (dto_req (dl_de_utc D) [''measured_at''] 6 j) (\<lambda>x_measured_at.
     and_then (dto_req de_string [''status''] 7 j) (\<lambda>x_status.
     and_then (dto_req de_i64 [''retry_count''] 8 j) (\<lambda>x_retry_count.
     and_then (dto_opt de_string [''last_error''] 9 j) (\<lambda>x_last_error.
     and_then (dto_req (dl_de_utc D) [''created_at''] 10 j) (\<lambda>x_created_at.
     and_then (dto_req (dl_de_utc D) [''updated_at''] 11 j) (\<lambda>x_updated_at.
     and_then (dto_no_more 12 j) (\<lambda>_.
       Ok \<lparr>ls_id = x_id, ls_ticket_no = x_ticket_no, ls_scale_no = x_scale_no,
        ls_plate_no = x_plate_no, ls_weight_kg = x_weight_kg, ls_original_unit = x_original_unit,
        ls_measured_at = x_measured_at, ls_status = x_status, ls_retry_count = x_retry_count,
        ls_last_error = x_last_error, ls_created_at = x_created_at, ls_updated_at = x_updated_at\<rparr>)))))))))))))"

section \<open>WeighingDataSyncPutRequest and WeighingDataSyncPutResponse\<close>

record sync_put_request =
  pq_source :: string
  pq_database :: string
  pq_table :: string
  pq_uploaded_at :: datetime
  pq_records :: "weight_info list"
  pq_weight_photo_records :: "weight_photo list"
  pq_local_cache_records :: "local_sync_record list"

definition sync_put_request_json :: "dto_lib \<Rightarrow> sync_put_request \<Rightarrow> json" where
  "sync_put_request_json D q =
     json_object
       [(''source'', JString (pq_source q)),
        (''database'', JString (pq_database q)),
        (''table'', JString (pq_table q)),
        (''uploaded_at'', dl_ser_utc D (pq_uploaded_at q)),
        (''records'', JArray (map (json_object \<circ> weight_info_sync_fields D) (pq_records q))),
        (''weight_photo_records'',
           JArray (map (json_object \<circ> weight_photo_sync_fields D) (pq_weight_photo_records q))),
        (''local_cache_records'',
           JArray (map (json_object \<circ> local_sync_fields D) (pq_local_cache_records q)))]"

definition sync_put_request_de :: "dto_lib \<Rightarrow> json \<Rightarrow> (sync_put_request, string) result" where
  "sync_put_request_de D j =
     and_then (dto_req de_string [''source''] 0 j) (\<lambda>x_source.
     and_then (dto_req de_string [''database''] 1 j) (\<lambda>x_database.
     and_then (dto_req de_string [''table''] 2 j) (\<lambda>x_table.
     and_then (dto_req (dl_de_utc D) [''uploaded_at''] 3 j) (\<lambda>x_uploaded_at.
     and_then (dto_dflt (de_vec (weight_info_sync_de D)) [] [''records'', ''weight_info_records''] 4 j)
       (\<lambda>x_records.
     and_then (dto_dflt (de_vec (weight_photo_sync_de D)) [] [''weight_photo_records''] 5 j) (\<lambda>x_photos.
     and_then (dto_dflt (de_vec (local_sync_de D)) [] [''local_cache_records''] 6 j) (\<lambda>x_locals.
     and_then (dto_no_more 7 j) (\<lambda>_.
       Ok \<lparr>pq_source = x_source, pq_database = x_database, pq_table = x_table,
         pq_uploaded_at = x_uploaded_at, pq_records = x_records, pq_weight_photo_records = x_photos,
         pq_local_cache_records = x_locals\<rparr>))))))))"

record sync_put_response =
  pp_request_id :: uuid
  pp_accepted :: bool
  pp_accepted_serial_nos :: "string list"
  pp_failed_serial_nos :: "string list"
  pp_records_count :: usize
  pp_received_at :: datetime

definition sync_put_response_json :: "dto_lib \<Rightarrow> sync_put_response \<Rightarrow> json" where
  "sync_put_response_json D p =
     json_object
       [(''request_id'', dl_ser_uuid D (pp_request_id p)),
        (''accepted'', JBool (pp_accepted p)),
        (''accepted_serial_nos'', JArray (map JString (pp_accepted_serial_nos p))),
        (''failed_serial_nos'', JArray (map JString (pp_failed_serial_nos p))),
        (''records_count'', ser_usize (pp_records_count p)),
        (''received_at'', dl_ser_utc D (pp_received_at p))]"

definition sync_put_response_de :: "dto_lib \<Rightarrow> json \<Rightarrow> (sync_put_response, string) result" where
  "sync_put_response_de D j =
     and_then (dto_req (dl_de_uuid D) [''request_id''] 0 j) (\<lambda>x_request_id.
     and_then (dto_req de_boolean [''accepted''] 1 j) (\<lambda>x_accepted.
     and_then (dto_dflt (de_vec de_string) [] [''accepted_serial_nos''] 2 j) (\<lambda>x_accepted_serial_nos.
     and_then (dto_dflt (de_vec de_string) [] [''failed_serial_nos''] 3 j) (\<lambda>x_failed_serial_nos.
     and_then (dto_req de_usize64 [''records_count''] 4 j) (\<lambda>x_records_count.
     and_then (dto_req (dl_de_utc D) [''received_at''] 5 j) (\<lambda>x_received_at.
     and_then (dto_no_more 6 j) (\<lambda>_.
       Ok \<lparr>pp_request_id = x_request_id, pp_accepted = x_accepted,
         pp_accepted_serial_nos = x_accepted_serial_nos, pp_failed_serial_nos = x_failed_serial_nos,
         pp_records_count = x_records_count, pp_received_at = x_received_at\<rparr>)))))))"

section \<open>What the other crates promise\<close>

text \<open>
  The values a \<open>Decimal\<close> holds: a 96-bit integer and at most 28 fractional digits. It is read from the
  text with exactly these digits; the other conversions read what they write, times within
  RFC 3339, and none writes \<open>null\<close>.
\<close>

definition decimal_ok :: "decimal \<Rightarrow> bool" where
  "decimal_ok d \<longleftrightarrow> \<bar>sint (num_value d)\<bar> < 2 ^ 96 \<and> unat (num_scale d) \<le> 28"

locale dto_laws =
  fixes D :: dto_lib
  assumes decimal_back: "decimal_ok d \<Longrightarrow> dl_de_decimal D (dl_ser_decimal D d) = Ok d"
    and decimal_text: "decimal_ok d \<Longrightarrow> format_numeric d = Some s \<Longrightarrow> dl_de_decimal D (JString s) = Ok d"
    and naive_back: "dl_de_naive D (dl_ser_naive D t) = Ok t"
    and utc_back: "rfc3339_range u \<Longrightarrow> dl_de_utc D (dl_ser_utc D u) = Ok u"
    and uuid_back: "dl_de_uuid D (dl_ser_uuid D i) = Ok i"
    and not_null: "dl_ser_decimal D d \<noteq> JNull" "dl_ser_naive D t \<noteq> JNull" "dl_ser_uuid D i \<noteq> JNull"

section \<open>Lemmas\<close>

lemma de_int_ser [simp]:
  "de_i32 (ser_i32 a) = Ok a" "de_i64 (ser_i64 b) = Ok b" "de_usize64 (ser_usize c) = Ok c"
  using sint_lt [of a] sint_ge [of a] sint_lt [of b] sint_ge [of b] uint_lt2p [of c]
  by (simp_all add: de_i32_def ser_i32_def de_i64_def ser_i64_def de_usize64_def ser_usize_def de_int_def)

lemma de_byte_ser [simp]: "de_byte (JNumber (JInt (uint b))) = Ok (b :: u8)"
  using uint_lt2p [of b] by (simp add: de_byte_def de_int_def)

lemma de_vec_map:
  "(\<And>x. x \<in> set xs \<Longrightarrow> conv (f x) = Ok x) \<Longrightarrow> de_vec conv (JArray (map f xs)) = Ok xs"
proof -
  assume a: "\<And>x. x \<in> set xs \<Longrightarrow> conv (f x) = Ok x"
  have "collect (map (conv \<circ> f) xs) = Ok xs" using a by (induction xs) simp_all
  then show ?thesis by (simp add: de_vec_def)
qed

lemma de_bytes_ser [simp]: "de_bytes (ser_bytes xs) = Ok xs"
  unfolding de_bytes_def ser_bytes_def by (rule de_vec_map) simp

lemma de_simple_ser [simp]:
  "de_string (JString s) = Ok s" "de_boolean (JBool b) = Ok b"
  by (simp_all add: de_string_def de_boolean_def)

lemma ser_not_null [simp]:
  "ser_i32 a \<noteq> JNull" "ser_i64 b \<noteq> JNull" "ser_bytes xs \<noteq> JNull"
  by (simp_all add: ser_i32_def ser_i64_def ser_bytes_def)

lemma de_nullable_ser:
  "(\<And>v. x = Some v \<Longrightarrow> conv (f v) = Ok v \<and> f v \<noteq> JNull) \<Longrightarrow> de_nullable conv (ser_opt f x) = Ok x"
  by (cases x) (simp_all add: de_nullable_def ser_opt_def)

text \<open>A field of an object.\<close>

definition opt_at :: "(json \<Rightarrow> ('a, string) result) \<Rightarrow> json_map \<Rightarrow> string \<Rightarrow> ('a option, string) result" where
  "opt_at conv m k = (case map_of m k of Some v \<Rightarrow> de_nullable conv v | None \<Rightarrow> Ok None)"

lemma dto_object [simp]:
  "dto_opt conv [k] i (JObject m) = opt_at conv m k"
  "dto_no_more n (JObject m) = Ok ()"
  by (simp_all add: dto_opt_def dto_get_def dto_no_more_def is_array_def opt_at_def map_filter_simps
      split: option.splits)

lemma dto_req_object:
  "map_of m k = Some v \<Longrightarrow> dto_req conv [k] i (JObject m) = conv v"
  by (simp add: dto_req_def dto_get_def map_filter_simps)

lemma dto_dflt_object:
  "map_of m k = Some v \<Longrightarrow> dto_dflt conv d [k] i (JObject m) = conv v"
  by (simp add: dto_dflt_def dto_get_def map_filter_simps)

lemma dto_dflt_alias:
  "map_of m k = Some v \<Longrightarrow> map_of m k' = None \<Longrightarrow> dto_dflt conv d [k, k'] i (JObject m) = conv v"
  by (simp add: dto_dflt_def dto_get_def map_filter_simps)

lemma opt_at_Some:
  "map_of m k = Some v \<Longrightarrow> opt_at conv m k = de_nullable conv v"
  by (simp add: opt_at_def)

text \<open>A struct's object, as a map.\<close>

lemma map_of_rev_distinct: "distinct (map fst xs) \<Longrightarrow> map_of (rev xs) = map_of xs"
  by (intro map_of_eqI) (auto simp: map_of_eq_Some_iff rev_map [symmetric] dom_map_of_conv_image_fst)

lemma json_object_fields:
  "distinct (map fst fs) \<Longrightarrow> \<exists>m. json_object fs = JObject m \<and> map_of m = map_of fs"
  unfolding json_object_def map_of_json_fields map_new_def
  by (intro exI conjI, rule refl) (simp add: map_of_json_fields map_new_def map_of_rev_distinct)

section \<open>Rows of the weighing table\<close>

text \<open>A cell of the row, as the field of that name in the structure.\<close>

definition cell_json :: "dto_lib \<Rightarrow> column_data \<Rightarrow> json" where
  "cell_json D v =
     (case v of
        String s \<Rightarrow> ser_opt JString s
      | Numeric d \<Rightarrow> ser_opt (dl_ser_decimal D) d
      | DateTime t \<Rightarrow> ser_opt (dl_ser_naive D) (map_option hd t)
      | I32 n \<Rightarrow> ser_opt ser_i32 n
      | I64 n \<Rightarrow> ser_opt ser_i64 n
      | Guid u \<Rightarrow> ser_opt (dl_ser_uuid D) u
      | _ \<Rightarrow> JNull)"

lemma ser_opt_None_hd: "map_option hd (map_option (\<lambda>t. [t]) x) = x"
  by (cases x) simp_all

lemma weight_info_sync_cells:
  "weight_info_sync_fields D r = map (\<lambda>(k, _, v). (k, cell_json D v)) (weight_info_cells r)"
  by (simp add: weight_info_sync_fields_def weight_info_cells_def col_defs cell_json_def
      ser_opt_None_hd ser_opt_def [of JString "Some _"])

lemma weight_info_sync_names: "map fst (weight_info_sync_fields D r) = WEIGHT_INFO_COLUMNS"
  by (simp add: weight_info_sync_fields_def WEIGHT_INFO_COLUMNS_def)

text \<open>What the structure reads in a field is the cell.\<close>

definition reads_cell :: "dto_lib \<Rightarrow> json_map \<Rightarrow> string \<Rightarrow> column_data \<Rightarrow> bool" where
  "reads_cell D m k v =
     (case v of
        String s \<Rightarrow> opt_at de_string m k = Ok s
      | Numeric d \<Rightarrow> opt_at (dl_de_decimal D) m k = Ok d
      | DateTime t \<Rightarrow> opt_at (dl_de_naive D) m k = Ok (map_option hd t)
      | I32 n \<Rightarrow> opt_at de_i32 m k = Ok n
      | I64 n \<Rightarrow> opt_at de_i64 m k = Ok n
      | Guid u \<Rightarrow> opt_at (dl_de_uuid D) m k = Ok u
      | _ \<Rightarrow> False)"

lemma req_of_opt:
  "opt_at conv m k = Ok (Some x) \<Longrightarrow> dto_req conv [k] i (JObject m) = Ok x"
  by (auto simp: opt_at_def de_nullable_def dto_req_def dto_get_def map_filter_simps and_then_Ok_iff
      split: option.splits if_splits)

lemma sync_de_of_cells:
  assumes "list_all (\<lambda>(k, _, v). reads_cell D m k v) (weight_info_cells r)"
  shows "weight_info_sync_de D (JObject m) = Ok r"
proof -
  have "list_all (\<lambda>(k, _, v). reads_cell D m k v) (weight_info_cells r)" by (rule assms)
  then have "opt_at de_string m ''serialNo'' = Ok (Some (serial_no r))"
    by (simp add: weight_info_cells_def col_defs reads_cell_def)
  from req_of_opt [OF this] show ?thesis
    using assms
    by (simp add: weight_info_sync_de_def weight_info_cells_def col_defs reads_cell_def ser_opt_None_hd)
qed

text \<open>Decimals that a \<open>Decimal\<close> can hold.\<close>

definition decimals_ok :: "weight_info \<Rightarrow> bool" where
  "decimals_ok r \<longleftrightarrow>
     list_all (\<lambda>(_, _, v). case v of Numeric (Some d) \<Rightarrow> decimal_ok d | _ \<Rightarrow> True) (weight_info_cells r)"

definition local_sync_ok :: "local_sync_record \<Rightarrow> bool" where
  "local_sync_ok r \<longleftrightarrow>
     is_finite (ls_weight_kg r) \<and> rfc3339_range (ls_measured_at r) \<and> rfc3339_range (ls_created_at r) \<and>
     rfc3339_range (ls_updated_at r)"

definition sync_request_ok :: "sync_put_request \<Rightarrow> bool" where
  "sync_request_ok q \<longleftrightarrow>
     rfc3339_range (pq_uploaded_at q) \<and> list_all decimals_ok (pq_records q) \<and>
     list_all local_sync_ok (pq_local_cache_records q)"

definition no_times :: "weight_info \<Rightarrow> bool" where
  "no_times r \<longleftrightarrow>
     gross_time r = None \<and> tare_time r = None \<and> first_time r = None \<and> second_time r = None \<and>
     update_time r = None \<and> time_backup1 r = None \<and> time_backup2 r = None \<and> time_backup3 r = None"

lemma decimals_ok_cell: "decimals_ok r \<Longrightarrow> (k, ty, Numeric (Some d)) \<in> set (weight_info_cells r) \<Longrightarrow> decimal_ok d"
  by (fastforce simp: decimals_ok_def list_all_iff)

context dto_laws
begin

lemma cell_reads_back:
  assumes "map_of m k = Some (cell_json D v)" and "entity_cell v"
    and "\<And>d. v = Numeric (Some d) \<Longrightarrow> decimal_ok d"
  shows "reads_cell D m k v"
proof (cases v)
  case (DateTime ts)
  then show ?thesis
    using assms naive_back not_null(2)
    by (auto simp: reads_cell_def cell_json_def opt_at_Some entity_cell_def length_Suc_conv
        intro!: de_nullable_ser split: option.splits)
qed (use assms decimal_back uuid_back not_null in
    \<open>auto simp: reads_cell_def cell_json_def opt_at_Some entity_cell_def intro!: de_nullable_ser\<close>)

lemma weight_info_back:
  assumes "decimals_ok r"
  shows "weight_info_sync_de D (json_object (weight_info_sync_fields D r)) = Ok r"
proof -
  have "distinct (map fst (weight_info_sync_fields D r))"
    using columns_distinct by (simp add: weight_info_sync_names)
  then obtain m where m: "json_object (weight_info_sync_fields D r) = JObject m"
    "map_of m = map_of (weight_info_sync_fields D r)"
    using json_object_fields by blast
  have "reads_cell D m k v" if "(k, ty, v) \<in> set (weight_info_cells r)" for k ty v
  proof (rule cell_reads_back)
    have "(k, cell_json D v) \<in> set (weight_info_sync_fields D r)"
      using that by (force simp: weight_info_sync_cells)
    then show "map_of m k = Some (cell_json D v)"
      using m(2) \<open>distinct (map fst (weight_info_sync_fields D r))\<close> by simp
    show "entity_cell v" using weight_info_entity_cells [of r] that by (fastforce simp: list_all_iff)
    show "decimal_ok d" if "v = Numeric (Some d)" for d
      using decimals_ok_cell [OF assms] \<open>(k, ty, v) \<in> _\<close> that by blast
  qed
  then show ?thesis unfolding m(1) by (intro sync_de_of_cells) (auto simp: list_all_iff)
qed

lemma weight_photo_back:
  "weight_photo_sync_de D (json_object (weight_photo_sync_fields D r)) = Ok r"
proof -
  have "distinct (map fst (weight_photo_sync_fields D r))" by (simp add: weight_photo_sync_fields_def)
  then obtain m where m: "json_object (weight_photo_sync_fields D r) = JObject m"
    "map_of m = map_of (weight_photo_sync_fields D r)"
    using json_object_fields by blast
  then show ?thesis
    unfolding m(1)
    by (simp add: weight_photo_sync_de_def opt_at_def dto_req_object m(2) weight_photo_sync_fields_def de_nullable_ser
        naive_back not_null)
qed

lemma local_sync_back:
  assumes "local_sync_ok r"
  shows "local_sync_de D (json_object (local_sync_fields D r)) = Ok r"
proof -
  have "distinct (map fst (local_sync_fields D r))" by (simp add: local_sync_fields_def)
  then obtain m where m: "json_object (local_sync_fields D r) = JObject m"
    "map_of m = map_of (local_sync_fields D r)"
    using json_object_fields by blast
  have "de_f64 D (json_f64 (ls_weight_kg r)) = Ok (ls_weight_kg r)"
    using assms by (simp add: json_f64_def de_f64_def local_sync_ok_def)
  then show ?thesis
    using assms unfolding m(1)
    by (simp add: local_sync_de_def opt_at_def dto_req_object m(2) local_sync_fields_def de_nullable_ser
        uuid_back utc_back local_sync_ok_def)
qed

lemma sync_request_back:
  assumes "sync_request_ok q"
  shows "sync_put_request_de D (sync_put_request_json D q) = Ok q"
proof -
  have v: "de_vec (weight_info_sync_de D) (JArray (map (json_object \<circ> weight_info_sync_fields D) (pq_records q)))
      = Ok (pq_records q)"
    "de_vec (weight_photo_sync_de D) (JArray (map (json_object \<circ> weight_photo_sync_fields D)
      (pq_weight_photo_records q))) = Ok (pq_weight_photo_records q)"
    "de_vec (local_sync_de D) (JArray (map (json_object \<circ> local_sync_fields D) (pq_local_cache_records q)))
      = Ok (pq_local_cache_records q)"
    using assms weight_info_back weight_photo_back local_sync_back
    by (auto intro!: de_vec_map simp: sync_request_ok_def list_all_iff)
  define fs where "fs = [(''source'', JString (pq_source q)),
        (''database'', JString (pq_database q)),
        (''table'', JString (pq_table q)),
        (''uploaded_at'', dl_ser_utc D (pq_uploaded_at q)),
        (''records'', JArray (map (json_object \<circ> weight_info_sync_fields D) (pq_records q))),
        (''weight_photo_records'',
           JArray (map (json_object \<circ> weight_photo_sync_fields D) (pq_weight_photo_records q))),
        (''local_cache_records'',
           JArray (map (json_object \<circ> local_sync_fields D) (pq_local_cache_records q)))]"
  have "distinct (map fst fs)" by (simp add: fs_def)
  then obtain m where m: "json_object fs = JObject m" "map_of m = map_of fs"
    using json_object_fields by blast
  have "sync_put_request_json D q = JObject m"
    using m(1) by (simp add: sync_put_request_json_def fs_def)
  then show ?thesis
    using assms
    by (simp add: sync_put_request_de_def dto_req_object dto_dflt_object dto_dflt_alias m(2) fs_def v
        utc_back sync_request_ok_def)
qed

lemma sync_response_back:
  assumes "rfc3339_range (pp_received_at p)"
  shows "sync_put_response_de D (sync_put_response_json D p) = Ok p"
proof -
  have v: "de_vec de_string (JArray (map JString xs)) = Ok xs" for xs by (rule de_vec_map) simp
  define fs where "fs = [(''request_id'', dl_ser_uuid D (pp_request_id p)),
        (''accepted'', JBool (pp_accepted p)),
        (''accepted_serial_nos'', JArray (map JString (pp_accepted_serial_nos p))),
        (''failed_serial_nos'', JArray (map JString (pp_failed_serial_nos p))),
        (''records_count'', ser_usize (pp_records_count p)),
        (''received_at'', dl_ser_utc D (pp_received_at p))]"
  have "distinct (map fst fs)" by (simp add: fs_def)
  then obtain m where m: "json_object fs = JObject m" "map_of m = map_of fs"
    using json_object_fields by blast
  have "sync_put_response_json D p = JObject m"
    using m(1) by (simp add: sync_put_response_json_def fs_def)
  then show ?thesis
    using assms
    by (simp add: sync_put_response_de_def dto_req_object dto_dflt_object m(2) fs_def v utc_back uuid_back)
qed

end

section \<open>The columns of the MySQL tables\<close>

text \<open>ASCII capitals are the letters with bit 5 clear; the small letter has it set.\<close>

fun snake_char :: "char \<Rightarrow> string" where
  "snake_char (Char b0 b1 b2 b3 b4 b5 b6 b7) =
     (if b6 \<and> \<not> b5 \<and> Char b0 b1 b2 b3 b4 b5 b6 b7 \<noteq> CHR ''_''
      then [CHR ''_'', Char b0 b1 b2 b3 b4 True b6 b7] else [Char b0 b1 b2 b3 b4 b5 b6 b7])"

definition snake_case :: "string \<Rightarrow> string" where
  "snake_case s = concat (map snake_char s)"

text \<open>They follow the JSON names, \<open>fID\<close> apart.\<close>

lemma weight_photo_sync_names:
  "map fst (weight_photo_sync_fields D ph) =
     [''id'', ''serialNo'', ''plateNumber'', ''imageType'', ''captureTime'', ''captureImage'', ''clientId'',
      ''consigneeUnit'', ''forwardingUnit'', ''delFlag'']"
  by (simp add: weight_photo_sync_fields_def)

lemma mysql_columns_follow_names:
  "WEIGHT_INFO_MYSQL_COLUMNS =
     map (\<lambda>k. if k = ''fID'' then ''f_id'' else snake_case k) (map fst (weight_info_sync_fields D r))"
  "WEIGHT_PHOTO_MYSQL_COLUMNS = map snake_case (map fst (weight_photo_sync_fields D ph))"
  unfolding weight_info_sync_names weight_photo_sync_names
  by (simp_all add: WEIGHT_INFO_MYSQL_COLUMNS_def WEIGHT_INFO_COLUMNS_def WEIGHT_PHOTO_MYSQL_COLUMNS_def
      snake_case_def)

section \<open>Rows as the engine uploads them\<close>

text \<open>
  The engine's library and the structure's: the text of a GUID is read, and the text that
  \<open>format_datetime\<close> writes, with a space between date and time, is not one of \<open>NaiveDateTime\<close>, whose
  text has a \<open>T\<close> there.
\<close>

locale uploaded_rows = tds_laws lib + dto_laws D for lib :: tds_lib and D :: dto_lib +
  assumes guid_text: "dl_de_uuid D (JString (guid_to_string lib u)) = Ok u"
    and naive_text: "\<not> is_ok (dl_de_naive D (JString (format_naive lib t)))"
begin

lemma uploaded_cell:
  assumes d: "row_data lib (weight_info_cells r) (weight_info_cells r) map_new = Ok data"
    and c: "(k, ty, v) \<in> set (weight_info_cells r)" and ok: "decimals_ok r"
  shows "(\<And>t. v \<noteq> DateTime (Some t)) \<Longrightarrow> reads_cell D data k v"
    and "v = DateTime (Some t) \<Longrightarrow> \<not> is_ok (opt_at (dl_de_naive D) data k)"
proof -
  obtain j where j: "column_value_to_json lib (weight_info_cells r) k ty v = Ok j" "map_of data k = Some j"
    using row_data_values(2) [OF d weight_info_cells_distinct c] by blast
  have e: "entity_cell v" using weight_info_entity_cells [of r] c by (fastforce simp: list_all_iff)
  show "reads_cell D data k v" if "\<And>t. v \<noteq> DateTime (Some t)"
  proof (cases v)
    case (Numeric x)
    have "decimal_ok d" if "x = Some d" for d
      using decimals_ok_cell [OF ok, of k ty d] c Numeric that by simp
    then show ?thesis
      using j decimal_text Numeric
      by (cases x) (auto simp: column_value_to_json_def reads_cell_def opt_at_Some de_nullable_def
          split: option.splits)
  next
    case (DateTime x)
    then show ?thesis
      using that j by (cases x) (auto simp: column_value_to_json_def reads_cell_def opt_at_Some de_nullable_def)
  next
    case (String x)
    then show ?thesis
      using j by (cases x) (auto simp: column_value_to_json_def reads_cell_def opt_at_Some de_nullable_def)
  next
    case (I32 x)
    then show ?thesis
      using j de_int_ser(1)
      by (cases x) (auto simp: column_value_to_json_def reads_cell_def opt_at_Some de_nullable_def ser_i32_def)
  next
    case (I64 x)
    then show ?thesis
      using j de_int_ser(2)
      by (cases x) (auto simp: column_value_to_json_def reads_cell_def opt_at_Some de_nullable_def ser_i64_def)
  next
    case (Guid x)
    then show ?thesis
      using j guid_text
      by (cases x) (auto simp: column_value_to_json_def reads_cell_def opt_at_Some de_nullable_def)
  qed (use e in \<open>simp_all add: entity_cell_def\<close>)
  show "\<not> is_ok (opt_at (dl_de_naive D) data k)" if "v = DateTime (Some t)"
    using j that naive_text
    by (auto simp: column_value_to_json_def format_datetime_def opt_at_Some de_nullable_def and_then_Ok_iff
        is_ok_iff)
qed

end

lemma is_ok_and_then: "is_ok (and_then r f) \<longleftrightarrow> (\<exists>x. r = Ok x \<and> is_ok (f x))"
  by (cases r) simp_all

text \<open>A field that does not convert makes the whole structure fail.\<close>

lemma sync_de_bad_time:
  assumes "is_ok (weight_info_sync_de D (JObject m))"
  shows "list_all (\<lambda>k. is_ok (opt_at (dl_de_naive D) m k))
    [''grossTime'', ''tareTime'', ''firstTime'', ''secondTime'', ''updateTime'', ''timeBackup1'',
     ''timeBackup2'', ''timeBackup3'']"
  using assms unfolding weight_info_sync_de_def is_ok_and_then dto_object
  by (elim exE conjE) simp

lemma time_cells:
  "(k, ty, DateTime (Some t)) \<in> set (weight_info_cells r) \<Longrightarrow>
     k \<in> set [''grossTime'', ''tareTime'', ''firstTime'', ''secondTime'', ''updateTime'', ''timeBackup1'',
       ''timeBackup2'', ''timeBackup3''] \<and> \<not> no_times r"
  by (auto simp: weight_info_cells_def col_defs no_times_def)

lemma some_time_cell:
  "\<not> no_times r \<Longrightarrow> \<exists>k ty t. (k, ty, DateTime (Some t)) \<in> set (weight_info_cells r)"
proof -
  assume "\<not> no_times r"
  then consider t where "gross_time r = Some t" | t where "tare_time r = Some t"
    | t where "first_time r = Some t" | t where "second_time r = Some t"
    | t where "update_time r = Some t" | t where "time_backup1 r = Some t"
    | t where "time_backup2 r = Some t" | t where "time_backup3 r = Some t"
    by (auto simp: no_times_def)
  then have "\<exists>k t. (k, Other_type ''Datetimen'', DateTime (Some [t])) \<in> set (weight_info_cells r)"
  proof cases
    case 1
    then show ?thesis by (intro exI [of _ "''grossTime''"]) (auto simp: weight_info_cells_def col_defs)
  next
    case 2
    then show ?thesis by (intro exI [of _ "''tareTime''"]) (auto simp: weight_info_cells_def col_defs)
  next
    case 3
    then show ?thesis by (intro exI [of _ "''firstTime''"]) (auto simp: weight_info_cells_def col_defs)
  next
    case 4
    then show ?thesis by (intro exI [of _ "''secondTime''"]) (auto simp: weight_info_cells_def col_defs)
  next
    case 5
    then show ?thesis by (intro exI [of _ "''updateTime''"]) (auto simp: weight_info_cells_def col_defs)
  next
    case 6
    then show ?thesis by (intro exI [of _ "''timeBackup1''"]) (auto simp: weight_info_cells_def col_defs)
  next
    case 7
    then show ?thesis by (intro exI [of _ "''timeBackup2''"]) (auto simp: weight_info_cells_def col_defs)
  next
    case 8
    then show ?thesis by (intro exI [of _ "''timeBackup3''"]) (auto simp: weight_info_cells_def col_defs)
  qed
  then show ?thesis by blast
qed

context uploaded_rows
begin

lemma uploaded_row_reads:
  assumes ok: "weight_info_ok r" "decimals_ok r"
  shows "\<exists>data. row_to_record lib (weight_info_cells r) =
      Ok \<lparr>sw_serial_no = serial_no r, sw_data = data\<rparr> \<and>
    (if no_times r then weight_info_sync_de D (JObject data) = Ok r
     else \<not> is_ok (weight_info_sync_de D (JObject data)))"
proof -
  obtain data where conv: "row_to_record lib (weight_info_cells r) =
      Ok \<lparr>sw_serial_no = serial_no r, sw_data = data\<rparr>"
    and d: "row_data lib (weight_info_cells r) (weight_info_cells r) map_new = Ok data"
    using weight_info_converts [OF ok(1)] by blast
  note cell = uploaded_cell [OF d _ ok(2)]
  have "weight_info_sync_de D (JObject data) = Ok r" if "no_times r"
  proof (rule sync_de_of_cells)
    have "reads_cell D data k v" if "(k, ty, v) \<in> set (weight_info_cells r)" for k ty v
      using cell(1) [OF that] time_cells \<open>no_times r\<close> that by blast
    then show "list_all (\<lambda>(k, _, v). reads_cell D data k v) (weight_info_cells r)"
      by (auto simp: list_all_iff)
  qed
  moreover have "\<not> is_ok (weight_info_sync_de D (JObject data))" if times: "\<not> no_times r"
  proof -
    obtain k ty t where c: "(k, ty, DateTime (Some t)) \<in> set (weight_info_cells r)"
      using some_time_cell [OF times] by blast
    have "\<not> is_ok (opt_at (dl_de_naive D) data k)" using cell(2) [OF c refl] .
    then show ?thesis using sync_de_bad_time [of D data] time_cells [OF c] by (auto simp: list_all_iff)
  qed
  ultimately show ?thesis using conv by auto
qed

end

section \<open>Properties\<close>

text \<open>
  Conversions for the witnesses: decimals as their text, times with a leading \<open>T\<close>, identifiers as
  decimal numbers.
\<close>

definition demo_dto :: dto_lib where
  "demo_dto =
     \<lparr>dl_ser_decimal = (\<lambda>d. case format_numeric d of Some s \<Rightarrow> JString s | None \<Rightarrow> JString []),
      dl_de_decimal = (\<lambda>j. case j of
          JString s \<Rightarrow> (case parse_decimal s of
              Some (m, k) \<Rightarrow> Ok \<lparr>num_value = word_of_int m, num_scale = word_of_nat k\<rparr>
            | None \<Rightarrow> Err ''invalid decimal'')
        | _ \<Rightarrow> Err ''invalid type''),
      dl_ser_naive = (\<lambda>t. JString (CHR ''T'' # show_int t)),
      dl_de_naive = (\<lambda>j. case j of
          JString (c # s) \<Rightarrow> (if c = CHR ''T'' then (case parse_int s of
              Some t \<Rightarrow> Ok t | None \<Rightarrow> Err ''invalid time'') else Err ''invalid time'')
        | _ \<Rightarrow> Err ''invalid type''),
      dl_ser_utc = (\<lambda>t. JString (show_int t)),
      dl_de_utc = (\<lambda>j. case j of
          JString s \<Rightarrow> (case parse_int s of Some t \<Rightarrow> Ok t | None \<Rightarrow> Err ''invalid time'')
        | _ \<Rightarrow> Err ''invalid type''),
      dl_ser_uuid = (\<lambda>u. JString (show_nat (unat u))),
      dl_de_uuid = (\<lambda>j. case j of
          JString s \<Rightarrow> (case parse_nat s of Some n \<Rightarrow> Ok (word_of_nat n) | None \<Rightarrow> Err ''invalid UUID'')
        | _ \<Rightarrow> Err ''invalid type''),
      dl_f64_of_int = (\<lambda>_. 0)\<rparr>"

lemma decimal_ok_prints: "decimal_ok d \<Longrightarrow> \<exists>s. format_numeric d = Some s"
  by (rule format_numeric_total) (auto simp: decimal_ok_def numeric_ok_def)

interpretation demo_dto: dto_laws demo_dto
proof
  have text_back: "dl_de_decimal demo_dto (JString s) = Ok d" if "format_numeric d = Some s" for d s
    using format_numeric_exact [OF that] by (simp add: demo_dto_def)
  show "dl_de_decimal demo_dto (dl_ser_decimal demo_dto d) = Ok d" if d: "decimal_ok d" for d
  proof -
    obtain s where "format_numeric d = Some s" using decimal_ok_prints [OF d] by blast
    then show ?thesis using text_back by (simp add: demo_dto_def)
  qed
  show "dl_de_decimal demo_dto (JString s) = Ok d" if "format_numeric d = Some s" for d s
    using text_back [OF that] .
qed (simp_all add: demo_dto_def split: option.splits)

lemma show_int_no_T: "show_int t \<noteq> CHR ''T'' # s"
proof
  assume "show_int t = CHR ''T'' # s"
  then have "parse_int (CHR ''T'' # s) = Some t" using parse_int_show [of t] by simp
  then show False by (simp add: parse_int_def parse_nat_def digit_val_def)
qed

interpretation demo_upload: uploaded_rows by_name_lib demo_dto
proof
  show "dl_de_uuid demo_dto (JString (guid_to_string by_name_lib u)) = Ok u" for u
    by (simp add: demo_dto_def by_name_lib_def)
  show "\<not> is_ok (dl_de_naive demo_dto (JString (format_naive by_name_lib t)))" for t
    using show_int_no_T [of t] by (cases "show_int t") (auto simp: demo_dto_def by_name_lib_def)
qed

text \<open>
  C37: the structures of the protocol survive the wire. Every request whose decimals, times and
  weights are values the types can carry, and every response, is read back from its JSON value
  exactly, with all rows of the three tables, their optional fields and the renamed ones.
\<close>

theorem sync_protocol_round_trip:
  assumes "dto_laws D" and "sync_request_ok q" and "rfc3339_range (pp_received_at p)"
  shows "sync_put_request_de D (sync_put_request_json D q) = Ok q \<and>
    sync_put_response_de D (sync_put_response_json D p) = Ok p"
  using dto_laws.sync_request_back [OF assms(1, 2)] dto_laws.sync_response_back [OF assms(1, 3)] by blast

theorem sync_protocol_round_trip_witness:
  "sync_put_request_de demo_dto (sync_put_request_json demo_dto
     \<lparr>pq_source = ''s'', pq_database = ''d'', pq_table = ''t'', pq_uploaded_at = 7,
      pq_records = [demo_weight ''S1'' (Some \<lparr>num_value = 1234, num_scale = 2\<rparr>) None (Some 7)],
      pq_weight_photo_records = [], pq_local_cache_records = []\<rparr>) = Ok
     \<lparr>pq_source = ''s'', pq_database = ''d'', pq_table = ''t'', pq_uploaded_at = 7,
      pq_records = [demo_weight ''S1'' (Some \<lparr>num_value = 1234, num_scale = 2\<rparr>) None (Some 7)],
      pq_weight_photo_records = [], pq_local_cache_records = []\<rparr>"
proof -
  let ?q = "\<lparr>pq_source = ''s'', pq_database = ''d'', pq_table = ''t'', pq_uploaded_at = 7,
      pq_records = [demo_weight ''S1'' (Some \<lparr>num_value = 1234, num_scale = 2\<rparr>) None (Some 7)],
      pq_weight_photo_records = [], pq_local_cache_records = []\<rparr>"
  let ?p = "\<lparr>pp_request_id = 1, pp_accepted = True, pp_accepted_serial_nos = [],
      pp_failed_serial_nos = [], pp_records_count = 0, pp_received_at = 7\<rparr>"
  have "decimal_ok \<lparr>num_value = 1234, num_scale = 2\<rparr>" by (simp add: decimal_ok_def)
  then have "decimals_ok (demo_weight ''S1'' (Some \<lparr>num_value = 1234, num_scale = 2\<rparr>) None (Some 7))"
    by (simp add: decimals_ok_def demo_weight_def weight_info_cells_def col_defs)
  then have "sync_request_ok ?q" "rfc3339_range (pp_received_at ?p)"
    by (simp_all add: sync_request_ok_def rfc3339_range_def)
  from sync_protocol_round_trip [OF demo_dto.dto_laws_axioms this] show ?thesis by blast
qed



end
