(* ===== verification/Spec2Isabelle.thy ===== *)
theory Spec2Isabelle
  imports Local_Receiver Websocket_Client Requests Delivery Sync_Protocol
begin

text \<open>
  Verification of weighing-data-sync, a daemon that uploads truck-scale weighings to a cloud endpoint
  and can receive them. The implementation is the Rust crate under src/src.

  \<^bold>\<open>The program.\<close> \<open>main.rs\<close> reads the configuration (\<open>config.rs\<close>), builds one of two engines and runs
  it: at start, on every tick of a cron expression, or once. The local engine (\<open>sync/engine.rs\<close>)
  takes pending records from a SQLite cache (\<open>db/mod.rs\<close>, \<open>db/models.rs\<close>), posts them as one batch and
  marks each record synced or failed. The SQL Server engine (\<open>sync/sqlserver_engine.rs\<close>) reads rows that
  are not uploaded through \<open>source/sqlserver.rs\<close>, posts them and sets their upload flag. Both repeat a
  failed upload with growing delays (\<open>sync/retry.rs\<close>) unless the error is permanent
  (\<open>sync/error.rs\<close>). The receive server (\<open>server.rs\<close>) is the other end of the protocol: it accepts such
  batches and stores them. \<open>client/websocket.rs\<close> is a second transport, and \<open>windows/\<close> registers the
  daemon with the platform.

  \<^bold>\<open>The theories.\<close>
  \<^item> \<open>Prelude\<close>, \<open>Rust_Strings\<close>, \<open>Floats\<close>, \<open>Json\<close>: results and error chains, durations with checked
    arithmetic, machine words, the string operations, floats as bit patterns, JSON values.
  \<^item> \<open>Config\<close> (config.rs): the sections as records, serde's defaults, \<open>load\<close>, the credential guard.
    Absent sections equal empty ones and cannot pass the guard.
  \<^item> \<open>Retry\<close> (sync/error.rs, sync/retry.rs): \<open>retry_transient\<close> as a partial function over any clock,
    sleep and operation. It returns, it equals the relation \<open>retry_exec\<close> of its attempts, and its delays
    and total time stay within the budget.
  \<^item> \<open>Weighing_Models\<close> (db/models.rs, entity/weighing_record.rs): records, construction, conversion to and
    from rows. Constructed records are valid; a record survives the round trip through a row.
  \<^item> \<open>Local_Db\<close> (db/mod.rs): the statements on tables as lists of rows, any of which may fail;
    connection and migrations. The statements refine updates of a map from identifiers to
    records and keep the invariant \<open>db_wf\<close>; fetching returns the oldest pending records.
  \<^item> \<open>Upload_Http\<close>: what the engines share (sync/mod.rs and the request building of both): the world with
    clock, wall clock, arbitrary endpoint, requests sent; the locale \<open>http_upload\<close> of an upload under
    retries and the locale \<open>batch_drain\<close> of cycles that shrink a backlog, interpreted on both engines.
  \<^item> \<open>Local_Engine\<close> (sync/engine.rs): a cycle returns, refines \<open>cache_cycle\<close>, loses no record, marks a record
    synced only when it was acknowledged, drains the backlog, survives an outage.
  \<^item> \<open>Entity_Schema\<close>, \<open>Sql_Rows\<close>, \<open>Sql_Server_Source\<close> (entity/weight_info.rs, entity/weight_photo.rs,
    source/sqlserver.rs): the table's 66 columns, statement texts and quoting, conversion of cells to JSON,
    decimals, connection, query and chunked write-back. Quoted identifiers and decimals read back;
    the chunks act as one update within the parameter limit.
  \<^item> \<open>Sql_Server_Engine\<close> (sync/sqlserver_engine.rs): a cycle returns, refines \<open>table_cycle\<close>, changes nothing
    but the flags of acknowledged rows, drains the table.
  \<^item> \<open>Receive_Server\<close> (server.rs): start, health, the upload handler. Uploads need the bearer token and are
    acknowledged completely; persistence is best effort.
  \<^item> \<open>End_To_End\<close>, \<open>Local_Receiver\<close>: the receive server as the endpoint of an engine, over a wire (the
    locales \<open>wire\<close> and, for payloads with floats, \<open>float_wire\<close>) that parses what it prints. One cycle of
    either engine marks its batch and the server stores it, once, although the server acknowledges serial
    numbers, which the local engine does not read.
  \<^item> \<open>Websocket_Client\<close> (client/websocket.rs): the exchange of a batch for an acknowledgement with an arbitrary
    peer. The wait equals its specification, a push succeeds exactly on an acknowledgement of the whole
    batch, and the buffer sizes keep the library's order.
  \<^item> \<open>Windows_Support\<close> (windows/): both builds of the autostart and service commands over an abstract
    platform.
  \<^item> \<open>Cycle_Steps\<close>, \<open>Cycle_Safety\<close> (sync/engine.rs, sync/sqlserver_engine.rs, sync/retry.rs): the cycles of
    both engines as steps from one await to the next, which left alone are the cycles. Every step, on
    stores others change in between, keeps the records and marks only what the endpoint acknowledged;
    the locale \<open>cycle_task\<close> states that, is a sublocale of both engines, and is interpreted on the steps of
    \<open>AppEngine\<close>.
  \<^item> \<open>Daemon\<close> (main.rs): the commands, the construction of the engine and the start, with what can stop it.
  \<^item> \<open>Processes\<close> (main.rs): the machine. Daemons (start-up cycle, ticks, the mutex around the engine, jobs,
    requests to the server), \<open>sync-now\<close> commands and servers share the stores, take steps in any order and
    are launched and killed at any time, while weighings arrive. No weighing is lost and nothing is
    marked without an acknowledgement; a daemon's cycles never overlap and every tick gets its cycle.
  \<^item> \<open>Requests\<close>: what a cycle sends. All its requests upload one batch of what was pending.
  \<^item> \<open>Delivery\<close>: from every state the machine can reach, a daemon whose endpoint accepts and whose
    statements succeed comes, by its own steps, to a state where everything is uploaded; its
    invariant \<open>daemon_served\<close> holds through every step of the daemon.
  \<^item> \<open>Sync_Protocol\<close> (docs/sync_structs.rs): the drafted structures of the protocol and their JSON. They
    survive the wire; a row the engine uploads reads back as it was unless it holds a time.
  \<^item> This theory: an engine and a receive server together.

  \<^bold>\<open>Conventions.\<close> A struct is a record, an enum a datatype, \<open>Result\<close> the datatype \<open>result\<close>, an
  \<open>anyhow::Error\<close> a message under contexts; integers keep their width as words. Fallible stateful
  code returns the result and the new state. A loop that might not end is a
  \<open>partial_function (option)\<close> where \<open>None\<close> is not ending; for the retry loop and both cycles it is shown
  not to occur, for the wait for a WebSocket acknowledgement it is characterised. No fuel is used.

  \<^bold>\<open>Parameters.\<close> Code outside the crate is an argument of the definitions that use it: the codec of
  identifiers and times (\<open>codec_laws\<close>), the ordering of SQL results (\<open>asc_ordering\<close>), units of measurement,
  serde_json, reqwest, flate2, the driver and collation of SQL Server (\<open>tds_laws\<close>, \<open>sql_source\<close>), axum's
  extraction, the socket, the registry (\<open>registry_laws\<close>), the service manager, the cron scheduler. The
  laws are the documented behaviour; every property that assumes one has a witness on concrete
  functions that satisfy it. Databases, servers and endpoints may fail at any statement.

  \<^bold>\<open>Not modelled.\<close> Output through tracing; the runtime below async functions: a step runs from one await to
  the next on the stores it finds, an upload attempt together with the sleep after it, and building the
  engine and opening the pools at the start of a process is one step; the jobs of a daemon queue for
  the mutex in the order of their ticks; the end of serving (\<open>shutdown_signal\<close> only waits and logs) and
  axum's panic on a route it cannot parse; \<open>init_logging\<close>; the handler reads the wall clock once for the
  stored and the returned time; clap's parsing beyond the defaults; which of several errors serde reports; the Go services, scripts and documents beside the
  crate.
\<close>

section \<open>The two ends of the protocol\<close>

text \<open>A pair of engine and server for the witness.\<close>

definition demo_pair_libs :: sql_libs where
  "demo_pair_libs = \<lparr>sq_env = demo_env_tds, sq_http = wire_lib\<rparr>"

definition demo_pair_engine :: sqlserver_engine where
  "demo_pair_engine = demo_sql_engine\<lparr>sq_api :=
     \<lparr>endpoint = ''http://receiver'', api_api_key = Some ''k'', timeout_seconds = 30\<rparr>\<rparr>"

definition demo_pair_world :: "nat \<Rightarrow> sql_server world" where
  "demo_pair_world limit = (demo_sql_world (Err []))\<lparr>remote :=
     receiver_remote (demo_receiver limit) demo_pair_state\<rparr>"

lemma demo_faultless: "no_faults (demo_server rows)"
  by (simp add: no_faults_def demo_server_def)

text \<open>
  C7: the SQL Server engine and the receive server of this repository work together. When the
  engine uploads to the receive server without compression, the two keys agree (or the server
  has none), the body of the batch is within the server's limit, no connection or statement
  fails and the rows convert, one cycle succeeds: every row of the fetched batch is acknowledged and
  none is rejected, at least a full batch is no longer pending, and one request was sent, which the
  server, if its database takes it, stores as one row whose payload holds exactly the JSON objects of
  the batch under the names of the database and table.
\<close>

theorem sqlserver_to_receiver:
  assumes "sql_source (sq_env L)" and "wire (sq_http L) R" and "\<not> compression (sq_http L)"
    and "sql_quiet L w" and "remote w = receiver_remote R st"
    and "keys_agree R st (api_api_key (sq_api e))" and "mark_uploaded_enabled (sq_source e)"
    and "\<And>rs s'. source_fetch_pending (sq_env L) (sq_source e) (batch_size (sq_sync e))
      (source_of w) = (Ok rs, s') \<Longrightarrow> body_fits (sq_http L) R e (map sw_data rs)"
  shows "\<exists>rs s' out w'. source_fetch_pending (sq_env L) (sq_source e) (batch_size (sq_sync e))
      (source_of w) = (Ok rs, s') \<and> sqlserver_sync_once L e w = Some (Ok out, w') \<and>
    delivered_rows L R st e rs w out w'"
  using assms by (rule receiver_cycle)

theorem sqlserver_to_receiver_witness:
  "\<exists>limit rs out w'.
     sqlserver_sync_once demo_pair_libs demo_pair_engine (demo_pair_world limit) = Some (Ok out, w') \<and>
     delivered_rows demo_pair_libs (demo_receiver limit) demo_pair_state demo_pair_engine rs
       (demo_pair_world limit) out w' \<and> pending_rows w' \<le> 1"
proof -
  have src: "sql_source (sq_env demo_pair_libs)" by (simp add: demo_pair_libs_def demo_sql_source)
  have lib: "sq_http demo_pair_libs = wire_lib" by (simp add: demo_pair_libs_def)
  have nc: "\<not> compression (sq_http demo_pair_libs)" by (simp add: lib wire_lib_def)
  have q: "sql_quiet demo_pair_libs (demo_pair_world k)" for k
    using demo_sql_quiet [of "Err []"]
    by (simp add: sql_quiet_def demo_pair_world_def world_rows_def lib serialises_def wire_lib_def)
  have rm: "remote (demo_pair_world k) = receiver_remote (demo_receiver k) demo_pair_state" for k
    by (simp add: demo_pair_world_def)
  have so: "source_of (demo_pair_world k) = demo_server demo_rows" for k
    by (simp add: demo_pair_world_def demo_sql_world_def)
  have keys: "keys_agree (demo_receiver k) demo_pair_state (api_api_key (sq_api demo_pair_engine))" for k
    using demo_pair_keys by (simp add: demo_pair_engine_def)
  have on: "mark_uploaded_enabled (sq_source demo_pair_engine)"
    using demo_sql_marks by (simp add: demo_pair_engine_def)
  obtain rs s1 where f: "source_fetch_pending (sq_env demo_pair_libs) (sq_source demo_pair_engine)
      (batch_size (sq_sync demo_pair_engine)) (demo_server demo_rows) = (Ok rs, s1)"
    using sql_source.fetch_total [OF src demo_faultless [of demo_rows],
        of "sq_source demo_pair_engine" "batch_size (sq_sync demo_pair_engine)"] demo_rows_ok
    by (auto simp: demo_server_def)
  let ?k = "length (wire_print (upload_json wire_lib demo_pair_engine (map sw_data rs) 0))"
  have t0: "upload_json wire_lib demo_pair_engine d t = upload_json wire_lib demo_pair_engine d 0" for d t
    by (simp add: upload_json_def sqlserver_request_json_def wire_lib_def)
  have tv: "to_vec wire_lib j = Ok (wire_print j)" for j by (simp add: wire_lib_def)
  have "rcv_limit (demo_receiver ?k) = ?k" by (simp add: demo_receiver_def)
  then have fits: "body_fits (sq_http demo_pair_libs) (demo_receiver ?k) demo_pair_engine (map sw_data rs)"
    unfolding body_fits_def lib by (metis order_refl result.inject(1) t0 tv)
  have b: "batch_size (sq_sync demo_pair_engine) = 1"
    by (simp add: demo_pair_engine_def demo_sql_engine_def)
  have p: "pending_rows (demo_pair_world ?k) = 2"
    using demo_sql_pending [of "Err []"] by (simp add: pending_rows_def world_rows_def demo_pair_world_def)
  have fits': "body_fits (sq_http demo_pair_libs) (demo_receiver ?k) demo_pair_engine (map sw_data rs')"
    if "source_fetch_pending (sq_env demo_pair_libs) (sq_source demo_pair_engine)
      (batch_size (sq_sync demo_pair_engine)) (source_of (demo_pair_world ?k)) = (Ok rs', s')" for rs' s'
    using that f fits unfolding so by simp
  obtain rs' out w' where
    run: "sqlserver_sync_once demo_pair_libs demo_pair_engine (demo_pair_world ?k) = Some (Ok out, w')"
    and dl: "delivered_rows demo_pair_libs (demo_receiver ?k) demo_pair_state demo_pair_engine rs'
      (demo_pair_world ?k) out w'"
    using sqlserver_to_receiver [OF src demo_wire.wire_axioms [folded lib] nc q rm keys on, of ?k] fits' by metis
  have "unat (batch_size (sq_sync demo_pair_engine)) = 1" by (simp add: b)
  then have "pending_rows w' \<le> 1" using dl p by (simp add: delivered_rows_def)
  then show ?thesis using run dl by blast
qed

end
